(* ===== verification/Prelude.thy ===== *)
theory Prelude
  imports Complex_Main "HOL-Library.Word"
begin

text \<open>
  Shared vocabulary of the development: the machine integer types of the source as words,
  saturating arithmetic on unbounded naturals with the width written out, the crate's error
  type, little-endian byte codecs with their round trips, and the list lemmas that several
  components use.
\<close>

unbundle bit_operations_syntax

named_theorems codec_simps \<open>rewrite rules that evaluate byte readers on byte writers\<close>
named_theorems panic_free \<open>facts that a partial operation of the source does not panic\<close>

subsection \<open>Machine integers\<close>

type_synonym u8 = "8 word"
type_synonym u16 = "16 word"
type_synonym u32 = "32 word"
type_synonym u64 = "64 word"
type_synonym i16 = "16 word"

text \<open>
  Counters and sizes (\<open>usize\<close>, \<open>u64\<close>) are kept as naturals; where the source saturates,
  the bound of the width is written out. Subtraction on \<^typ>\<open>nat\<close> is Rust's
  \<open>saturating_sub\<close>.
\<close>

definition umax :: "nat \<Rightarrow> nat" where
  "umax w = 2 ^ w - 1"

definition sat_add :: "nat \<Rightarrow> nat \<Rightarrow> nat \<Rightarrow> nat" where
  "sat_add w a b = min (umax w) (a + b)"

definition clampn :: "nat \<Rightarrow> nat \<Rightarrow> nat \<Rightarrow> nat" where
  "clampn v lo hi = (if v < lo then lo else if hi < v then hi else v)"

definition div_ceil :: "nat \<Rightarrow> nat \<Rightarrow> nat" where
  "div_ceil a b = (a + b - 1) div b"

text \<open>Arithmetic without an explicit mode panics on overflow in a checked build: \<open>ck w n\<close> is a
  result \<open>n\<close> that has to fit \<open>w\<close> bits.\<close>

definition ck :: "nat \<Rightarrow> nat \<Rightarrow> nat option" where
  "ck w n = (if n \<le> umax w then Some n else None)"

lemma ck_Some [simp]: "n \<le> umax w \<Longrightarrow> ck w n = Some n"
  by (simp add: ck_def)

lemma ck_eq_Some: "ck w n = Some m \<longleftrightarrow> n \<le> umax w \<and> m = n"
  by (auto simp: ck_def)

lemma sat_add_le [simp]: "sat_add w a b \<le> umax w"
  by (simp add: sat_add_def)

lemma sat_add_exact: "a + b \<le> umax w \<Longrightarrow> sat_add w a b = a + b"
  by (simp add: sat_add_def)

lemma clampn_bounds: "lo \<le> hi \<Longrightarrow> lo \<le> clampn v lo hi \<and> clampn v lo hi \<le> hi"
  by (simp add: clampn_def)

lemma div_ceil_le_iff: "0 < b \<Longrightarrow> div_ceil a b \<le> n \<longleftrightarrow> a \<le> n * b"
proof -
  assume b: "0 < b"
  have "div_ceil a b \<le> n \<longleftrightarrow> (a + b - 1) div b < Suc n" by (simp add: div_ceil_def less_Suc_eq_le)
  also have "\<dots> \<longleftrightarrow> a + b - 1 < Suc n * b" using b by (rule div_less_iff_less_mult)
  also have "\<dots> \<longleftrightarrow> a \<le> n * b" using b by auto
  finally show ?thesis .
qed

lemma le_div_ceil_mult: "0 < b \<Longrightarrow> a \<le> div_ceil a b * b"
  using div_ceil_le_iff [of b a "div_ceil a b"] by simp

lemma unat_word_le_umax: "unat (w :: 'a::len word) \<le> umax LENGTH('a)"
proof -
  have "unat w < 2 ^ LENGTH('a)" by (rule unsigned_less)
  then show ?thesis unfolding umax_def by linarith
qed

subsection \<open>Errors as values\<close>

text \<open>
  \<open>Error\<close> of \<^verbatim>\<open>src/error.rs\<close>. The boxed error of \<open>Backend\<close> is kept as an opaque
  description.
\<close>

datatype error =
    WouldBlockErr
  | StoppedErr
  | DisconnectedErr string
  | PermissionDenied string
  | InvalidConfig string
  | BackendErr string

type_synonym 'a result = "error + 'a"

datatype write_outcome = Written | WouldBlock

definition is_would_block :: "error \<Rightarrow> bool" where
  "is_would_block e = (case e of WouldBlockErr \<Rightarrow> True | _ \<Rightarrow> False)"

definition is_disconnected :: "error \<Rightarrow> bool" where
  "is_disconnected e = (case e of DisconnectedErr _ \<Rightarrow> True | _ \<Rightarrow> False)"

definition is_permission_denied :: "error \<Rightarrow> bool" where
  "is_permission_denied e = (case e of PermissionDenied _ \<Rightarrow> True | _ \<Rightarrow> False)"

definition is_stopped :: "error \<Rightarrow> bool" where
  "is_stopped e = (case e of StoppedErr \<Rightarrow> True | _ \<Rightarrow> False)"

fun is_ok :: "'e + 'a \<Rightarrow> bool" where
  "is_ok (Inl _) = False"
| "is_ok (Inr _) = True"

subsection \<open>Little-endian bytes\<close>

definition le16 :: "u16 \<Rightarrow> u8 list" where
  "le16 w = [ucast w, ucast (drop_bit 8 w)]"

definition le32 :: "u32 \<Rightarrow> u8 list" where
  "le32 w = [ucast w, ucast (drop_bit 8 w), ucast (drop_bit 16 w), ucast (drop_bit 24 w)]"

definition of_le16 :: "u8 \<Rightarrow> u8 \<Rightarrow> u16" where
  "of_le16 a b = ucast a OR push_bit 8 (ucast b)"

definition of_le32 :: "u8 \<Rightarrow> u8 \<Rightarrow> u8 \<Rightarrow> u8 \<Rightarrow> u32" where
  "of_le32 a b c d =
     ucast a OR push_bit 8 (ucast b) OR push_bit 16 (ucast c) OR push_bit 24 (ucast d)"

text \<open>
  Readers consume a prefix of a byte list, as \<open>ReadBytesExt\<close> does, and fail at end of input
  (\<open>io::ErrorKind::UnexpectedEof\<close>).
\<close>

datatype io_error =
    UnexpectedEof | InvalidData | InvalidInput | Interrupted | IoWouldBlock | TimedOut | OtherIo

type_synonym 'a reader = "u8 list \<Rightarrow> io_error + ('a \<times> u8 list)"

fun read_u8 :: "u8 reader" where
  "read_u8 (a # r) = Inr (a, r)"
| "read_u8 _ = Inl UnexpectedEof"

fun read_u16 :: "u16 reader" where
  "read_u16 (a # b # r) = Inr (of_le16 a b, r)"
| "read_u16 _ = Inl UnexpectedEof"

fun read_u32 :: "u32 reader" where
  "read_u32 (a # b # c # d # r) = Inr (of_le32 a b c d, r)"
| "read_u32 _ = Inl UnexpectedEof"

definition rbind :: "'a reader \<Rightarrow> ('a \<Rightarrow> 'b reader) \<Rightarrow> 'b reader" where
  "rbind m f bs = (case m bs of Inl e \<Rightarrow> Inl e | Inr (a, r) \<Rightarrow> f a r)"

definition rreturn :: "'a \<Rightarrow> 'a reader" where
  "rreturn a bs = Inr (a, bs)"

definition rfail :: "io_error \<Rightarrow> 'a reader" where
  "rfail e bs = Inl e"

lemma of_le16_le16 [codec_simps]: "of_le16 (ucast w) (ucast (drop_bit 8 w)) = w"
  unfolding of_le16_def
  by (rule bit_word_eqI) (auto simp: bit_simps)

lemma of_le32_le32 [codec_simps]:
  "of_le32 (ucast w) (ucast (drop_bit 8 w)) (ucast (drop_bit 16 w)) (ucast (drop_bit 24 w)) = w"
  unfolding of_le32_def
proof (rule bit_word_eqI)
  fix n assume "n < LENGTH(32)"
  then have n: "n < 32" by simp
  consider "n < 8" | "8 \<le> n" "n < 16" | "16 \<le> n" "n < 24" | "24 \<le> n" by linarith
  then show "bit (ucast (ucast w :: u8) OR push_bit 8 (ucast (ucast (drop_bit 8 w) :: u8)) OR
      push_bit 16 (ucast (ucast (drop_bit 16 w) :: u8)) OR
      push_bit 24 (ucast (ucast (drop_bit 24 w) :: u8)) :: u32) n = bit w n"
    by cases (use n in \<open>auto simp: bit_simps\<close>)
qed

lemma length_le [simp]: "length (le16 w) = 2" "length (le32 v) = 4"
  by (simp_all add: le16_def le32_def)

lemma read_le [codec_simps]:
  "read_u8 (b # r) = Inr (b, r)"
  "read_u16 (le16 w @ r) = Inr (w, r)"
  "read_u32 (le32 v @ r) = Inr (v, r)"
  by (simp_all add: le16_def le32_def of_le16_le16 of_le32_le32)

lemma rbind_ok [codec_simps]:
  "m bs = Inr (a, r) \<Longrightarrow> rbind m f bs = f a r"
  by (simp add: rbind_def)

lemma rreturn_ok [codec_simps]: "rreturn a bs = Inr (a, bs)"
  by (simp add: rreturn_def)

subsection \<open>Lists\<close>

lemma take_append_drop_split:
  "a \<le> b \<Longrightarrow> take a xs @ take (b - a) (drop a xs) = take b xs"
  by (metis le_add_diff_inverse take_add)

lemma last_in_hd: "xs \<noteq> [] \<Longrightarrow> last xs = xs ! (length xs - 1) \<and> hd xs = xs ! 0"
  by (simp add: last_conv_nth hd_conv_nth)

lemma nth_append_drop: "length a \<le> i \<Longrightarrow> (a @ b) ! i = b ! (i - length a)"
  by (simp add: nth_append)

end
