(* ===== verification/Float_Model.thy ===== *)
theory Float_Model
  imports Prelude "HOL-Library.Log_Nat"
begin

text \<open>
  IEEE 754 binary32 and binary64 arithmetic as the source uses it (\<open>f32\<close>, \<open>f64\<close>): a value is a
  NaN, an infinity or a rational number, and every operation rounds its exact rational result to
  nearest, ties to even, in the precision of the format, with gradual underflow and overflow to
  infinity. The two zeros are identified: no modelled code observes the sign of a zero. NaN
  payloads are not modelled. The definitions compute; the lemmas give what proofs about the
  source need: rounding is monotone, fixes every integer of at most \<open>fprec\<close> bits, and errs by at
  most half a unit in the last place.
\<close>

subsection \<open>Rounding to nearest, ties to even\<close>

definition ilog2 :: "rat \<Rightarrow> int" where
  "ilog2 x = (if 1 \<le> x then bitlen \<lfloor>x\<rfloor> - 1 else - bitlen (\<lceil>1 / x\<rceil> - 1))"

lemma ilog2_bounds:
  assumes "0 < x"
  shows "2 powi ilog2 x \<le> x" and "x < 2 powi (ilog2 x + 1)"
proof -
  have "2 powi ilog2 x \<le> x \<and> x < 2 powi (ilog2 x + 1)"
  proof (cases "1 \<le> x")
    case True
    then have fl: "0 < \<lfloor>x\<rfloor>" by (simp add: le_floor_iff)
    define b where "b = nat (bitlen \<lfloor>x\<rfloor> - 1)"
    have bl: "2 ^ nat (bitlen \<lfloor>x\<rfloor> - 1) \<le> \<lfloor>x\<rfloor>" "\<lfloor>x\<rfloor> < 2 ^ nat (bitlen \<lfloor>x\<rfloor>)"
      using bitlen_bounds [OF fl] by auto
    have pos: "0 < bitlen \<lfloor>x\<rfloor>"
      using fl bitlen_nonneg [of "\<lfloor>x\<rfloor>"] bitlen_eq_zero_iff [of "\<lfloor>x\<rfloor>"] by linarith
    have e: "ilog2 x = int b" using True pos by (simp add: ilog2_def b_def)
    have sb: "nat (bitlen \<lfloor>x\<rfloor>) = Suc b" using pos by (simp add: b_def)
    have "2 ^ b \<le> x"
      using bl(1) unfolding b_def [symmetric] by (simp add: le_floor_iff)
    moreover have "x < 2 ^ Suc b"
      using bl(2) unfolding sb by (metis floor_less_iff of_int_numeral of_int_power)
    ultimately show ?thesis
      unfolding e by (simp add: power_int_add_1)
  next
    case False
    define n where "n = \<lceil>1 / x\<rceil> - 1"
    from False assms have "1 < 1 / x" by simp
    then have n0: "0 < n" unfolding n_def by (simp add: less_ceiling_iff)
    have bl: "2 ^ nat (bitlen n - 1) \<le> n" "n < 2 ^ nat (bitlen n)"
      using bitlen_bounds [OF n0] by auto
    have pos: "0 < bitlen n"
      using n0 bitlen_nonneg [of n] bitlen_eq_zero_iff [of n] by linarith
    define b where "b = nat (bitlen n - 1)"
    have e: "ilog2 x = - int (Suc b)" using False pos by (simp add: ilog2_def b_def n_def)
    have sb: "nat (bitlen n) = Suc b" using pos by (simp add: b_def)
    have "n < 2 ^ Suc b" using bl(2) unfolding sb .
    then have "\<lceil>1 / x\<rceil> \<le> 2 ^ Suc b" by (simp add: n_def)
    then have "1 / x \<le> 2 ^ Suc b"
      by (metis ceiling_le_iff of_int_numeral of_int_power)
    then have lo: "inverse (2 ^ Suc b) \<le> x"
      using assms by (simp add: field_simps)
    have "2 ^ b \<le> n" using bl(1) unfolding b_def .
    then have "2 ^ b < \<lceil>1 / x\<rceil>" by (simp add: n_def)
    then have "2 ^ b < 1 / x"
      by (metis less_ceiling_iff of_int_numeral of_int_power)
    then have hi: "x < inverse (2 ^ b)"
      using assms by (simp add: field_simps)
    have "- int (Suc b) + 1 = - int b" by simp
    then show ?thesis
      unfolding e using lo hi by (metis power_int_minus power_int_of_nat)
  qed
  then show "2 powi ilog2 x \<le> x" and "x < 2 powi (ilog2 x + 1)" by auto
qed

lemma powi2_less_iff: "(2 :: rat) powi a < 2 powi b \<longleftrightarrow> a < b"
  using power_int_strict_increasing [of a b "2 :: rat"] power_int_increasing [of b a "2 :: rat"]
  by (cases "a < b") auto

lemma ilog2_mono:
  assumes "0 < x" "x \<le> y"
  shows "ilog2 x \<le> ilog2 y"
proof -
  have "2 powi ilog2 x < (2 :: rat) powi (ilog2 y + 1)"
    using ilog2_bounds(1) [of x] ilog2_bounds(2) [of y] assms by linarith
  then show ?thesis by (simp add: powi2_less_iff)
qed

definition rne :: "rat \<Rightarrow> int" where
  "rne x = (let f = \<lfloor>x\<rfloor>; d = x - of_int f in
     if d < 1 / 2 then f else if 1 / 2 < d then f + 1 else if even f then f else f + 1)"

lemma rne_floor: "\<lfloor>x\<rfloor> \<le> rne x" "rne x \<le> \<lfloor>x\<rfloor> + 1"
  by (auto simp: rne_def Let_def)

lemma rne_int [simp]: "rne (of_int n) = n"
  by (simp add: rne_def)

lemma rne_mono: "x \<le> y \<Longrightarrow> rne x \<le> rne y"
proof (cases "\<lfloor>x\<rfloor> = \<lfloor>y\<rfloor>")
  case True
  assume "x \<le> y"
  with True show ?thesis by (auto simp: rne_def Let_def)
next
  case False
  assume "x \<le> y"
  with False have "\<lfloor>x\<rfloor> + 1 \<le> \<lfloor>y\<rfloor>" using floor_mono [of x y] by linarith
  then show ?thesis using rne_floor(2) [of x] rne_floor(1) [of y] by linarith
qed

lemma rne_err: "\<bar>of_int (rne x) - x\<bar> \<le> 1 / 2"
  unfolding rne_def Let_def by (auto simp: abs_if) (use of_int_floor_le [of x] in linarith)+

lemma rne_minus: "rne (- x) = - rne x"
proof (cases "x = of_int \<lfloor>x\<rfloor>")
  case True
  then show ?thesis by (metis of_int_minus rne_int)
next
  case False
  then have c: "\<lfloor>- x\<rfloor> = - \<lfloor>x\<rfloor> - 1"
    using of_int_floor_le [of x] floor_correct [of x] by (intro floor_unique) (simp, linarith)+
  then show ?thesis unfolding rne_def Let_def c by auto
qed


subsection \<open>Formats\<close>

datatype fmt = F32 | F64

fun fprec :: "fmt \<Rightarrow> nat" where
  "fprec F32 = 24"
| "fprec F64 = 53"

fun femin :: "fmt \<Rightarrow> int" where
  "femin F32 = - 149"
| "femin F64 = - 1074"

fun femax :: "fmt \<Rightarrow> int" where
  "femax F32 = 127"
| "femax F64 = 1023"

definition qexp :: "fmt \<Rightarrow> rat \<Rightarrow> int" where
  "qexp F x = max (ilog2 \<bar>x\<bar> - (int (fprec F) - 1)) (femin F)"

definition rnd :: "fmt \<Rightarrow> rat \<Rightarrow> rat" where
  "rnd F x = (if x = 0 then 0 else of_int (rne (x / 2 powi qexp F x)) * 2 powi qexp F x)"

lemma rnd_0 [simp]: "rnd F 0 = 0"
  by (simp add: rnd_def)

lemma rnd_minus [simp]: "rnd F (- x) = - rnd F x"
  by (simp add: rnd_def qexp_def rne_minus)

lemma fprec_pos: "1 < fprec F" "femin F \<le> - 1"
  by (cases F; simp)+

lemma rnd_nonneg: "0 \<le> x \<Longrightarrow> 0 \<le> rnd F x"
  using rne_mono [of 0 "x / 2 powi qexp F x"] rne_int [of 0] by (auto simp: rnd_def)

text \<open>Powers of two above the exponent in use are fixed points of the scaled rounding.\<close>

lemma powi2_int: "k \<le> e \<Longrightarrow> (2 :: rat) powi e / 2 powi k = of_int (2 ^ nat (e - k))"
  by (simp add: power_int_diff [symmetric] power_int_nonneg_exp)

lemma rnd_mono_pos:
  assumes "0 < x" "x \<le> y"
  shows "rnd F x \<le> rnd F y"
proof -
  let ?q = "qexp F x" and ?r = "qexp F y"
  have q0: "(0 :: rat) < 2 powi ?q" "(0 :: rat) < 2 powi ?r" by simp_all
  have rx: "rnd F x = of_int (rne (x / 2 powi ?q)) * 2 powi ?q"
    and ry: "rnd F y = of_int (rne (y / 2 powi ?r)) * 2 powi ?r"
    using assms by (simp_all add: rnd_def)
  have qr: "?q \<le> ?r" using ilog2_mono [OF assms] assms by (auto simp: qexp_def)
  show ?thesis
  proof (cases "?q = ?r")
    case True
    have "rne (x / 2 powi ?q) \<le> rne (y / 2 powi ?q)"
      using assms q0 by (intro rne_mono) (simp add: divide_right_mono)
    then show ?thesis using rx ry True q0
      by (metis mult_le_cancel_right_pos of_int_le_iff)
  next
    case False
    define B where "B = (2 :: rat) powi ilog2 y"
    have yl: "B \<le> y" using ilog2_bounds(1) [of y] assms by (simp add: B_def)
    have lt: "ilog2 x < ilog2 y" using False qr assms by (auto simp: qexp_def)
    have "x < 2 powi (ilog2 x + 1)" using ilog2_bounds(2) assms by simp
    also have "\<dots> \<le> B" unfolding B_def using lt by (intro power_int_increasing) auto
    finally have xB: "x \<le> B" by simp
    have rr: "?r \<le> ilog2 y" using False qr assms fprec_pos(1) [of F] by (auto simp: qexp_def)
    then have qq: "?q \<le> ilog2 y" using qr by simp
    have "x / 2 powi ?q \<le> B / 2 powi ?q" using xB by (simp add: divide_right_mono)
    then have "rne (x / 2 powi ?q) \<le> rne (B / 2 powi ?q)" by (rule rne_mono)
    also have "B / 2 powi ?q = of_int (2 ^ nat (ilog2 y - ?q))"
      unfolding B_def by (rule powi2_int [OF qq])
    finally have "of_int (rne (x / 2 powi ?q)) \<le> B / 2 powi ?q"
      using powi2_int [OF qq] by (simp only: B_def rne_int of_int_le_iff)
    then have 1: "rnd F x \<le> B" unfolding rx using q0 by (simp add: le_divide_eq)
    have "B / 2 powi ?r \<le> y / 2 powi ?r" using yl by (simp add: divide_right_mono)
    then have "rne (B / 2 powi ?r) \<le> rne (y / 2 powi ?r)" by (rule rne_mono)
    moreover have "B / 2 powi ?r = of_int (2 ^ nat (ilog2 y - ?r))"
      unfolding B_def by (rule powi2_int [OF rr])
    ultimately have "B / 2 powi ?r \<le> of_int (rne (y / 2 powi ?r))"
      by (simp only: rne_int of_int_le_iff)
    then have 2: "B \<le> rnd F y" unfolding ry using q0 by (simp add: divide_le_eq)
    from 1 2 show ?thesis by simp
  qed
qed

lemma rnd_mono: "x \<le> y \<Longrightarrow> rnd F x \<le> rnd F y"
proof -
  assume xy: "x \<le> y"
  consider "0 < x" | "y < 0" | "x \<le> 0" "0 \<le> y" by linarith
  then show ?thesis
  proof cases
    case 1
    then show ?thesis using rnd_mono_pos xy by simp
  next
    case 2
    then have "rnd F (- y) \<le> rnd F (- x)" using rnd_mono_pos [of "- y" "- x" F] xy by simp
    then show ?thesis by simp
  next
    case 3
    then show ?thesis using rnd_nonneg [of y F] rnd_nonneg [of "- x" F] by simp
  qed
qed

lemma rnd_int: 
  assumes "\<bar>n\<bar> \<le> 2 ^ fprec F"
  shows "rnd F (of_int n) = of_int n"
proof (cases "n = 0")
  case False
  let ?x = "of_int n :: rat"
  have x1: "1 \<le> \<bar>?x\<bar>" using False by (simp flip: of_int_abs)
  have "2 powi ilog2 \<bar>?x\<bar> \<le> \<bar>?x\<bar>" using ilog2_bounds(1) [of "\<bar>?x\<bar>"] x1 by simp
  also have "\<dots> \<le> of_int (2 ^ fprec F)" using assms by (simp flip: of_int_abs only: of_int_le_iff)
  also have "\<dots> < 2 powi (int (fprec F) + 1)" by (simp add: power_int_add_1)
  finally have l: "ilog2 \<bar>?x\<bar> \<le> int (fprec F)" by (simp add: powi2_less_iff)
  have q: "qexp F ?x \<le> 1" using l fprec_pos(2) [of F] by (auto simp: qexp_def)
  obtain k where k: "?x / 2 powi qexp F ?x = of_int k"
  proof (cases "qexp F ?x \<le> 0")
    case True
    have "?x / 2 powi qexp F ?x = ?x * (2 powi 0 / 2 powi qexp F ?x)" by simp
    also have "\<dots> = of_int (n * 2 ^ nat (0 - qexp F ?x))" using powi2_int [OF True] by simp
    finally show ?thesis by (rule that)
  next
    case f: False
    then have q1: "qexp F ?x = 1" using q by simp
    then have "ilog2 \<bar>?x\<bar> = int (fprec F)" using l fprec_pos(2) [of F] by (auto simp: qexp_def max_def split: if_splits)
    then have "of_int (2 ^ fprec F) \<le> \<bar>?x\<bar>" using ilog2_bounds(1) [of "\<bar>?x\<bar>"] x1 by simp
    then have "2 ^ fprec F \<le> \<bar>n\<bar>" by (simp flip: of_int_abs only: of_int_le_iff)
    with assms have "\<bar>n\<bar> = 2 ^ fprec F" by simp
    then have "even \<bar>n\<bar>" using fprec_pos(1) [of F] by simp
    then have "even n" by simp
    then obtain m where "n = 2 * m" by blast
    then show ?thesis using that [of m] q1 by simp
  qed
  then have "of_int k * 2 powi qexp F ?x = ?x" by (simp add: divide_eq_eq)
  then show ?thesis using False k by (simp add: rnd_def)
qed simp

lemma rnd_le_int: "\<bar>n\<bar> \<le> 2 ^ fprec F \<Longrightarrow> x \<le> of_int n \<Longrightarrow> rnd F x \<le> of_int n"
  using rnd_mono [of x "of_int n" F] by (simp add: rnd_int)

lemma rnd_ge_int: "\<bar>n\<bar> \<le> 2 ^ fprec F \<Longrightarrow> of_int n \<le> x \<Longrightarrow> of_int n \<le> rnd F x"
  using rnd_mono [of "of_int n" x F] by (simp add: rnd_int)

text \<open>Relative error of one rounding in the normal range, absolute error below it.\<close>

lemma rnd_err: "\<bar>rnd F x - x\<bar> \<le> 2 powi qexp F x / 2"
proof (cases "x = 0")
  case False
  let ?p = "2 powi qexp F x :: rat"
  have p: "0 < ?p" by simp
  have "rnd F x - x = (of_int (rne (x / ?p)) - x / ?p) * ?p"
    using False p by (simp add: rnd_def left_diff_distrib)
  then have "\<bar>rnd F x - x\<bar> = \<bar>of_int (rne (x / ?p)) - x / ?p\<bar> * ?p"
    using p by (simp add: abs_mult)
  also have "\<dots> \<le> 1 / 2 * ?p" using rne_err p by (intro mult_right_mono) auto
  finally show ?thesis by simp
qed simp


subsection \<open>Values and operations\<close>

datatype fp = NaN | PInf | NInf | Fin rat

definition fround :: "fmt \<Rightarrow> rat \<Rightarrow> fp" where
  "fround F x = (let r = rnd F x in
     if r \<noteq> 0 \<and> femax F < ilog2 \<bar>r\<bar> then (if r < 0 then NInf else PInf) else Fin r)"

fun fadd :: "fmt \<Rightarrow> fp \<Rightarrow> fp \<Rightarrow> fp" where
  "fadd F (Fin a) (Fin b) = fround F (a + b)"
| "fadd F NaN b = NaN"
| "fadd F a NaN = NaN"
| "fadd F PInf NInf = NaN"
| "fadd F NInf PInf = NaN"
| "fadd F PInf b = PInf"
| "fadd F NInf b = NInf"
| "fadd F a PInf = PInf"
| "fadd F a NInf = NInf"

fun fneg :: "fp \<Rightarrow> fp" where
  "fneg NaN = NaN"
| "fneg PInf = NInf"
| "fneg NInf = PInf"
| "fneg (Fin a) = Fin (- a)"

definition fsub :: "fmt \<Rightarrow> fp \<Rightarrow> fp \<Rightarrow> fp" where
  "fsub F a b = fadd F a (fneg b)"

definition finf :: "bool \<Rightarrow> fp" where
  "finf neg = (if neg then NInf else PInf)"

fun fmul :: "fmt \<Rightarrow> fp \<Rightarrow> fp \<Rightarrow> fp" where
  "fmul F (Fin a) (Fin b) = fround F (a * b)"
| "fmul F NaN b = NaN"
| "fmul F a NaN = NaN"
| "fmul F (Fin a) PInf = (if a = 0 then NaN else finf (a < 0))"
| "fmul F (Fin a) NInf = (if a = 0 then NaN else finf (0 < a))"
| "fmul F PInf (Fin b) = (if b = 0 then NaN else finf (b < 0))"
| "fmul F NInf (Fin b) = (if b = 0 then NaN else finf (0 < b))"
| "fmul F PInf PInf = PInf"
| "fmul F NInf NInf = PInf"
| "fmul F PInf NInf = NInf"
| "fmul F NInf PInf = NInf"

fun fdiv :: "fmt \<Rightarrow> fp \<Rightarrow> fp \<Rightarrow> fp" where
  "fdiv F (Fin a) (Fin b) =
     (if b = 0 then (if a = 0 then NaN else finf (a < 0)) else fround F (a / b))"
| "fdiv F NaN b = NaN"
| "fdiv F a NaN = NaN"
| "fdiv F (Fin a) PInf = Fin 0"
| "fdiv F (Fin a) NInf = Fin 0"
| "fdiv F PInf (Fin b) = finf (b < 0)"
| "fdiv F NInf (Fin b) = finf (0 \<le> b)"
| "fdiv F PInf PInf = NaN"
| "fdiv F PInf NInf = NaN"
| "fdiv F NInf PInf = NaN"
| "fdiv F NInf NInf = NaN"

fun flt :: "fp \<Rightarrow> fp \<Rightarrow> bool" where
  "flt (Fin a) (Fin b) = (a < b)"
| "flt (Fin a) PInf = True"
| "flt NInf (Fin b) = True"
| "flt NInf PInf = True"
| "flt a b = False"

definition fmax :: "fp \<Rightarrow> fp \<Rightarrow> fp" where
  "fmax a b = (if a = NaN then b else if b = NaN then a else if flt a b then b else a)"

definition fmin :: "fp \<Rightarrow> fp \<Rightarrow> fp" where
  "fmin a b = (if a = NaN then b else if b = NaN then a else if flt b a then b else a)"

definition fclamp :: "fp \<Rightarrow> fp \<Rightarrow> fp \<Rightarrow> fp" where
  "fclamp v lo hi = (if flt v lo then lo else if flt hi v then hi else v)"

fun fabs :: "fp \<Rightarrow> fp" where
  "fabs NaN = NaN"
| "fabs (Fin a) = Fin \<bar>a\<bar>"
| "fabs _ = PInf"

definition rha :: "rat \<Rightarrow> int" where
  "rha x = (if 0 \<le> x then \<lfloor>x + 1 / 2\<rfloor> else - \<lfloor>1 / 2 - x\<rfloor>)"

fun frnd :: "fp \<Rightarrow> fp" where
  "frnd (Fin a) = Fin (of_int (rha a))"
| "frnd a = a"

fun fceil :: "fp \<Rightarrow> fp" where
  "fceil (Fin a) = Fin (of_int \<lceil>a\<rceil>)"
| "fceil a = a"

definition ftrunc :: "rat \<Rightarrow> int" where
  "ftrunc x = (if 0 \<le> x then \<lfloor>x\<rfloor> else \<lceil>x\<rceil>)"

fun f2int :: "int \<Rightarrow> int \<Rightarrow> fp \<Rightarrow> int" where
  "f2int lo hi NaN = 0"
| "f2int lo hi PInf = hi"
| "f2int lo hi NInf = lo"
| "f2int lo hi (Fin a) = max lo (min hi (ftrunc a))"

definition f2nat :: "nat \<Rightarrow> fp \<Rightarrow> nat" where
  "f2nat w v = nat (f2int 0 (2 ^ w - 1) v)"

definition fof_int :: "fmt \<Rightarrow> int \<Rightarrow> fp" where
  "fof_int F n = fround F (of_int n)"


subsection \<open>Evaluation on numerals\<close>

lemma bitlen_numeral:
  "bitlen 1 = 1"
  "bitlen (numeral num.One) = 1"
  "bitlen (numeral (num.Bit0 n)) = bitlen (numeral n) + 1"
  "bitlen (numeral (num.Bit1 n)) = bitlen (numeral n) + 1"
  by (simp_all add: compute_bitlen [of "numeral _"] compute_bitlen [of 1])

lemma rat_floor_numeral:
  "\<lfloor>(numeral a :: rat) / numeral b\<rfloor> = numeral a div numeral b"
  "\<lfloor>- ((numeral a :: rat) / numeral b)\<rfloor> = - numeral a div numeral b"
  "\<lfloor>(1 :: rat) / numeral b\<rfloor> = 1 div numeral b"
  "\<lfloor>- ((1 :: rat) / numeral b)\<rfloor> = - 1 div numeral b"
  using floor_divide_of_int_eq [of "numeral a" "numeral b", where ?'a = rat]
    floor_divide_of_int_eq [of "- numeral a" "numeral b", where ?'a = rat]
    floor_divide_of_int_eq [of "1" "numeral b", where ?'a = rat]
    floor_divide_of_int_eq [of "- 1" "numeral b", where ?'a = rat]
  by simp_all

lemma rat_ceiling_numeral:
  "\<lceil>(numeral a :: rat) / numeral b\<rceil> = - (- numeral a div numeral b)"
  "\<lceil>(1 :: rat) / numeral b\<rceil> = - (- 1 div numeral b)"
  "\<lceil>- ((numeral a :: rat) / numeral b)\<rceil> = - (numeral a div numeral b)"
  "\<lceil>- ((1 :: rat) / numeral b)\<rceil> = - (1 div numeral b)"
  by (simp_all add: ceiling_def rat_floor_numeral)

lemmas fp_eval = fround_def rnd_def qexp_def ilog2_def rne_def Let_def bitlen_numeral
  rat_floor_numeral rat_ceiling_numeral fclamp_def f2nat_def rha_def ftrunc_def fof_int_def
  fsub_def finf_def fmax_def fmin_def

subsection \<open>Ranges\<close>

lemma rnd_abs_le_int:
  assumes "\<bar>n\<bar> \<le> 2 ^ fprec F" "\<bar>x\<bar> \<le> of_int n"
  shows "\<bar>rnd F x\<bar> \<le> of_int n"
proof -
  have "x \<le> of_int n" "- x \<le> of_int n" using assms by linarith+
  then have "rnd F x \<le> of_int n" "rnd F (- x) \<le> of_int n"
    using rnd_le_int [OF assms(1)] by blast+
  then show ?thesis by simp
qed

lemma fround_Fin:
  assumes "\<bar>n\<bar> \<le> 2 ^ fprec F" "\<bar>x\<bar> \<le> of_int n"
  shows "fround F x = Fin (rnd F x)"
proof (cases "rnd F x = 0")
  case False
  have "2 powi ilog2 \<bar>rnd F x\<bar> \<le> \<bar>rnd F x\<bar>" using ilog2_bounds(1) [of "\<bar>rnd F x\<bar>"] False by simp
  also have "\<dots> \<le> of_int n" by (rule rnd_abs_le_int [OF assms])
  also have "\<dots> \<le> of_int (2 ^ fprec F)" using assms(1) by (simp only: of_int_le_iff)
  also have "\<dots> < (2 :: rat) powi (int (fprec F) + 1)" by (simp add: power_int_add_1)
  finally have "ilog2 \<bar>rnd F x\<bar> \<le> int (fprec F)" by (simp add: powi2_less_iff)
  moreover have "int (fprec F) \<le> femax F" by (cases F) simp_all
  ultimately show ?thesis by (simp add: fround_def)
qed (simp add: fround_def)

lemma fround_int:
  assumes "\<bar>n\<bar> \<le> 2 ^ fprec F"
  shows "fround F (of_int n) = Fin (of_int n)"
proof -
  have "fround F (of_int n) = Fin (rnd F (of_int n))"
    using assms by (intro fround_Fin [of "\<bar>n\<bar>"]) (simp_all flip: of_int_abs)
  then show ?thesis by (simp add: rnd_int assms)
qed

lemma fof_int_exact: "\<bar>n\<bar> \<le> 2 ^ fprec F \<Longrightarrow> fof_int F n = Fin (of_int n)"
  by (simp add: fof_int_def fround_int)

lemma rha_mono: "x \<le> y \<Longrightarrow> rha x \<le> rha y"
proof -
  assume xy: "x \<le> y"
  consider "0 \<le> x" | "x < 0" "0 \<le> y" | "y < 0" using xy by linarith
  then show ?thesis
  proof cases
    case 1
    then have "\<lfloor>x + 1 / 2\<rfloor> \<le> \<lfloor>y + 1 / 2\<rfloor>" using xy by (intro floor_mono) simp
    then show ?thesis using 1 xy by (simp add: rha_def)
  next
    case 2
    then have "0 \<le> \<lfloor>1 / 2 - x\<rfloor>" "0 \<le> \<lfloor>y + 1 / 2\<rfloor>" by simp_all
    then have "rha x \<le> 0" "0 \<le> rha y" using 2 by (simp_all add: rha_def)
    then show ?thesis by linarith
  next
    case 3
    then have "\<lfloor>1 / 2 - y\<rfloor> \<le> \<lfloor>1 / 2 - x\<rfloor>" using xy by (intro floor_mono) simp
    then show ?thesis using 3 xy by (simp add: rha_def)
  qed
qed

lemma rha_int [simp]: "rha (of_int n) = n"
proof -
  have "\<lfloor>of_int n + 1 / 2 :: rat\<rfloor> = n" "\<lfloor>1 / 2 - of_int n :: rat\<rfloor> = - n"
    by (simp_all add: floor_eq_iff)
  then show ?thesis by (simp add: rha_def)
qed

lemma rha_minus: "rha (- x) = - rha x"
proof -
  have h: "\<lfloor>1 / 2 :: rat\<rfloor> = 0" by (simp add: floor_eq_iff)
  consider "x = 0" | "0 < x" | "x < 0" by linarith
  then show ?thesis by cases (simp_all add: rha_def h add.commute)
qed

lemma rha_err: "\<bar>of_int (rha x) - x\<bar> \<le> 1 / 2"
proof (cases "0 \<le> x")
  case True
  then have "rha x = \<lfloor>x + 1 / 2\<rfloor>" by (simp add: rha_def)
  then show ?thesis using floor_correct [of "x + 1 / 2"] unfolding abs_le_iff by linarith
next
  case False
  then have "of_int (rha x) = - (of_int \<lfloor>1 / 2 - x\<rfloor> :: rat)" by (simp add: rha_def)
  then show ?thesis using floor_correct [of "1 / 2 - x"] unfolding abs_le_iff by linarith
qed

lemma rha_le_int: "x \<le> of_int n \<Longrightarrow> rha x \<le> n"
  using rha_mono [of x "of_int n"] by simp

lemma rha_ge_int: "of_int n \<le> x \<Longrightarrow> n \<le> rha x"
  using rha_mono [of "of_int n" x] by simp

lemma ftrunc_int [simp]: "ftrunc (of_int n) = n"
  by (simp add: ftrunc_def)

lemma ftrunc_mono: "x \<le> y \<Longrightarrow> ftrunc x \<le> ftrunc y"
proof -
  assume xy: "x \<le> y"
  consider "0 \<le> x" | "x < 0" "0 \<le> y" | "y < 0" using xy by linarith
  then show ?thesis
  proof cases
    case 1
    then show ?thesis using xy floor_mono [OF xy] by (simp add: ftrunc_def)
  next
    case 2
    then have "\<lceil>x\<rceil> \<le> 0" "0 \<le> \<lfloor>y\<rfloor>" by (simp_all add: ceiling_le_iff)
    then have "ftrunc x \<le> 0" "0 \<le> ftrunc y" using 2 by (simp_all add: ftrunc_def)
    then show ?thesis by linarith
  next
    case 3
    then show ?thesis using xy ceiling_mono [OF xy] by (simp add: ftrunc_def)
  qed
qed

lemma f2int_bounds: "lo \<le> 0 \<Longrightarrow> 0 \<le> hi \<Longrightarrow> lo \<le> f2int lo hi v \<and> f2int lo hi v \<le> hi"
  by (cases v) auto

lemma f2nat_le [simp]: "f2nat w v \<le> umax w"
proof -
  have "f2int 0 (2 ^ w - 1) v \<le> 2 ^ w - 1" using f2int_bounds [of 0 "2 ^ w - 1" v] by simp
  then have "f2nat w v \<le> nat (2 ^ w - 1)" by (simp add: f2nat_def)
  then show ?thesis by (simp add: umax_def nat_diff_distrib nat_power_eq)
qed

lemma fclamp_cases:
  assumes "lo \<le> hi"
  obtains (NaN) "v = NaN" "fclamp v (Fin lo) (Fin hi) = NaN"
  | (Fin) c where "lo \<le> c" "c \<le> hi" "fclamp v (Fin lo) (Fin hi) = Fin c"
proof (cases v)
  case NaN
  then show ?thesis using that(1) by (simp add: fclamp_def)
next
  case PInf
  then show ?thesis using that(2) [of hi] assms by (simp add: fclamp_def)
next
  case NInf
  then show ?thesis using that(2) [of lo] assms by (simp add: fclamp_def)
next
  case (Fin x)
  then show ?thesis
    using that(2) [of "if x < lo then lo else if hi < x then hi else x"] assms
    by (auto simp: fclamp_def split: if_splits)
qed

end
