(* ===== verification/Time_Model.thy ===== *)
theory Time_Model
  imports Float_Model
begin

text \<open>
  \<open>std::time\<close> as the source uses it. A \<open>Duration\<close> is a number of nanoseconds, an \<open>Instant\<close> a
  number of nanoseconds on a monotonic clock; \<open>saturating_duration_since\<close> is subtraction on
  \<^typ>\<open>nat\<close>. The conversions to and from \<open>f64\<close> seconds round as the standard library does.
  \<open>points_in\<close> is the expression \<open>(elapsed.as_secs_f64() * pps as f64) as uN\<close> that every buffer
  estimator of the source contains; it is monotone in both arguments and within one point of the
  exact value.
\<close>

type_synonym duration = nat
type_synonym instant = nat

definition nanos_per_sec :: nat where
  "nanos_per_sec = 1000000000"

definition as_secs_f64 :: "duration \<Rightarrow> fp" where
  "as_secs_f64 d = fadd F64 (fof_int F64 (int (d div nanos_per_sec)))
     (fdiv F64 (fof_int F64 (int (d mod nanos_per_sec))) (Fin 1000000000))"

text \<open>\<open>Duration::from_secs_f64\<close>; \<open>None\<close> is its panic (negative, not finite, too large).\<close>

fun from_secs_f64 :: "fp \<Rightarrow> duration option" where
  "from_secs_f64 (Fin x) =
     (let n = rne (x * 1000000000) in
      if x < 0 \<or> 2 ^ 64 * 1000000000 \<le> n then None else Some (nat n))"
| "from_secs_f64 _ = None"

definition points_in :: "nat \<Rightarrow> duration \<Rightarrow> nat \<Rightarrow> nat" where
  "points_in w d pps = f2nat w (fmul F64 (as_secs_f64 d) (fof_int F64 (int pps)))"

subsection \<open>Relative error of a rounding\<close>

lemma rnd_rel:
  assumes "2 powi (femin F + int (fprec F) - 1) \<le> \<bar>x\<bar>"
  shows "\<bar>rnd F x - x\<bar> \<le> \<bar>x\<bar> / 2 ^ fprec F"
proof -
  have x0: "0 < \<bar>x\<bar>" using assms less_le_trans [of 0 "2 powi _" "\<bar>x\<bar>"] by fastforce
  have "(2 :: rat) powi (femin F + int (fprec F) - 1) < 2 powi (ilog2 \<bar>x\<bar> + 1)"
    using assms ilog2_bounds(2) [OF x0] by linarith
  then have "femin F + int (fprec F) - 1 \<le> ilog2 \<bar>x\<bar>" by (simp add: powi2_less_iff)
  then have q: "qexp F x = ilog2 \<bar>x\<bar> - int (fprec F) + 1" by (simp add: qexp_def)
  have "(2 :: rat) powi qexp F x = 2 powi ilog2 \<bar>x\<bar> / 2 ^ fprec F * 2"
    unfolding q by (simp add: power_int_add_1 power_int_diff)
  then have "\<bar>rnd F x - x\<bar> \<le> 2 powi ilog2 \<bar>x\<bar> / 2 ^ fprec F" using rnd_err [of F x] by simp
  also have "\<dots> \<le> \<bar>x\<bar> / 2 ^ fprec F" using ilog2_bounds(1) [OF x0] by (simp add: divide_right_mono)
  finally show ?thesis .
qed

subsection \<open>Seconds\<close>

definition secs_rat :: "duration \<Rightarrow> rat" where
  "secs_rat d = rnd F64 (of_nat (d div nanos_per_sec) +
     rnd F64 (of_nat (d mod nanos_per_sec) / 1000000000))"

lemma subsec_bounds:
  "0 \<le> rnd F64 (of_nat (d mod nanos_per_sec) / 1000000000)"
  "rnd F64 (of_nat (d mod nanos_per_sec) / 1000000000) \<le> 1"
proof -
  have "d mod nanos_per_sec < nanos_per_sec" by (simp add: nanos_per_sec_def)
  then have "of_nat (d mod nanos_per_sec) < (of_nat nanos_per_sec :: rat)" by (simp only: of_nat_less_iff)
  then have "of_nat (d mod nanos_per_sec) / 1000000000 \<le> (of_int 1 :: rat)"
    by (simp add: nanos_per_sec_def)
  then show "rnd F64 (of_nat (d mod nanos_per_sec) / 1000000000) \<le> 1"
    using rnd_le_int [of 1 F64] by fastforce
  show "0 \<le> rnd F64 (of_nat (d mod nanos_per_sec) / 1000000000)" by (intro rnd_nonneg) simp
qed

lemma secs_rat_bounds:
  assumes "d div nanos_per_sec < 2 ^ 53"
  shows "of_nat (d div nanos_per_sec) \<le> secs_rat d" "secs_rat d \<le> of_nat (d div nanos_per_sec + 1)"
proof -
  let ?s = "d div nanos_per_sec" and ?q = "rnd F64 (of_nat (d mod nanos_per_sec) / 1000000000)"
  have i: "\<bar>int ?s\<bar> \<le> 2 ^ fprec F64" "\<bar>int (?s + 1)\<bar> \<le> 2 ^ fprec F64" using assms by simp_all
  have "of_int (int ?s) \<le> of_nat ?s + ?q" "of_nat ?s + ?q \<le> of_int (int (?s + 1))"
    using subsec_bounds [of d] by simp_all
  then show "of_nat ?s \<le> secs_rat d" "secs_rat d \<le> of_nat (?s + 1)"
    unfolding secs_rat_def using rnd_ge_int [OF i(1)] rnd_le_int [OF i(2)] by fastforce+
qed

lemma as_secs_f64_Fin:
  assumes "d div nanos_per_sec < 2 ^ 53"
  shows "as_secs_f64 d = Fin (secs_rat d)"
proof -
  let ?s = "d div nanos_per_sec" and ?n = "d mod nanos_per_sec"
  have n: "?n < 1000000000" by (simp add: nanos_per_sec_def)
  have s: "fof_int F64 (int ?s) = Fin (of_nat ?s)" using assms by (subst fof_int_exact) simp_all
  have m: "fof_int F64 (int ?n) = Fin (of_nat ?n)" using n by (subst fof_int_exact) simp_all
  have r: "(of_nat ?n :: rat) < 1000000000" using n by (metis of_nat_less_iff of_nat_numeral)
  have q: "fround F64 (of_nat ?n / 1000000000) = Fin (rnd F64 (of_nat ?n / 1000000000))"
    using r by (intro fround_Fin [of 1]) (simp_all add: abs_if)
  have "of_nat ?s + rnd F64 (of_nat ?n / 1000000000) \<le> of_int (int (?s + 1))"
    "0 \<le> of_nat ?s + rnd F64 (of_nat ?n / 1000000000)"
    using subsec_bounds [of d] by simp_all
  then have "fround F64 (of_nat ?s + rnd F64 (of_nat ?n / 1000000000)) = Fin (secs_rat d)"
    unfolding secs_rat_def using assms by (intro fround_Fin [of "int (?s + 1)"]) simp_all
  then show ?thesis by (simp add: as_secs_f64_def s m q)
qed

lemma secs_rat_mono:
  assumes "d \<le> e" "e div nanos_per_sec < 2 ^ 53"
  shows "secs_rat d \<le> secs_rat e"
proof (cases "d div nanos_per_sec = e div nanos_per_sec")
  case True
  then have "d mod nanos_per_sec \<le> e mod nanos_per_sec"
    using assms(1) by (metis add_le_cancel_left div_mult_mod_eq)
  then have "of_nat (d mod nanos_per_sec) / 1000000000 \<le> (of_nat (e mod nanos_per_sec) / 1000000000 :: rat)"
    by (simp add: divide_right_mono)
  then show ?thesis unfolding secs_rat_def True by (intro rnd_mono add_left_mono)
next
  case False
  have le: "d div nanos_per_sec \<le> e div nanos_per_sec" by (rule div_le_mono [OF assms(1)])
  with False have lt: "d div nanos_per_sec + 1 \<le> e div nanos_per_sec" by simp
  have "secs_rat d \<le> of_nat (d div nanos_per_sec + 1)" using secs_rat_bounds(2) le assms(2) by simp
  also have "\<dots> \<le> of_nat (e div nanos_per_sec)" using lt by (simp only: of_nat_le_iff)
  also have "\<dots> \<le> secs_rat e" by (rule secs_rat_bounds(1) [OF assms(2)])
  finally show ?thesis .
qed

subsection \<open>Points played in a time\<close>

lemma rnd_pow2: "rnd F (2 ^ k) = 2 ^ k"
proof -
  let ?x = "2 ^ k :: rat"
  have l: "ilog2 \<bar>?x\<bar> \<le> int k"
    using ilog2_bounds(1) [of ?x] powi2_less_iff [of "int k" "ilog2 ?x"] by (simp add: not_less [symmetric])
  have q: "qexp F ?x \<le> int k" using l fprec_pos [of F] by (auto simp: qexp_def)
  define m :: int where "m = 2 ^ nat (int k - qexp F ?x)"
  have e: "?x / 2 powi qexp F ?x = of_int m" unfolding m_def using powi2_int [OF q] by simp
  then have "of_int m * 2 powi qexp F ?x = ?x" by (simp add: divide_eq_eq)
  then show ?thesis by (simp add: rnd_def e)
qed

lemma fround_Fin_pow2:
  assumes "\<bar>x\<bar> \<le> 2 ^ k" "int k \<le> femax F"
  shows "fround F x = Fin (rnd F x)"
proof (cases "rnd F x = 0")
  case False
  have "x \<le> 2 ^ k" "- x \<le> 2 ^ k" using assms(1) by linarith+
  then have "rnd F x \<le> 2 ^ k" "rnd F (- x) \<le> 2 ^ k" using rnd_mono rnd_pow2 by metis+
  then have "\<bar>rnd F x\<bar> \<le> 2 ^ k" by simp
  then have "(2 :: rat) powi ilog2 \<bar>rnd F x\<bar> \<le> 2 powi int k"
    using ilog2_bounds(1) [of "\<bar>rnd F x\<bar>"] False by simp
  then have "\<not> int k < ilog2 \<bar>rnd F x\<bar>" using powi2_less_iff [of "int k" "ilog2 \<bar>rnd F x\<bar>"] by linarith
  then show ?thesis using assms(2) by (simp add: fround_def)
qed (simp add: fround_def)

lemma secs_rat_nonneg: "0 \<le> secs_rat d"
  unfolding secs_rat_def using subsec_bounds(1) by (intro rnd_nonneg add_nonneg_nonneg) simp_all

text \<open>The value before the final cast, and the cast.\<close>

lemma points_in_eq:
  assumes "d div nanos_per_sec < 2 ^ 53" "pps < 2 ^ 32"
  shows "points_in w d pps = nat (min (2 ^ w - 1) \<lfloor>rnd F64 (secs_rat d * of_nat pps)\<rfloor>)"
proof -
  have p: "fof_int F64 (int pps) = Fin (of_nat pps)" using assms(2) by (subst fof_int_exact) simp_all
  have "(of_nat pps :: rat) \<le> of_nat (2 ^ 32)" using assms(2) by (simp only: of_nat_le_iff less_imp_le)
  then have pr: "(of_nat pps :: rat) \<le> 2 ^ 32" by simp
  have "d div nanos_per_sec + 1 \<le> 2 ^ 53" using assms(1) by simp
  then have "(of_nat (d div nanos_per_sec + 1) :: rat) \<le> of_nat (2 ^ 53)" by (simp only: of_nat_le_iff)
  then have "secs_rat d \<le> 2 ^ 53" using secs_rat_bounds(2) [OF assms(1)] by simp
  then have "secs_rat d * of_nat pps \<le> 2 ^ 53 * 2 ^ 32"
    using pr by (rule mult_mono) simp_all
  then have b: "\<bar>secs_rat d * of_nat pps\<bar> \<le> 2 ^ 85" using secs_rat_nonneg [of d] by (simp add: abs_mult)
  have "fmul F64 (as_secs_f64 d) (fof_int F64 (int pps)) = Fin (rnd F64 (secs_rat d * of_nat pps))"
    using fround_Fin_pow2 [OF b, of F64] by (simp add: as_secs_f64_Fin [OF assms(1)] p)
  moreover have "0 \<le> rnd F64 (secs_rat d * of_nat pps)" using secs_rat_nonneg by (intro rnd_nonneg) simp
  ultimately show ?thesis by (simp add: points_in_def f2nat_def ftrunc_def max_def)
qed

lemma points_in_mono:
  assumes "d \<le> e" "p \<le> q" "e div nanos_per_sec < 2 ^ 53" "q < 2 ^ 32"
  shows "points_in w d p \<le> points_in w e q"
proof -
  have d: "d div nanos_per_sec < 2 ^ 53" using assms(1,3) div_le_mono le_less_trans by blast
  have "secs_rat d * of_nat p \<le> secs_rat e * of_nat q"
    using secs_rat_mono [OF assms(1,3)] assms(2) secs_rat_nonneg by (intro mult_mono) simp_all
  then have "\<lfloor>rnd F64 (secs_rat d * of_nat p)\<rfloor> \<le> \<lfloor>rnd F64 (secs_rat e * of_nat q)\<rfloor>"
    by (intro floor_mono rnd_mono)
  then show ?thesis using assms(2,4) by (simp add: points_in_eq [OF d] points_in_eq [OF assms(3)])
qed

lemma points_in_0 [simp]: "points_in w 0 pps = 0"
proof -
  have "as_secs_f64 0 = Fin 0" by (simp add: as_secs_f64_def fof_int_def fround_def)
  moreover have "fmul F64 (Fin 0) v \<in> {NaN, Fin 0}" for v
    by (cases v) (auto simp: fround_def)
  ultimately have "fmul F64 (as_secs_f64 0) (fof_int F64 (int pps)) \<in> {NaN, Fin 0}" by simp
  then show ?thesis by (auto simp: points_in_def f2nat_def ftrunc_def)
qed

lemma points_in_le [simp]: "points_in w d pps \<le> umax w"
  by (simp add: points_in_def)

subsection \<open>Accuracy\<close>

lemma rnd64_rel:
  assumes "x = 0 \<or> 1 / 1000000000 \<le> x"
  shows "\<bar>rnd F64 x - x\<bar> \<le> x / 2 ^ 53"
proof (cases "x = 0")
  case False
  then have x: "1 / 1000000000 \<le> x" using assms by simp
  have "(2 :: rat) powi (- 1022) \<le> 2 powi (- 30)" by (rule power_int_increasing) simp_all
  also have "\<dots> \<le> 1 / 1000000000" by simp
  finally have "2 powi (femin F64 + int (fprec F64) - 1) \<le> \<bar>x\<bar>" using x by simp
  then show ?thesis using rnd_rel [of F64 x] x by simp
qed simp

lemma nat_div_ge: "0 < (n :: nat) \<Longrightarrow> 1 / 1000000000 \<le> (of_nat n / 1000000000 :: rat)"
proof -
  assume "0 < n"
  then have "(1 :: rat) \<le> of_nat n" by (metis Suc_leI of_nat_1 of_nat_le_iff One_nat_def)
  then show ?thesis by simp
qed

lemma rel_err_le:
  fixes q m :: rat
  assumes "\<bar>q - m\<bar> \<le> m / 2 ^ 53" "0 \<le> m"
  shows "q \<le> 2 * m"
proof -
  have "m / 2 ^ 53 \<le> m" using assms(2) by simp
  then show ?thesis using assms by linarith
qed

lemma rnd64_ns: "1 / 1000000000 \<le> rnd F64 (1 / 1000000000)"
  by (simp add: rnd_def qexp_def ilog2_def rne_def bitlen_numeral rat_floor_numeral)

lemma secs_rat_ge: "0 < d \<Longrightarrow> 1 / 1000000000 \<le> secs_rat d"
proof (cases "d < nanos_per_sec")
  case True
  assume "0 < d"
  then have "rnd F64 (1 / 1000000000) \<le> rnd F64 (of_nat d / 1000000000)"
    by (intro rnd_mono nat_div_ge)
  then have A: "1 / 1000000000 \<le> rnd F64 (of_nat d / 1000000000)" using rnd64_ns by linarith
  then have "rnd F64 (1 / 1000000000) \<le> rnd F64 (rnd F64 (of_nat d / 1000000000))" by (rule rnd_mono)
  then show ?thesis using True rnd64_ns by (simp add: secs_rat_def)
next
  case False
  then have "0 < d div nanos_per_sec" by (simp add: nanos_per_sec_def div_greater_zero_iff)
  then have "(1 :: rat) \<le> of_nat (d div nanos_per_sec)" by (cases "d div nanos_per_sec") simp_all
  moreover have "0 \<le> rnd F64 (of_nat (d mod nanos_per_sec) / 1000000000)" by (simp add: rnd_nonneg)
  ultimately have "1 / 1000000000 \<le> of_nat (d div nanos_per_sec) + rnd F64 (of_nat (d mod nanos_per_sec) / 1000000000)"
    by simp
  from rnd_mono [OF this, of F64] rnd64_ns show ?thesis unfolding secs_rat_def by linarith
qed

lemma secs_rat_err: "\<bar>secs_rat d - of_nat d / 1000000000\<bar> \<le> of_nat d / 1000000000 * (3 / 2 ^ 53)"
proof -
  define s :: rat where "s = of_nat (d div nanos_per_sec)"
  define m :: rat where "m = of_nat (d mod nanos_per_sec) / 1000000000"
  define q where "q = rnd F64 m"
  have "(of_nat d :: rat) = of_nat (d div nanos_per_sec * nanos_per_sec + d mod nanos_per_sec)"
    by (simp only: div_mult_mod_eq)
  also have "\<dots> = s * 1000000000 + of_nat (d mod nanos_per_sec)"
    unfolding of_nat_add of_nat_mult s_def by (simp add: nanos_per_sec_def)
  finally have T: "of_nat d / 1000000000 = s + m" by (simp add: m_def add_divide_distrib)
  have s0: "s = 0 \<or> 1 \<le> s" unfolding s_def by (cases "d div nanos_per_sec") simp_all
  have m0: "m = 0 \<or> 1 / 1000000000 \<le> m" unfolding m_def by (cases "d mod nanos_per_sec = 0") (auto intro: nat_div_ge)
  have mn: "0 \<le> m" and sn: "0 \<le> s" by (simp_all add: m_def s_def)
  have qe: "\<bar>q - m\<bar> \<le> m / 2 ^ 53" unfolding q_def using m0 by (rule rnd64_rel)
  have q0: "q = 0 \<or> 1 / 1000000000 \<le> q"
  proof (cases "m = 0")
    case False
    then have "rnd F64 (1 / 1000000000) \<le> q" unfolding q_def using m0 by (intro rnd_mono) simp
    then show ?thesis using rnd64_ns by linarith
  qed (simp add: q_def)
  have sq: "s + q = 0 \<or> 1 / 1000000000 \<le> s + q" using s0 q0 sn by auto
  have "\<bar>secs_rat d - (s + q)\<bar> \<le> (s + q) / 2 ^ 53"
    using rnd64_rel [OF sq] unfolding secs_rat_def s_def q_def m_def .
  moreover have "q \<le> 2 * m" using qe mn by (rule rel_err_le)
  ultimately have "\<bar>secs_rat d - (s + q)\<bar> \<le> (s + 2 * m) / 2 ^ 53" by (simp add: field_simps)
  then have "\<bar>secs_rat d - (s + m)\<bar> \<le> (s + 2 * m) / 2 ^ 53 + m / 2 ^ 53"
    using qe by linarith
  also have "\<dots> \<le> (s + m) * (3 / 2 ^ 53)" using mn sn by (simp add: field_simps)
  finally show ?thesis unfolding T .
qed

text \<open>
  The number of points the source computes for an elapsed time differs from the exact
  \<open>\<lfloor>d * pps / 10^9\<rfloor>\<close> by at most one, for every count below \<open>2 ^ 50\<close>.
\<close>

lemma points_in_accurate:
  assumes "d div nanos_per_sec < 2 ^ 53" "pps < 2 ^ 32" "d * pps div nanos_per_sec < 2 ^ 50" "51 \<le> w"
  shows "points_in w d pps \<le> d * pps div nanos_per_sec + 1"
    and "d * pps div nanos_per_sec \<le> points_in w d pps + 1"
proof -
  define T :: rat where "T = of_nat d / 1000000000"
  define R where "R = T * of_nat pps"
  define u where "u = secs_rat d * of_nat pps"
  define v where "v = rnd F64 u"
  have T0: "0 \<le> T" by (simp add: T_def)
  have ue: "\<bar>u - R\<bar> \<le> R * (3 / 2 ^ 53)"
  proof -
    have "\<bar>u - R\<bar> = \<bar>secs_rat d - T\<bar> * of_nat pps"
      by (simp add: u_def R_def abs_mult flip: left_diff_distrib)
    also have "\<dots> \<le> T * (3 / 2 ^ 53) * of_nat pps"
      using secs_rat_err [of d] by (intro mult_right_mono) (simp_all add: T_def)
    finally show ?thesis by (simp add: R_def)
  qed
  have u0: "u = 0 \<or> 1 / 1000000000 \<le> u" "0 \<le> u"
  proof -
    show "0 \<le> u" by (simp add: u_def secs_rat_nonneg)
    show "u = 0 \<or> 1 / 1000000000 \<le> u"
    proof (cases "d = 0 \<or> pps = 0")
      case True
      then show ?thesis by (auto simp: u_def secs_rat_def)
    next
      case False
      then have one: "1 / 1000000000 \<le> secs_rat d"
        by (intro secs_rat_ge) simp
      have "(1 :: rat) \<le> of_nat pps" using False by (cases pps) simp_all
      then have "secs_rat d * 1 \<le> u" unfolding u_def using secs_rat_nonneg by (intro mult_left_mono) simp_all
      then show ?thesis using one by simp
    qed
  qed
  have ve: "\<bar>v - u\<bar> \<le> u / 2 ^ 53" unfolding v_def using u0(1) by (rule rnd64_rel)
  have R0: "0 \<le> R" using T0 by (simp add: R_def)
  have "R * (3 / 2 ^ 53) \<le> R" using R0 by simp
  then have "u \<le> 2 * R" using ue by linarith
  then have "u / 2 ^ 53 \<le> R * (2 / 2 ^ 53)" by simp
  then have "\<bar>v - R\<bar> \<le> R * (2 / 2 ^ 53) + R * (3 / 2 ^ 53)" using ve ue by linarith
  then have vR: "\<bar>v - R\<bar> \<le> R * (5 / 2 ^ 53)" by (simp add: field_simps)
  have Rfl: "\<lfloor>R\<rfloor> = int (d * pps div nanos_per_sec)"
  proof -
    have "R = of_int (int (d * pps)) / of_int (int nanos_per_sec)" by (simp add: R_def T_def nanos_per_sec_def)
    then show ?thesis by (simp only: floor_divide_of_int_eq zdiv_int)
  qed
  have "R < of_int (\<lfloor>R\<rfloor> + 1)" using floor_correct [of R] by linarith
  also have "\<dots> \<le> of_int (2 ^ 50)" unfolding Rfl using assms(3) by (simp only: of_int_le_iff) simp
  finally have "R * (5 / 2 ^ 53) \<le> 1" by simp
  then have d1: "v \<le> R + 1" "R \<le> v + 1" using vR by linarith+
  then have f: "\<lfloor>v\<rfloor> \<le> \<lfloor>R\<rfloor> + 1" "\<lfloor>R\<rfloor> \<le> \<lfloor>v\<rfloor> + 1"
    using floor_mono [OF d1(1)] floor_mono [OF d1(2)] by simp_all
  have "(2 :: int) ^ 51 \<le> 2 ^ w" using assms(4) by (intro power_increasing) simp_all
  then have "\<lfloor>v\<rfloor> \<le> 2 ^ w - 1" using f(1) assms(3) unfolding Rfl by simp
  then have p: "points_in w d pps = nat \<lfloor>v\<rfloor>" using points_in_eq [OF assms(1,2)] by (simp add: v_def u_def)
  show "points_in w d pps \<le> d * pps div nanos_per_sec + 1" using f(1) unfolding p Rfl by simp
  show "d * pps div nanos_per_sec \<le> points_in w d pps + 1" using f(2) unfolding p Rfl by simp
qed

end
