(* ===== verification/Laser_Point.thy ===== *)
theory Laser_Point
  imports Float_Model
begin

text \<open>
  \<^verbatim>\<open>src/src/point.rs\<close>: the neutral point type of the crate and the conversions to the wire
  encodings that the protocol backends share. The conversions are the \<open>f32\<close> expressions of the
  source; the lemmas bound their results, show that they are monotone (or antitone, where the
  axis is inverted) on every float including infinities, and bound the conversion error.
\<close>

record laser_point =
  lp_x :: fp
  lp_y :: fp
  lp_r :: u16
  lp_g :: u16
  lp_b :: u16
  lp_intensity :: u16

definition point_new :: "fp \<Rightarrow> fp \<Rightarrow> u16 \<Rightarrow> u16 \<Rightarrow> u16 \<Rightarrow> u16 \<Rightarrow> laser_point" where
  "point_new x y r g b i =
     \<lparr>lp_x = x, lp_y = y, lp_r = r, lp_g = g, lp_b = b, lp_intensity = i\<rparr>"

definition point_default :: laser_point where
  "point_default = point_new (Fin 0) (Fin 0) 0 0 0 0"

definition blanked :: "fp \<Rightarrow> fp \<Rightarrow> laser_point" where
  "blanked x y = point_default \<lparr>lp_x := x, lp_y := y\<rparr>"

definition coord_to_u12_inverted :: "fp \<Rightarrow> u16" where
  "coord_to_u12_inverted v = of_nat (f2nat 16 (frnd (fmul F32
     (fclamp (fsub F32 (Fin 1) (fdiv F32 (fadd F32 v (Fin 1)) (Fin 2))) (Fin 0) (Fin 1))
     (Fin 4095))))"

definition coord_to_u12 :: "fp \<Rightarrow> u16" where
  "coord_to_u12 v = of_nat (f2nat 16 (frnd (fmul F32
     (fdiv F32 (fadd F32 (fclamp v (Fin (- 1)) (Fin 1)) (Fin 1)) (Fin 2)) (Fin 4095))))"

definition coord_to_i16_inverted :: "fp \<Rightarrow> i16" where
  "coord_to_i16_inverted v = of_int (f2int (- 32768) 32767 (frnd (fmul F32
     (fclamp v (Fin (- 1)) (Fin 1)) (Fin (- 32767)))))"

definition color_to_u8 :: "u16 \<Rightarrow> u8" where
  "color_to_u8 v = ucast ((ucast v * 255 + 32767 :: u32) div 65535)"

definition color_to_u12 :: "u16 \<Rightarrow> u16" where
  "color_to_u12 v = drop_bit 4 v"

text \<open>A point whose colour channels and intensity are all zero emits no light.\<close>

definition dark :: "laser_point \<Rightarrow> bool" where
  "dark p \<longleftrightarrow> lp_r p = 0 \<and> lp_g p = 0 \<and> lp_b p = 0 \<and> lp_intensity p = 0"

definition pcolor :: "laser_point \<Rightarrow> u16 \<times> u16 \<times> u16 \<times> u16" where
  "pcolor p = (lp_r p, lp_g p, lp_b p, lp_intensity p)"

definition pxy :: "laser_point \<Rightarrow> fp \<times> fp" where
  "pxy p = (lp_x p, lp_y p)"

lemma blanked_simps [simp]:
  "lp_x (blanked x y) = x" "lp_y (blanked x y) = y"
  "lp_r (blanked x y) = 0" "lp_g (blanked x y) = 0" "lp_b (blanked x y) = 0"
  "lp_intensity (blanked x y) = 0"
  by (simp_all add: blanked_def point_default_def point_new_def)

lemma dark_blanked [simp]: "dark (blanked x y)"
  by (simp add: dark_def)

lemma dark_pcolor: "dark p \<longleftrightarrow> pcolor p = (0, 0, 0, 0)"
  by (simp add: dark_def pcolor_def)

lemma point_eqI: "pxy p = pxy q \<Longrightarrow> pcolor p = pcolor q \<Longrightarrow> p = q"
  by (simp add: pxy_def pcolor_def laser_point.equality)

subsection \<open>Colour\<close>

lemma color_to_u8_unat: "unat (color_to_u8 v) = (unat v * 255 + 32767) div 65535"
proof -
  have v: "unat v < 65536" using unsigned_less [of v] by simp
  have "unat (ucast v * 255 + 32767 :: u32) = unat v * 255 + 32767"
    using v by (simp add: unat_word_ariths unsigned_ucast_eq take_bit_eq_mod)
  then have "unat ((ucast v * 255 + 32767 :: u32) div 65535) = (unat v * 255 + 32767) div 65535"
    by (simp add: unat_div_distrib)
  then show ?thesis using v by (simp add: color_to_u8_def unsigned_ucast_eq take_bit_eq_mod)
qed

text \<open>The downscaled channel is the nearest 8-bit value of \<open>v * 255 / 65535\<close>.\<close>

lemma color_to_u8_nearest:
  "\<bar>int (unat (color_to_u8 v)) * 65535 - int (unat v) * 255\<bar> \<le> 32767"
proof -
  define n where "n = unat v * 255 + 32767"
  define k where "k = n div 65535"
  have "k * 65535 + n mod 65535 = n" unfolding k_def by (rule div_mult_mod_eq)
  moreover have "n mod 65535 < 65535" by simp
  ultimately have "k * 65535 \<le> unat v * 255 + 32767" "unat v * 255 \<le> k * 65535 + 32767"
    unfolding n_def by linarith+
  then have "int (k * 65535) \<le> int (unat v * 255 + 32767)" "int (unat v * 255) \<le> int (k * 65535 + 32767)"
    by (simp_all only: of_nat_le_iff)
  then have "\<bar>int k * 65535 - int (unat v) * 255\<bar> \<le> 32767" by (simp add: abs_le_iff)
  then show ?thesis unfolding color_to_u8_unat k_def n_def .
qed

lemma color_to_u8_mono: "v \<le> w \<Longrightarrow> color_to_u8 v \<le> color_to_u8 w"
  by (simp add: word_le_nat_alt color_to_u8_unat div_le_mono)

subsection \<open>Coordinates\<close>

lemma fmul_rnd:
  assumes "\<bar>n\<bar> \<le> 2 ^ fprec F" "\<bar>a * b\<bar> \<le> of_int n"
  shows "fmul F (Fin a) (Fin b) = Fin (rnd F (a * b))"
  using fround_Fin [OF assms] by simp

lemma coord_to_i16_inverted_Fin:
  assumes "fclamp v (Fin (- 1)) (Fin 1) = Fin c" "\<bar>c\<bar> \<le> 1"
  shows "sint (coord_to_i16_inverted v) = - rha (rnd F32 (c * 32767))"
    and "\<bar>rha (rnd F32 (c * 32767))\<bar> \<le> 32767"
proof -
  let ?z = "rnd F32 (c * 32767)"
  have c: "\<bar>c * 32767\<bar> \<le> of_int 32767" using assms(2) by (simp add: abs_mult)
  have z: "\<bar>?z\<bar> \<le> of_int 32767" using c by (intro rnd_abs_le_int) simp_all
  then have "?z \<le> of_int 32767" "of_int (- 32767) \<le> ?z" by simp_all
  then show b: "\<bar>rha ?z\<bar> \<le> 32767" using rha_le_int rha_ge_int by (simp only: abs_le_iff) fastforce
  have "fmul F32 (Fin c) (Fin (- 32767)) = Fin (rnd F32 (- (c * 32767)))"
    using fmul_rnd [of 32767 F32 c "- 32767"] c by simp
  then have "coord_to_i16_inverted v = of_int (- rha ?z)"
    using b by (simp add: coord_to_i16_inverted_def assms(1) rha_minus  flip: of_int_minus)
  then have "sint (coord_to_i16_inverted v) = signed_take_bit 15 (- rha ?z)"
    by (simp only: signed_of_int) simp
  then show "sint (coord_to_i16_inverted v) = - rha ?z"
    using b by (simp add: signed_take_bit_int_eq_self)
qed

text \<open>Every float, a NaN or an infinity included, converts into \<open>-32767..32767\<close>.\<close>

lemma coord_to_i16_inverted_range: "\<bar>sint (coord_to_i16_inverted v)\<bar> \<le> 32767"
proof (rule fclamp_cases [of "- 1" 1 v])
  assume "fclamp v (Fin (- 1)) (Fin 1) = NaN"
  then show ?thesis by (simp add: coord_to_i16_inverted_def)
next
  fix c assume c: "- 1 \<le> c" "c \<le> 1" "fclamp v (Fin (- 1)) (Fin 1) = Fin c"
  then have "\<bar>c\<bar> \<le> 1" by simp
  from coord_to_i16_inverted_Fin [OF c(3) this] show ?thesis by simp
qed simp

lemma fclamp_mono:
  assumes "flt v w" "lo \<le> hi"
  obtains c d where "lo \<le> c" "c \<le> d" "d \<le> hi"
    "fclamp v (Fin lo) (Fin hi) = Fin c" "fclamp w (Fin lo) (Fin hi) = Fin d"
proof -
  have "\<exists>c d. lo \<le> c \<and> c \<le> d \<and> d \<le> hi \<and>
    fclamp v (Fin lo) (Fin hi) = Fin c \<and> fclamp w (Fin lo) (Fin hi) = Fin d"
    using assms by (cases v; cases w) (auto simp: fclamp_def)
  then show ?thesis using that by blast
qed

lemma coord_to_i16_inverted_antimono:
  assumes "flt v w"
  shows "sint (coord_to_i16_inverted w) \<le> sint (coord_to_i16_inverted v)"
proof -
  obtain c d where cd: "- 1 \<le> c" "c \<le> d" "d \<le> 1"
    and f: "fclamp v (Fin (- 1)) (Fin 1) = Fin c" "fclamp w (Fin (- 1)) (Fin 1) = Fin d"
    using fclamp_mono [OF assms, of "- 1" 1] by auto
  have "rha (rnd F32 (c * 32767)) \<le> rha (rnd F32 (d * 32767))"
    using cd(2) by (intro rha_mono rnd_mono) simp
  then show ?thesis
    using coord_to_i16_inverted_Fin(1) [OF f(1)] coord_to_i16_inverted_Fin(1) [OF f(2)] cd by simp
qed

lemma rnd32_err:
  assumes "\<bar>x\<bar> < 2 ^ k"
  shows "\<bar>rnd F32 x - x\<bar> \<le> 2 powi (max (int k - 24) (- 149)) / 2"
proof (cases "x = 0")
  case False
  then have "2 powi ilog2 \<bar>x\<bar> < (2 :: rat) powi int k"
    using ilog2_bounds(1) [of "\<bar>x\<bar>"] assms by simp
  then have "ilog2 \<bar>x\<bar> < int k" by (simp only: powi2_less_iff)
  then have "qexp F32 x \<le> max (int k - 24) (- 149)" by (simp add: qexp_def)
  then have "(2 :: rat) powi qexp F32 x \<le> 2 powi (max (int k - 24) (- 149))"
    by (rule power_int_increasing) simp
  then show ?thesis using rnd_err [of F32 x] by simp
qed simp

text \<open>
  Inside the scan range the conversion is within \<open>1/2 + 2 ^ - 10\<close> of the exact value: half a step
  of the final rounding and the rounding of the single-precision product.
\<close>

lemma coord_to_i16_inverted_err:
  assumes "\<bar>a\<bar> \<le> 1"
  shows "\<bar>of_int (sint (coord_to_i16_inverted (Fin a))) - (- (a * 32767))\<bar> \<le> 1 / 2 + 1 / 1024"
proof -
  have "fclamp (Fin a) (Fin (- 1)) (Fin 1) = Fin a" using assms by (auto simp: fclamp_def)
  note s = coord_to_i16_inverted_Fin(1) [OF this assms]
  have "\<bar>a * 32767\<bar> < 2 ^ 15" using assms by (simp add: abs_mult)
  then have "\<bar>rnd F32 (a * 32767) - a * 32767\<bar> \<le> 1 / 1024"
    using rnd32_err [of "a * 32767" 15] by (simp add: power_int_minus)
  then show ?thesis using rha_err [of "rnd F32 (a * 32767)"] unfolding s of_int_minus by linarith
qed

lemma u12_tail:
  assumes "0 \<le> c" "c \<le> 1"
  shows "f2nat 16 (frnd (fmul F32 (Fin c) (Fin 4095))) = nat (rha (rnd F32 (c * 4095)))"
    and "nat (rha (rnd F32 (c * 4095))) \<le> 4095"
proof -
  have "\<bar>c * 4095\<bar> \<le> of_int 4095" using assms by simp
  then have m: "fmul F32 (Fin c) (Fin 4095) = Fin (rnd F32 (c * 4095))" by (intro fmul_rnd [of 4095]) simp_all
  have "rnd F32 (c * 4095) \<le> of_int 4095" using assms by (intro rnd_le_int) simp_all
  then have u: "rha (rnd F32 (c * 4095)) \<le> 4095" by (rule rha_le_int)
  have "of_int 0 \<le> rnd F32 (c * 4095)" using assms by (simp add: rnd_nonneg)
  then have l: "0 \<le> rha (rnd F32 (c * 4095))" by (rule rha_ge_int)
  show "f2nat 16 (frnd (fmul F32 (Fin c) (Fin 4095))) = nat (rha (rnd F32 (c * 4095)))"
    unfolding m using u l by (simp add: f2nat_def)
  show "nat (rha (rnd F32 (c * 4095))) \<le> 4095" using u by simp
qed

lemma coord_to_u12_inverted_range: "unat (coord_to_u12_inverted v) \<le> 4095"
proof (rule fclamp_cases [of 0 1 "fsub F32 (Fin 1) (fdiv F32 (fadd F32 v (Fin 1)) (Fin 2))"])
  let ?v = "fsub F32 (Fin 1) (fdiv F32 (fadd F32 v (Fin 1)) (Fin 2))"
  assume "fclamp ?v (Fin 0) (Fin 1) = NaN"
  then show ?thesis by (simp add: coord_to_u12_inverted_def f2nat_def)
next
  let ?v = "fsub F32 (Fin 1) (fdiv F32 (fadd F32 v (Fin 1)) (Fin 2))"
  fix c assume "0 \<le> c" "c \<le> 1" "fclamp ?v (Fin 0) (Fin 1) = Fin c"
  then show ?thesis using u12_tail [of c]
    by (simp add: coord_to_u12_inverted_def unsigned_of_nat take_bit_eq_mod del: fmul.simps)
qed simp

lemma coord_to_u12_Fin:
  assumes "fclamp v (Fin (- 1)) (Fin 1) = Fin c" "\<bar>c\<bar> \<le> 1"
  shows "unat (coord_to_u12 v) = nat (rha (rnd F32 (rnd F32 (rnd F32 (c + 1) / 2) * 4095)))"
    and "unat (coord_to_u12 v) \<le> 4095"
proof -
  have a: "fadd F32 (Fin c) (Fin 1) = Fin (rnd F32 (c + 1))"
    using fround_Fin [of 2 F32 "c + 1"] assms(2) by simp
  have b: "\<bar>rnd F32 (c + 1)\<bar> \<le> of_int 2" using assms(2) by (intro rnd_abs_le_int) simp_all
  have b0: "0 \<le> rnd F32 (c + 1)" using assms(2) by (intro rnd_nonneg) simp
  have d: "fdiv F32 (Fin (rnd F32 (c + 1))) (Fin 2) = Fin (rnd F32 (rnd F32 (c + 1) / 2))"
    using fround_Fin [of 1 F32 "rnd F32 (c + 1) / 2"] b by simp
  have e: "0 \<le> rnd F32 (rnd F32 (c + 1) / 2)" using b0 by (intro rnd_nonneg) simp
  have g: "rnd F32 (rnd F32 (c + 1) / 2) \<le> 1" using rnd_le_int [of 1 F32] b by simp
  show "unat (coord_to_u12 v) = nat (rha (rnd F32 (rnd F32 (rnd F32 (c + 1) / 2) * 4095)))"
    "unat (coord_to_u12 v) \<le> 4095"
    using u12_tail [OF e g] unfolding coord_to_u12_def assms(1) a d
    by (simp_all add: unsigned_of_nat take_bit_eq_mod del: fmul.simps)
qed

lemma coord_to_u12_mono:
  assumes "flt v w"
  shows "unat (coord_to_u12 v) \<le> unat (coord_to_u12 w)"
proof -
  obtain c d where cd: "- 1 \<le> c" "c \<le> d" "d \<le> 1"
    and f: "fclamp v (Fin (- 1)) (Fin 1) = Fin c" "fclamp w (Fin (- 1)) (Fin 1) = Fin d"
    using fclamp_mono [OF assms, of "- 1" 1] by auto
  have "rnd F32 (c + 1) / 2 \<le> rnd F32 (d + 1) / 2" using cd(2) rnd_mono [of "c + 1" "d + 1"] by simp
  then have "rnd F32 (rnd F32 (c + 1) / 2) * 4095 \<le> rnd F32 (rnd F32 (d + 1) / 2) * 4095"
    using rnd_mono by simp
  from rha_mono [OF rnd_mono [OF this, of F32]] show ?thesis
    using coord_to_u12_Fin(1) [OF f(1)] coord_to_u12_Fin(1) [OF f(2)] cd by (simp add: nat_mono)
qed

subsection \<open>Properties\<close>

text \<open>
  C39 (\<open>coord_to_i16_inverted\<close>): every float, a NaN or an infinity included, is converted into
  \<open>-32767..32767\<close>; for a coordinate of the scan range the wire value is within
  \<open>1/2 + 2 ^ - 10\<close> of \<open>- a * 32767\<close>; and the conversion reverses the axis, a larger coordinate
  never giving a larger wire value.
\<close>

theorem coord_to_i16_inverted_ok:
  "\<bar>sint (coord_to_i16_inverted v)\<bar> \<le> 32767 \<and>
   (\<bar>a\<bar> \<le> 1 \<longrightarrow>
     \<bar>of_int (sint (coord_to_i16_inverted (Fin a))) - (- (a * 32767))\<bar> \<le> 1 / 2 + 1 / 1024) \<and>
   (flt v w \<longrightarrow> sint (coord_to_i16_inverted w) \<le> sint (coord_to_i16_inverted v))"
  using coord_to_i16_inverted_range coord_to_i16_inverted_err coord_to_i16_inverted_antimono by blast

theorem coord_to_i16_inverted_ok_witness:
  "\<bar>of_int (sint (coord_to_i16_inverted (Fin (1 / 2)))) - (- (1 / 2 * 32767 :: rat))\<bar> \<le> 1 / 2 + 1 / 1024
   \<and> sint (coord_to_i16_inverted PInf) \<le> sint (coord_to_i16_inverted (Fin (1 / 2)))"
  using coord_to_i16_inverted_ok [of "Fin (1 / 2)" "1 / 2" PInf] by simp

text \<open>
  C40 (\<open>color_to_u8\<close>): the 8-bit channel is the nearest integer to \<open>v * 255 / 65535\<close> (the error is
  below half a step), black and full scale are mapped exactly, and a brighter channel never
  becomes darker than a dimmer one.
\<close>

theorem color_to_u8_ok:
  "\<bar>int (unat (color_to_u8 v)) * 65535 - int (unat v) * 255\<bar> \<le> 32767 \<and>
   color_to_u8 0 = 0 \<and> color_to_u8 0xFFFF = 255 \<and>
   (v \<le> w \<longrightarrow> color_to_u8 v \<le> color_to_u8 w)"
proof -
  have "color_to_u8 0 = 0" "color_to_u8 0xFFFF = 255" by (simp_all add: color_to_u8_def)
  then show ?thesis using color_to_u8_nearest color_to_u8_mono by blast
qed

theorem color_to_u8_ok_witness: "color_to_u8 256 \<le> color_to_u8 1000"
  using color_to_u8_ok [of 256 1000] by simp

end
