(* ===== verification/Config.thy ===== *)
theory Config
  imports Time_Model Laser_Point
begin

text \<open>
  \<^verbatim>\<open>src/src/device.rs\<close> and \<^verbatim>\<open>src/src/config.rs\<close>: the kinds of DAC, their capabilities as the
  scheduler sees them, the discovery filter, and the stream and reconnect configurations with
  their builders. Durations are nanoseconds; callbacks are recorded as present or absent, the
  closures themselves being the application's. The serde encodings of durations are the integer
  conversions of the source.
\<close>

subsection \<open>Devices\<close>

datatype dac_type = Helios | EtherDream | Idn | LaserCubeNetwork | LaserCubeUsb | Oscilloscope | Avb
  | CustomDac string

datatype output_model = UsbFrameSwap | NetworkFifo | UdpTimed | BlockingFifo

text \<open>With the feature \<open>oscilloscope\<close>.\<close>

definition dac_type_all :: "dac_type list" where
  "dac_type_all = [Helios, EtherDream, Idn, LaserCubeNetwork, LaserCubeUsb, Avb, Oscilloscope]"

fun display_name :: "dac_type \<Rightarrow> string" where
  "display_name Helios = ''Helios''"
| "display_name EtherDream = ''Ether Dream''"
| "display_name Idn = ''IDN''"
| "display_name LaserCubeNetwork = ''LaserCube Network''"
| "display_name LaserCubeUsb = ''LaserCube USB (LaserDock)''"
| "display_name Oscilloscope = ''Oscilloscope''"
| "display_name Avb = ''AVB Audio Device''"
| "display_name (CustomDac n) = n"

type_synonym enabled_dac_types = "dac_type set"

definition enabled_all :: enabled_dac_types where
  "enabled_all = set dac_type_all"

definition enabled_none :: enabled_dac_types where
  "enabled_none = {}"

definition is_enabled :: "enabled_dac_types \<Rightarrow> dac_type \<Rightarrow> bool" where
  "is_enabled s t \<longleftrightarrow> t \<in> s"

definition enable :: "dac_type \<Rightarrow> enabled_dac_types \<Rightarrow> enabled_dac_types" where
  "enable t s = insert t s"

definition disable :: "dac_type \<Rightarrow> enabled_dac_types \<Rightarrow> enabled_dac_types" where
  "disable t s = s - {t}"

definition without :: "dac_type \<Rightarrow> enabled_dac_types \<Rightarrow> enabled_dac_types" where
  "without t s = s - {t}"

record dac_capabilities =
  pps_min :: nat
  pps_max :: nat
  max_points_per_chunk :: nat
  output_model_of :: output_model

definition default_dac_capabilities :: dac_capabilities where
  "default_dac_capabilities =
     \<lparr>pps_min = 1, pps_max = 100000, max_points_per_chunk = 4096, output_model_of = NetworkFifo\<rparr>"

record dac_info =
  di_id :: string
  di_name :: string
  di_kind :: dac_type
  di_caps :: dac_capabilities

definition dac_info_new :: "string \<Rightarrow> string \<Rightarrow> dac_type \<Rightarrow> dac_capabilities \<Rightarrow> dac_info" where
  "dac_info_new i n k c = \<lparr>di_id = i, di_name = n, di_kind = k, di_caps = c\<rparr>"

subsection \<open>Stream configuration\<close>

datatype idle_policy = RepeatLast | Blank | Park fp fp | StopPolicy

record reconnect_config =
  rc_max_retries :: "nat option"
  rc_backoff :: duration
  rc_on_disconnect :: bool
  rc_on_reconnect :: bool

definition reconnect_config_new :: reconnect_config where
  "reconnect_config_new = \<lparr>rc_max_retries = None, rc_backoff = 1 * nanos_per_sec,
     rc_on_disconnect = False, rc_on_reconnect = False\<rparr>"

definition rc_with_max_retries :: "nat \<Rightarrow> reconnect_config \<Rightarrow> reconnect_config" where
  "rc_with_max_retries n c = c \<lparr>rc_max_retries := Some n\<rparr>"

definition rc_with_backoff :: "duration \<Rightarrow> reconnect_config \<Rightarrow> reconnect_config" where
  "rc_with_backoff d c = c \<lparr>rc_backoff := d\<rparr>"

definition from_millis :: "nat \<Rightarrow> duration" where
  "from_millis n = n * 1000000"

definition from_micros :: "nat \<Rightarrow> duration" where
  "from_micros n = n * 1000"

definition DEFAULT_TARGET_BUFFER :: duration where
  "DEFAULT_TARGET_BUFFER = from_millis 20"

definition NETWORK_DEFAULT_TARGET_BUFFER :: duration where
  "NETWORK_DEFAULT_TARGET_BUFFER = from_millis 50"

definition ETHER_DREAM_DEFAULT_TARGET_BUFFER :: duration where
  "ETHER_DREAM_DEFAULT_TARGET_BUFFER = from_millis 80"

definition LASERCUBE_NETWORK_DEFAULT_TARGET_BUFFER :: duration where
  "LASERCUBE_NETWORK_DEFAULT_TARGET_BUFFER = from_millis 120"

record stream_config =
  sc_pps :: nat
  sc_target_buffer :: duration
  sc_idle_policy :: idle_policy
  sc_drain_timeout :: duration
  sc_color_delay :: duration
  sc_startup_blank :: duration
  sc_reconnect :: "reconnect_config option"

definition stream_config_new :: "nat \<Rightarrow> stream_config" where
  "stream_config_new pps =
     \<lparr>sc_pps = pps, sc_target_buffer = DEFAULT_TARGET_BUFFER, sc_idle_policy = Blank,
      sc_drain_timeout = 1 * nanos_per_sec, sc_color_delay = 0, sc_startup_blank = from_millis 1,
      sc_reconnect = None\<rparr>"

definition stream_config_default :: stream_config where
  "stream_config_default = stream_config_new 30000"

definition is_custom :: "dac_type \<Rightarrow> bool" where
  "is_custom t = (case t of CustomDac _ \<Rightarrow> True | _ \<Rightarrow> False)"

definition default_target_buffer_for :: "dac_type \<Rightarrow> output_model \<Rightarrow> duration" where
  "default_target_buffer_for t m =
     (if t = LaserCubeNetwork then LASERCUBE_NETWORK_DEFAULT_TARGET_BUFFER
      else if t = EtherDream then ETHER_DREAM_DEFAULT_TARGET_BUFFER
      else if \<not> is_custom t \<and> (m = NetworkFifo \<or> m = UdpTimed \<or> m = BlockingFifo)
      then NETWORK_DEFAULT_TARGET_BUFFER
      else DEFAULT_TARGET_BUFFER)"

definition with_target_buffer :: "duration \<Rightarrow> stream_config \<Rightarrow> stream_config" where
  "with_target_buffer d c = c \<lparr>sc_target_buffer := d\<rparr>"

definition with_idle_policy :: "idle_policy \<Rightarrow> stream_config \<Rightarrow> stream_config" where
  "with_idle_policy p c = c \<lparr>sc_idle_policy := p\<rparr>"

definition with_drain_timeout :: "duration \<Rightarrow> stream_config \<Rightarrow> stream_config" where
  "with_drain_timeout d c = c \<lparr>sc_drain_timeout := d\<rparr>"

definition with_color_delay :: "duration \<Rightarrow> stream_config \<Rightarrow> stream_config" where
  "with_color_delay d c = c \<lparr>sc_color_delay := d\<rparr>"

definition with_startup_blank :: "duration \<Rightarrow> stream_config \<Rightarrow> stream_config" where
  "with_startup_blank d c = c \<lparr>sc_startup_blank := d\<rparr>"

definition with_reconnect :: "reconnect_config \<Rightarrow> stream_config \<Rightarrow> stream_config" where
  "with_reconnect r c = c \<lparr>sc_reconnect := Some r\<rparr>"

text \<open>
  The serde modules \<open>duration_millis\<close> and \<open>duration_micros\<close>: an unsigned 64-bit count of the unit,
  saturated on the way out.
\<close>

definition ser_duration :: "nat \<Rightarrow> duration \<Rightarrow> nat" where
  "ser_duration unit_ns d = min (d div unit_ns) (umax 64)"

definition de_duration :: "nat \<Rightarrow> nat \<Rightarrow> duration" where
  "de_duration unit_ns v = v * unit_ns"

lemma duration_serde:
  assumes "0 < u" "d div u \<le> umax 64"
  shows "de_duration u (ser_duration u d) \<le> d" "d < de_duration u (ser_duration u d) + u"
    "d mod u = 0 \<Longrightarrow> de_duration u (ser_duration u d) = d"
proof -
  have e: "de_duration u (ser_duration u d) = d div u * u" using assms by (simp add: ser_duration_def de_duration_def)
  have "d div u * u + d mod u = d" "d mod u < u" using assms(1) by simp_all
  then show "de_duration u (ser_duration u d) \<le> d" "d < de_duration u (ser_duration u d) + u"
    "d mod u = 0 \<Longrightarrow> de_duration u (ser_duration u d) = d" unfolding e by linarith+
qed

lemma default_target_buffer_range:
  "from_millis 20 \<le> default_target_buffer_for t m" "default_target_buffer_for t m \<le> from_millis 120"
  by (auto simp: default_target_buffer_for_def from_millis_def DEFAULT_TARGET_BUFFER_def
      NETWORK_DEFAULT_TARGET_BUFFER_def ETHER_DREAM_DEFAULT_TARGET_BUFFER_def
      LASERCUBE_NETWORK_DEFAULT_TARGET_BUFFER_def)

end
