(* ===== verification/Color_Delay.thy ===== *)
theory Color_Delay
  imports Laser_Point
begin

text \<open>
  \<open>ColorDelayLine\<close> of \<^verbatim>\<open>src/src/presentation/engine.rs\<close>: the colours of a stream are shifted
  by a number of points against its positions, across chunk boundaries. The source does this in
  place, walking the chunk backwards; here the same index updates are performed on a list, with
  \<open>None\<close> for the panic of \<open>copy_from_slice\<close> on unequal lengths. The locale \<open>delay_line\<close> states
  what such a line promises and derives that the cutting of a stream into chunks is not
  observable; the model is an instance of it.
\<close>

type_synonym rgbi = "u16 \<times> u16 \<times> u16 \<times> u16"

record color_delay =
  cd_delay :: nat
  cd_carry :: "rgbi list"
  cd_scratch :: "rgbi list"

definition set_pcolor :: "rgbi \<Rightarrow> laser_point \<Rightarrow> laser_point" where
  "set_pcolor c p = (case c of (r, g, b, i) \<Rightarrow>
     p \<lparr>lp_r := r, lp_g := g, lp_b := b, lp_intensity := i\<rparr>)"

definition cd_new :: "nat \<Rightarrow> color_delay" where
  "cd_new d = \<lparr>cd_delay = d, cd_carry = replicate d (0, 0, 0, 0), cd_scratch = []\<rparr>"

definition cd_reset :: "color_delay \<Rightarrow> color_delay" where
  "cd_reset l = l \<lparr>cd_carry := replicate (length (cd_carry l)) (0, 0, 0, 0)\<rparr>"

definition cd_resize :: "nat \<Rightarrow> color_delay \<Rightarrow> color_delay" where
  "cd_resize n l =
     (if n = cd_delay l then l
      else if n = 0 then l \<lparr>cd_delay := 0, cd_carry := []\<rparr>
      else if cd_delay l < n
      then l \<lparr>cd_carry := replicate (n - cd_delay l) (0, 0, 0, 0) @ cd_carry l, cd_delay := n\<rparr>
      else l \<lparr>cd_carry := drop (cd_delay l - n) (cd_carry l), cd_delay := n\<rparr>)"

text \<open>The loop \<open>for i in (delay..n).rev()\<close>; the second argument is the exclusive upper index.\<close>

fun shift_back :: "nat \<Rightarrow> nat \<Rightarrow> laser_point list \<Rightarrow> laser_point list" where
  "shift_back d 0 ps = ps"
| "shift_back d (Suc i) ps =
     (if i < d then ps
      else shift_back d i (ps[i := set_pcolor (pcolor (ps ! (i - d))) (ps ! i)]))"

text \<open>The loop over \<open>points.iter_mut().zip(&self.carry)\<close>.\<close>

fun fill_head :: "rgbi list \<Rightarrow> laser_point list \<Rightarrow> laser_point list" where
  "fill_head (c # cs) (p # ps) = set_pcolor c p # fill_head cs ps"
| "fill_head _ ps = ps"

definition cd_apply :: "color_delay \<Rightarrow> laser_point list \<Rightarrow> (color_delay \<times> laser_point list) option" where
  "cd_apply l ps =
     (if cd_delay l = 0 \<or> ps = [] then Some (l, ps)
      else let n = length ps; delay = cd_delay l; keep = min delay n;
               scratch = map pcolor (drop (n - keep) ps);
               ps1 = shift_back delay n ps;
               ps2 = fill_head (cd_carry l) ps1
           in if keep = delay
              then (if length (cd_carry l) = length scratch
                    then Some (l \<lparr>cd_scratch := scratch, cd_carry := scratch\<rparr>, ps2) else None)
              else (let moved = drop keep (cd_carry l) @ drop (length (cd_carry l) - keep) (cd_carry l)
                    in if length (cd_carry l) - (delay - keep) = length scratch
                       then Some (l \<lparr>cd_scratch := scratch,
                                     cd_carry := take (delay - keep) moved @ scratch\<rparr>, ps2)
                       else None))"

definition cd_inv :: "color_delay \<Rightarrow> bool" where
  "cd_inv l \<longleftrightarrow> length (cd_carry l) = cd_delay l"

subsection \<open>The in-place shift\<close>

lemma set_pcolor_simps [simp]:
  "pcolor (set_pcolor c p) = c" "pxy (set_pcolor c p) = pxy p"
  by (simp_all add: set_pcolor_def pcolor_def pxy_def split: prod.split)

lemma length_shift_back [simp]: "length (shift_back d i ps) = length ps"
  by (induction d i ps rule: shift_back.induct) auto

lemma pxy_shift_back: "i \<le> length ps \<Longrightarrow> map pxy (shift_back d i ps) = map pxy ps"
proof (induction d i ps rule: shift_back.induct)
  case (2 d i ps)
  then have "map pxy (ps[i := set_pcolor (pcolor (ps ! (i - d))) (ps ! i)]) = map pxy ps"
    by (simp add: map_update list_update_same_conv)
  with 2 show ?case by simp
qed simp

text \<open>
  Reading before overwriting: position \<open>j\<close> of the processed range receives the colour that
  position \<open>j - d\<close> had originally.
\<close>

lemma nth_shift_back:
  "i \<le> length ps \<Longrightarrow> j < length ps \<Longrightarrow> 0 < d \<Longrightarrow>
   pcolor (shift_back d i ps ! j) = (if d \<le> j \<and> j < i then pcolor (ps ! (j - d)) else pcolor (ps ! j))"
proof (induction d i ps arbitrary: j rule: shift_back.induct)
  case (2 d i ps)
  show ?case
  proof (cases "i < d")
    case True
    then show ?thesis by auto
  next
    case False
    let ?ps = "ps[i := set_pcolor (pcolor (ps ! (i - d))) (ps ! i)]"
    have "pcolor (shift_back d i ?ps ! j) = (if d \<le> j \<and> j < i then pcolor (?ps ! (j - d)) else pcolor (?ps ! j))"
      using 2 False by simp
    moreover have "j < i \<Longrightarrow> ?ps ! (j - d) = ps ! (j - d)" by simp
    ultimately show ?thesis using False 2(2,3,4) by (cases "j = i") auto
  qed
qed simp

lemma length_fill_head [simp]: "length (fill_head cs ps) = length ps"
  by (induction cs ps rule: fill_head.induct) auto

lemma map_fill_head:
  "map pcolor (fill_head cs ps) = take (length ps) cs @ drop (length cs) (map pcolor ps)"
  "map pxy (fill_head cs ps) = map pxy ps"
  by (induction cs ps rule: fill_head.induct) auto

lemma shift_back_tail:
  assumes "0 < d"
  shows "drop d (map pcolor (shift_back d (length ps) ps)) = take (length ps - d) (map pcolor ps)"
proof (rule nth_equalityI)
  fix i assume "i < length (drop d (map pcolor (shift_back d (length ps) ps)))"
  then have i: "d + i < length ps" by simp
  then show "drop d (map pcolor (shift_back d (length ps) ps)) ! i = take (length ps - d) (map pcolor ps) ! i"
    using nth_shift_back [of "length ps" ps "d + i" d] assms by simp
qed simp

text \<open>
  The law of the delay line: nothing is lost, nothing reordered, the positions stay, and the
  call does not panic.
\<close>

lemma cd_apply_law:
  assumes "cd_inv l"
  obtains l' ps' where "cd_apply l ps = Some (l', ps')" "cd_inv l'" "cd_delay l' = cd_delay l"
    "map pxy ps' = map pxy ps" "map pcolor ps' @ cd_carry l' = cd_carry l @ map pcolor ps"
proof (cases "cd_delay l = 0 \<or> ps = []")
  case True
  show ?thesis by (rule that [of l ps]) (use True assms in \<open>auto simp: cd_apply_def cd_inv_def\<close>)
next
  case False
  define d where "d = cd_delay l"
  define n where "n = length ps"
  define cs where "cs = map pcolor ps"
  define ps2 where "ps2 = fill_head (cd_carry l) (shift_back d n ps)"
  have d0: "0 < d" and n0: "0 < n" using False by (auto simp: d_def n_def)
  have lc: "length (cd_carry l) = d" and lcs: "length cs = n"
    using assms by (simp_all add: cd_inv_def d_def cs_def n_def)
  have xy: "map pxy ps2 = map pxy ps" by (simp add: ps2_def map_fill_head pxy_shift_back n_def)
  have col: "map pcolor ps2 = take n (cd_carry l) @ take (n - d) cs"
    using shift_back_tail [OF d0, of ps] by (simp add: ps2_def map_fill_head n_def cs_def lc)
  show ?thesis
  proof (cases "d \<le> n")
    case True
    have e: "cd_apply l ps = Some (l \<lparr>cd_scratch := drop (n - d) cs, cd_carry := drop (n - d) cs\<rparr>, ps2)"
      using False True lc lcs
      by (simp add: cd_apply_def Let_def ps2_def cs_def drop_map flip: d_def n_def)
    have "map pcolor ps2 @ drop (n - d) cs = cd_carry l @ cs" using True lc by (simp add: col)
    then show ?thesis
      using True lcs xy by (intro that [OF e]) (simp_all add: cd_inv_def flip: cs_def d_def)
  next
    case dn: False
    then have "take (d - n) (drop n (cd_carry l)) = drop n (cd_carry l)" using lc by simp
    then have e: "cd_apply l ps = Some (l \<lparr>cd_scratch := cs, cd_carry := drop n (cd_carry l) @ cs\<rparr>, ps2)"
      using False dn lc lcs
      by (simp add: cd_apply_def Let_def ps2_def cs_def min_def flip: d_def n_def)
    have "map pcolor ps2 @ drop n (cd_carry l) @ cs = cd_carry l @ cs" using dn by (simp add: col)
    then show ?thesis
      using dn lc lcs xy by (intro that [OF e]) (simp_all add: cd_inv_def flip: cs_def d_def)
  qed
qed

lemma cd_inv_ops [simp]:
  "cd_inv (cd_new d)" "cd_inv l \<Longrightarrow> cd_inv (cd_reset l)" "cd_inv l \<Longrightarrow> cd_inv (cd_resize d l)"
  by (auto simp: cd_inv_def cd_new_def cd_reset_def cd_resize_def)

subsection \<open>Chunking is not observable\<close>

fun run_chunks :: "('s \<Rightarrow> 'p list \<Rightarrow> ('s \<times> 'p list) option) \<Rightarrow> 's \<Rightarrow> 'p list list \<Rightarrow> ('s \<times> 'p list) option" where
  "run_chunks push s [] = Some (s, [])"
| "run_chunks push s (c # cs) = (case push s c of None \<Rightarrow> None | Some (s', out) \<Rightarrow>
     (case run_chunks push s' cs of None \<Rightarrow> None | Some (s'', rest) \<Rightarrow> Some (s'', out @ rest)))"

text \<open>
  A delay line holds the delayed part (\<open>val\<close>) of the last points it has seen. A push never
  panics, keeps the undelayed part (\<open>pos\<close>) of each point, and emits what it held followed by
  what it was given.
\<close>

locale delay_line =
  fixes ok :: "'s \<Rightarrow> bool"
    and held :: "'s \<Rightarrow> 'c list"
    and push :: "'s \<Rightarrow> 'p list \<Rightarrow> ('s \<times> 'p list) option"
    and pos :: "'p \<Rightarrow> 'x"
    and val :: "'p \<Rightarrow> 'c"
  assumes push_law: "ok s \<Longrightarrow> \<exists>s' out. push s ps = Some (s', out) \<and> ok s' \<and> map pos out = map pos ps \<and>
      map val out @ held s' = held s @ map val ps"
    and split_point: "pos p = pos q \<Longrightarrow> val p = val q \<Longrightarrow> p = q"
begin

lemma run_law:
  "ok s \<Longrightarrow> \<exists>s' out. run_chunks push s cs = Some (s', out) \<and> ok s' \<and>
     map pos out = map pos (concat cs) \<and> map val out @ held s' = held s @ map val (concat cs)"
proof (induction cs arbitrary: s)
  case (Cons c cs)
  from push_law [OF Cons.prems, of c] obtain s' out where 1: "push s c = Some (s', out)" "ok s'"
    "map pos out = map pos c" "map val out @ held s' = held s @ map val c" by blast
  from Cons.IH [OF 1(2)] obtain s'' rest where 2: "run_chunks push s' cs = Some (s'', rest)" "ok s''"
    "map pos rest = map pos (concat cs)" "map val rest @ held s'' = held s' @ map val (concat cs)" by blast
  have "map val (out @ rest) @ held s'' = map val out @ held s' @ map val (concat cs)"
    using 2(4) by simp
  also have "\<dots> = held s @ map val (concat (c # cs))" using 1(4) by (metis append_assoc concat.simps(2) map_append)
  finally show ?case using 1 2 by simp
qed simp

lemma points_eqI: "map pos xs = map pos ys \<Longrightarrow> map val xs = map val ys \<Longrightarrow> xs = ys"
proof (induction xs arbitrary: ys)
  case (Cons x xs)
  then show ?case by (cases ys) (auto intro: split_point)
qed simp

lemma chunking:
  assumes "ok s"
  shows "\<exists>s1 s2 out. run_chunks push s cs = Some (s1, out) \<and> push s (concat cs) = Some (s2, out) \<and>
     ok s1 \<and> ok s2 \<and> held s1 = held s2"
proof -
  obtain s1 out1 where 1: "run_chunks push s cs = Some (s1, out1)" "ok s1"
    "map pos out1 = map pos (concat cs)" "map val out1 @ held s1 = held s @ map val (concat cs)"
    using run_law [OF assms] by blast
  obtain s2 out2 where 2: "push s (concat cs) = Some (s2, out2)" "ok s2"
    "map pos out2 = map pos (concat cs)" "map val out2 @ held s2 = held s @ map val (concat cs)"
    using push_law [OF assms] by blast
  have "length out1 = length out2" using 1(3) 2(3) by (metis length_map)
  then have "map val out1 = map val out2" "held s1 = held s2"
    using 1(4) 2(4) by (metis append_eq_append_conv length_map)+
  then show ?thesis using 1 2 points_eqI [of out1 out2] by simp
qed

end

interpretation cdl: delay_line cd_inv cd_carry cd_apply pxy pcolor
proof unfold_locales
  fix l ps assume "cd_inv l"
  then show "\<exists>s' out. cd_apply l ps = Some (s', out) \<and> cd_inv s' \<and> map pxy out = map pxy ps \<and>
      map pcolor out @ cd_carry s' = cd_carry l @ map pcolor ps"
    by (rule cd_apply_law [of l ps]) blast
qed (rule point_eqI)

lemma cd_apply_dark:
  assumes "cd_inv l" "cd_apply l ps = Some (l', ps')"
    and "\<forall>c\<in>set (cd_carry l). c = (0, 0, 0, 0)" "\<forall>p\<in>set ps. dark p"
  shows "(\<forall>p\<in>set ps'. dark p) \<and> (\<forall>c\<in>set (cd_carry l'). c = (0, 0, 0, 0))"
proof -
  have "map pcolor ps' @ cd_carry l' = cd_carry l @ map pcolor ps"
    using cd_apply_law [OF assms(1), of ps] assms(2) by (metis option.inject prod.inject)
  then have "set (map pcolor ps') \<union> set (cd_carry l') = set (cd_carry l) \<union> set (map pcolor ps)"
    by (metis set_append)
  then have "set (map pcolor ps') \<union> set (cd_carry l') \<subseteq> {(0, 0, 0, 0)}"
    using assms(3,4) by (auto simp: dark_pcolor)
  then show ?thesis by (auto simp: dark_pcolor)
qed

lemma cd_resize_black:
  assumes "\<forall>c\<in>set (cd_carry l). c = (0, 0, 0, 0)"
  shows "\<forall>c\<in>set (cd_carry (cd_resize n l)). c = (0, 0, 0, 0)"
  using assms by (auto simp: cd_resize_def dest: in_set_dropD)

subsection \<open>Properties\<close>

text \<open>
  C13 (\<open>ColorDelayLine::apply\<close>): on a line whose carry has the configured length, the in-place
  backward shift does not panic, leaves every position where it was, and emits exactly the
  carried colours followed by the chunk's own colours, keeping the last \<open>delay\<close> of them as the
  new carry.
\<close>

theorem cd_apply_delays:
  assumes "cd_inv l"
  shows "\<exists>l' ps'. cd_apply l ps = Some (l', ps') \<and> cd_inv l' \<and> cd_delay l' = cd_delay l \<and>
    map pxy ps' = map pxy ps \<and> map pcolor ps' @ cd_carry l' = cd_carry l @ map pcolor ps"
  by (rule cd_apply_law [OF assms, of ps]) blast

theorem cd_apply_delays_witness:
  "\<exists>l' ps'. cd_apply (cd_new 2) (map (\<lambda>i. point_new (Fin 0) (Fin 0) i 0 0 0) [1, 2, 3]) = Some (l', ps') \<and>
     map pcolor ps' @ cd_carry l' = [(0, 0, 0, 0), (0, 0, 0, 0), (1, 0, 0, 0), (2, 0, 0, 0), (3, 0, 0, 0)]"
  using cd_apply_delays [of "cd_new 2" "map (\<lambda>i. point_new (Fin 0) (Fin 0) i 0 0 0) [1, 2, 3]"]
  by (auto simp: cd_new_def pcolor_def point_new_def cd_inv_def numeral_2_eq_2)

text \<open>
  C31 (\<open>ColorDelayLine\<close> across chunks): cutting a stream into chunks is not observable. Feeding
  the chunks one after another emits the same points, and leaves the same carry, as feeding
  their concatenation in one call.
\<close>

theorem color_delay_chunking:
  assumes "cd_inv l"
  shows "\<exists>l1 l2 out. run_chunks cd_apply l chunks = Some (l1, out) \<and>
    cd_apply l (concat chunks) = Some (l2, out) \<and> cd_inv l1 \<and> cd_inv l2 \<and> cd_carry l1 = cd_carry l2"
  using cdl.chunking [OF assms] by blast

theorem color_delay_chunking_witness:
  "\<exists>l1 l2 out. run_chunks cd_apply (cd_new 2) [[blanked (Fin 0) (Fin 1)], [], [blanked (Fin 1) (Fin 1)]] = Some (l1, out) \<and>
    cd_apply (cd_new 2) (concat [[blanked (Fin 0) (Fin 1)], [], [blanked (Fin 1) (Fin 1)]]) = Some (l2, out) \<and>
    cd_carry l1 = cd_carry l2"
  using color_delay_chunking [of "cd_new 2" "[[blanked (Fin 0) (Fin 1)], [], [blanked (Fin 1) (Fin 1)]]"]
  by (simp only: cd_inv_ops) blast

end
