(* ===== verification/Presentation.thy ===== *)
theory Presentation
  imports Config Color_Delay
begin

text \<open>
  \<^verbatim>\<open>src/src/presentation/mod.rs\<close>: the helpers that the frame path and the streaming path share,
  frames, and the default transition, a blanked move with dwell at both ends and a quintic
  ease-in-out in between. An output filter is code of the application: it is a parameter of the
  pipelines, a function that may change its own state and the points of a slice in place.
\<close>

definition duration_to_points :: "duration \<Rightarrow> nat \<Rightarrow> nat" where
  "duration_to_points d pps =
     (if d = 0 \<or> pps = 0 then 0
      else min (umax 64) (div_ceil (d * pps) 1000000000))"

definition park_point :: "idle_policy \<Rightarrow> laser_point" where
  "park_point p = (case p of Park x y \<Rightarrow> blanked x y | _ \<Rightarrow> blanked (Fin 0) (Fin 0))"

definition blank_point :: "laser_point \<Rightarrow> laser_point" where
  "blank_point p = p \<lparr>lp_r := 0, lp_g := 0, lp_b := 0, lp_intensity := 0\<rparr>"

definition blank_prefix :: "laser_point list \<Rightarrow> laser_point list" where
  "blank_prefix ps = map blank_point ps"

datatype output_reset_reason = SessionStart | Reconnect | Arm | Disarm

datatype presented_slice_kind = FifoChunk | FrameSwapFrame

record output_filter_context =
  ofc_pps :: nat
  ofc_kind :: presented_slice_kind
  ofc_is_cyclic :: bool

text \<open>\<open>Frame\<close> is an immutable shared vector of points.\<close>

type_synonym frame = "laser_point list"

definition first_point :: "frame \<Rightarrow> laser_point option" where
  "first_point f = (if f = [] then None else Some (hd f))"

definition last_point :: "frame \<Rightarrow> laser_point option" where
  "last_point f = (if f = [] then None else Some (last f))"

datatype transition_plan = Transition "laser_point list" | Coalesce

text \<open>\<open>TransitionContext\<close> has one field, the rate.\<close>

type_synonym transition_fn = "laser_point \<Rightarrow> laser_point \<Rightarrow> nat \<Rightarrow> transition_plan"

definition END_DWELL_US :: fp where
  "END_DWELL_US = Fin 100"

definition START_DWELL_US :: fp where
  "START_DWELL_US = Fin 400"

definition quintic_ease_in_out :: "fp \<Rightarrow> fp" where
  "quintic_ease_in_out t =
     (if flt t (Fin (1 / 2))
      then fmul F32 (fmul F32 (fmul F32 (fmul F32 (fmul F32 (Fin 16) t) t) t) t) t
      else let u = fsub F32 (fmul F32 (Fin 2) t) (Fin 2)
           in fadd F32 (fmul F32 (fmul F32 (fmul F32 (fmul F32 (fmul F32 (Fin (1 / 2)) u) u) u) u) u) (Fin 1))"

definition dwell_points :: "fp \<Rightarrow> nat \<Rightarrow> nat" where
  "dwell_points us pps = f2nat 64 (frnd (fdiv F64 (fmul F64 us (fof_int F64 (int pps))) (Fin 1000000)))"

definition transit_points :: "fp \<Rightarrow> fp \<Rightarrow> nat" where
  "transit_points dx dy =
     f2nat 64 (fclamp (fceil (fmul F32 (Fin 32) (fmax (fabs dx) (fabs dy)))) (Fin 0) (Fin 64))"

definition transit_point :: "laser_point \<Rightarrow> fp \<Rightarrow> fp \<Rightarrow> nat \<Rightarrow> nat \<Rightarrow> laser_point" where
  "transit_point from dx dy transit i =
     (let t = fdiv F32 (fadd F32 (fof_int F32 (int i)) (Fin 1))
                       (fadd F32 (fof_int F32 (int transit)) (Fin 1));
          t = quintic_ease_in_out t
      in blanked (fadd F32 (lp_x from) (fmul F32 dx t)) (fadd F32 (lp_y from) (fmul F32 dy t)))"

definition default_transition :: transition_fn where
  "default_transition from to pps =
     (let end_dwell = dwell_points END_DWELL_US pps;
          start_dwell = dwell_points START_DWELL_US pps;
          dx = fsub F32 (lp_x to) (lp_x from);
          dy = fsub F32 (lp_y to) (lp_y from);
          transit = transit_points dx dy
      in Transition (replicate end_dwell (blanked (lp_x from) (lp_y from)) @
                     map (transit_point from dx dy transit) [0..<transit] @
                     replicate start_dwell (blanked (lp_x to) (lp_y to))))"

subsection \<open>Helper lemmas\<close>

lemma dark_blank_point [simp]: "dark (blank_point p)" "pxy (blank_point p) = pxy p"
  by (simp_all add: blank_point_def dark_def pxy_def)

lemma blank_prefix_simps [simp]:
  "length (blank_prefix ps) = length ps" "map pxy (blank_prefix ps) = map pxy ps"
  "p \<in> set (blank_prefix ps) \<Longrightarrow> dark p"
  by (auto simp: blank_prefix_def)

lemma dark_park_point [simp]: "dark (park_point p)"
  by (simp add: park_point_def split: idle_policy.split)

text \<open>The point count of a duration is the least one that covers it.\<close>

lemma duration_to_points_le_iff:
  assumes "d * pps < 2 ^ 64"
  shows "duration_to_points d pps \<le> n \<longleftrightarrow> d * pps \<le> n * 1000000000"
proof (cases "d = 0 \<or> pps = 0")
  case False
  have "div_ceil (d * pps) 1000000000 \<le> d * pps" by (simp add: div_ceil_le_iff)
  then have "div_ceil (d * pps) 1000000000 \<le> umax 64" using assms unfolding umax_def by linarith
  then show ?thesis using False by (simp add: duration_to_points_def div_ceil_le_iff)
qed (auto simp: duration_to_points_def)

lemma transit_points_le: "transit_points dx dy \<le> 64"
proof (rule fclamp_cases [of 0 64 "fceil (fmul F32 (Fin 32) (fmax (fabs dx) (fabs dy)))"])
  fix c assume c: "0 \<le> c" "c \<le> (64 :: rat)"
    and e: "fclamp (fceil (fmul F32 (Fin 32) (fmax (fabs dx) (fabs dy)))) (Fin 0) (Fin 64) = Fin c"
  have "ftrunc c \<le> ftrunc (of_int 64)" using c by (intro ftrunc_mono) simp
  then have "ftrunc c \<le> 64" by (simp only: ftrunc_int)
  then show ?thesis unfolding transit_points_def e f2nat_def by simp
qed (simp_all add: transit_points_def f2nat_def)

lemma default_transition_dark:
  "default_transition from to pps = Transition ps \<Longrightarrow> p \<in> set ps \<Longrightarrow> dark p"
  by (auto simp: default_transition_def Let_def transit_point_def)

lemma default_transition_length:
  assumes "default_transition from to pps = Transition ps"
  shows "length ps \<le> dwell_points END_DWELL_US pps + 64 + dwell_points START_DWELL_US pps"
  using assms transit_points_le [of "fsub F32 (lp_x to) (lp_x from)" "fsub F32 (lp_y to) (lp_y from)"]
  by (auto simp: default_transition_def Let_def)

text \<open>Products and sums of values of the unit interval stay in it after rounding.\<close>

lemma fmul_bound:
  assumes "0 \<le> a * b" "a * b \<le> of_int n" "0 \<le> n" "n \<le> 2 ^ fprec F"
  shows "\<exists>c. fmul F (Fin a) (Fin b) = Fin c \<and> 0 \<le> c \<and> c \<le> of_int n"
proof -
  have "\<bar>a * b\<bar> \<le> of_int n" using assms(1,2) by (simp only: abs_of_nonneg)
  then have "fmul F (Fin a) (Fin b) = Fin (rnd F (a * b))" using assms(3,4) by (intro fmul_rnd [of n]) simp_all
  moreover have "0 \<le> rnd F (a * b)" using assms(1) by (rule rnd_nonneg)
  moreover have "rnd F (a * b) \<le> of_int n" using assms by (intro rnd_le_int) simp_all
  ultimately show ?thesis by blast
qed

lemma fmul_half:
  assumes "0 \<le> t" "t \<le> 1 / 2" "0 \<le> a" "a \<le> of_int (2 * n)" "0 \<le> n" "n \<le> 2 ^ fprec F"
  shows "\<exists>c. fmul F (Fin a) (Fin t) = Fin c \<and> 0 \<le> c \<and> c \<le> of_int n"
proof -
  have "a * t \<le> of_int (2 * n) * (1 / 2)" using assms by (intro mult_mono) simp_all
  then have "a * t \<le> of_int n" by simp
  then show ?thesis using assms by (intro fmul_bound) simp_all
qed

lemma fmul_neg_unit:
  assumes "- 1 \<le> a" "a \<le> 0" "- 1 \<le> u" "u \<le> 0"
  shows "\<exists>c. fmul F (Fin a) (Fin u) = Fin c \<and> 0 \<le> c \<and> c \<le> 1"
proof -
  have "(- a) * (- u) \<le> 1 * 1" using assms by (intro mult_mono) simp_all
  then show ?thesis using fmul_bound [of a u 1 F] assms by (simp add: mult_nonpos_nonpos del: fmul.simps)
qed

lemma fmul_pos_neg_unit:
  assumes "0 \<le> a" "a \<le> 1" "- 1 \<le> u" "u \<le> 0"
  shows "\<exists>c. fmul F (Fin a) (Fin u) = Fin c \<and> - 1 \<le> c \<and> c \<le> 0"
proof -
  have b: "a * (- u) \<le> 1 * 1" "0 \<le> a * (- u)" using assms by (intro mult_mono mult_nonneg_nonneg; simp)+
  then have "\<bar>a * u\<bar> \<le> of_int 1" by simp
  then have e: "fmul F (Fin a) (Fin u) = Fin (rnd F (a * u))" by (intro fmul_rnd [of 1]) simp_all
  have "rnd F (a * u) \<le> of_int 0" "of_int (- 1) \<le> rnd F (a * u)"
    using b by (intro rnd_le_int rnd_ge_int; simp)+
  then show ?thesis using e by auto
qed

lemma quintic_unit:
  assumes "0 \<le> t" "t \<le> 1"
  shows "\<exists>c. quintic_ease_in_out (Fin t) = Fin c \<and> 0 \<le> c \<and> c \<le> 1"
proof (cases "t < 1 / 2")
  case True
  then have t: "t \<le> 1 / 2" by simp
  obtain a1 where 1: "fmul F32 (Fin 16) (Fin t) = Fin a1" "0 \<le> a1" "a1 \<le> of_int 8"
    using fmul_half [of t 16 8 F32] assms t by auto
  obtain a2 where 2: "fmul F32 (Fin a1) (Fin t) = Fin a2" "0 \<le> a2" "a2 \<le> of_int 4"
    using fmul_half [of t a1 4 F32] assms t 1 by auto
  obtain a3 where 3: "fmul F32 (Fin a2) (Fin t) = Fin a3" "0 \<le> a3" "a3 \<le> of_int 2"
    using fmul_half [of t a2 2 F32] assms t 2 by auto
  obtain a4 where 4: "fmul F32 (Fin a3) (Fin t) = Fin a4" "0 \<le> a4" "a4 \<le> of_int 1"
    using fmul_half [of t a3 1 F32] assms t 3 by auto
  obtain a5 where 5: "fmul F32 (Fin a4) (Fin t) = Fin a5" "0 \<le> a5" "a5 \<le> of_int 1"
    using fmul_half [of t a4 1 F32] assms t 4 by auto
  show ?thesis using True 1(1) 2(1) 3(1) 4(1) 5 by (simp add: quintic_ease_in_out_def del: fmul.simps)
next
  case False
  then have t: "1 / 2 \<le> t" by simp
  have m: "fmul F32 (Fin 2) (Fin t) = Fin (rnd F32 (2 * t))" using assms by (intro fmul_rnd [of 2]) simp_all
  have r: "of_int 1 \<le> rnd F32 (2 * t)" "rnd F32 (2 * t) \<le> of_int 2"
    using assms t by (intro rnd_ge_int rnd_le_int; simp)+
  define u where "u = rnd F32 (rnd F32 (2 * t) - 2)"
  have ub: "of_int (- 1) \<le> u" "u \<le> of_int 0" unfolding u_def using r by (intro rnd_ge_int rnd_le_int; simp)+
  have u: "fsub F32 (fmul F32 (Fin 2) (Fin t)) (Fin 2) = Fin u"
    unfolding m u_def fsub_def using fround_Fin [of 1 F32 "rnd F32 (2 * t) - 2"] r by simp
  have u1: "- 1 \<le> u" "u \<le> 0" using ub by simp_all
  obtain a1 where 1: "fmul F32 (Fin (1 / 2)) (Fin u) = Fin a1" "- 1 \<le> a1" "a1 \<le> 0"
    using fmul_pos_neg_unit [of "1 / 2" u F32] u1 by auto
  obtain a2 where 2: "fmul F32 (Fin a1) (Fin u) = Fin a2" "0 \<le> a2" "a2 \<le> 1"
    using fmul_neg_unit [of a1 u F32] u1 1 by auto
  obtain a3 where 3: "fmul F32 (Fin a2) (Fin u) = Fin a3" "- 1 \<le> a3" "a3 \<le> 0"
    using fmul_pos_neg_unit [of a2 u F32] u1 2 by auto
  obtain a4 where 4: "fmul F32 (Fin a3) (Fin u) = Fin a4" "0 \<le> a4" "a4 \<le> 1"
    using fmul_neg_unit [of a3 u F32] u1 3 by auto
  obtain a5 where 5: "fmul F32 (Fin a4) (Fin u) = Fin a5" "- 1 \<le> a5" "a5 \<le> 0"
    using fmul_pos_neg_unit [of a4 u F32] u1 4 by auto
  have e: "fadd F32 (Fin a5) (Fin 1) = Fin (rnd F32 (a5 + 1))" using fround_Fin [of 1 F32 "a5 + 1"] 5 by simp
  have "of_int 0 \<le> rnd F32 (a5 + 1)" "rnd F32 (a5 + 1) \<le> of_int 1" using 5 by (intro rnd_ge_int rnd_le_int; simp)+
  then show ?thesis
    using False u 1(1) 2(1) 3(1) 4(1) 5(1) e
    by (simp add: quintic_ease_in_out_def Let_def del: fmul.simps fadd.simps)
qed

subsection \<open>Properties\<close>

text \<open>
  C33 (\<open>default_transition\<close>): between any two points and at any rate the default transition is a
  list of points that are all dark; it dwells at the source first and at the destination last,
  and inserts at most 64 points in between, whose easing parameter stays in the unit interval.
\<close>

theorem default_transition_ok:
  "\<exists>mid. default_transition from to pps =
      Transition (replicate (dwell_points END_DWELL_US pps) (blanked (lp_x from) (lp_y from)) @ mid @
                  replicate (dwell_points START_DWELL_US pps) (blanked (lp_x to) (lp_y to)))
    \<and> length mid \<le> 64 \<and> (\<forall>p\<in>set mid. dark p)
    \<and> (\<forall>t. 0 \<le> t \<longrightarrow> t \<le> 1 \<longrightarrow> (\<exists>c. quintic_ease_in_out (Fin t) = Fin c \<and> 0 \<le> c \<and> c \<le> 1))"
  using quintic_unit transit_points_le [of "fsub F32 (lp_x to) (lp_x from)" "fsub F32 (lp_y to) (lp_y from)"]
  by (auto simp: default_transition_def Let_def transit_point_def)

theorem default_transition_ok_witness:
  "\<exists>c. quintic_ease_in_out (Fin (3 / 4)) = Fin c \<and> 0 \<le> c \<and> c \<le> 1"
proof -
  have "(0 :: rat) \<le> 3 / 4" "(3 / 4 :: rat) \<le> 1" by simp_all
  then show ?thesis using default_transition_ok [of point_default point_default 30000] by blast
qed

text \<open>
  C38 (\<open>duration_to_points\<close>): the number of points is the least one whose playing time at the rate
  covers the duration, as long as the product stays below \<open>2 ^ 64\<close>.
\<close>

theorem duration_to_points_least:
  assumes "d * pps < 2 ^ 64"
  shows "duration_to_points d pps \<le> n \<longleftrightarrow> d * pps \<le> n * 1000000000"
  by (rule duration_to_points_le_iff [OF assms])

theorem duration_to_points_least_witness:
  "duration_to_points 1000001 30000 \<le> 31 \<and> \<not> duration_to_points 1000001 30000 \<le> 30"
  using duration_to_points_least [of 1000001 30000 31] duration_to_points_least [of 1000001 30000 30] by simp

end
