(* ===== verification/Engine.thy ===== *)
theory Engine
  imports Presentation
begin

text \<open>
  \<open>PresentationEngine\<close> of \<^verbatim>\<open>src/src/presentation/engine.rs\<close>: the lifecycle of the current and
  the pending frame, delivered either as a stream of chunks (\<open>fill_chunk\<close>) or as complete hardware
  frames (\<open>compose_hardware_frame\<close>). The transition function is a field of the state, as in the
  source. The body of the \<open>while\<close> loop of \<open>fill_chunk\<close> is one definition, \<open>fill_step\<close>, whose
  outcome says whether the loop goes on, returns or panics (a slice out of range, \<open>unwrap\<close> of
  \<open>None\<close>); \<open>fill_loop\<close> iterates it and its termination is proved.
\<close>

record engine =
  current_base :: "frame option"
  pending_base :: "frame option"
  drawable :: "laser_point list"
  drawable_dirty :: bool
  cursor :: nat
  transition_fn_of :: transition_fn
  transition_buf :: "laser_point list"
  transition_cursor :: nat
  transition_is_self_loop :: bool
  frame_swap_transition_len :: nat
  frame_swap_composed_pps :: "nat option"
  frame_capacity :: "nat option"
  idle_blank :: laser_point

definition engine_new :: "transition_fn \<Rightarrow> engine" where
  "engine_new tf =
     \<lparr>current_base = None, pending_base = None, drawable = [], drawable_dirty = True, cursor = 0,
      transition_fn_of = tf, transition_buf = [], transition_cursor = 0,
      transition_is_self_loop = False, frame_swap_transition_len = 0,
      frame_swap_composed_pps = None, frame_capacity = None,
      idle_blank = blanked (Fin 0) (Fin 0)\<rparr>"

definition set_frame_capacity :: "nat option \<Rightarrow> engine \<Rightarrow> engine" where
  "set_frame_capacity c e = e \<lparr>frame_capacity := c\<rparr>"

definition set_idle_blank_point :: "laser_point \<Rightarrow> engine \<Rightarrow> engine" where
  "set_idle_blank_point p e = e \<lparr>idle_blank := p\<rparr>"

definition engine_reset :: "engine \<Rightarrow> engine" where
  "engine_reset e = e \<lparr>current_base := None, pending_base := None, drawable := [],
     drawable_dirty := True, cursor := 0, transition_buf := [], transition_cursor := 0,
     transition_is_self_loop := False, frame_swap_transition_len := 0,
     frame_swap_composed_pps := None\<rparr>"

definition has_logical_frame :: "engine \<Rightarrow> bool" where
  "has_logical_frame e \<longleftrightarrow> current_base e \<noteq> None"

definition set_pending :: "frame \<Rightarrow> engine \<Rightarrow> engine" where
  "set_pending f e =
     (if current_base e = None
      then e \<lparr>current_base := Some f, drawable_dirty := True, cursor := 0\<rparr>
      else e \<lparr>pending_base := Some f\<rparr>)"

definition refresh_drawable :: "engine \<Rightarrow> engine" where
  "refresh_drawable e = (let e = e \<lparr>drawable := [], drawable_dirty := False\<rparr> in
     case current_base e of None \<Rightarrow> e
     | Some f \<Rightarrow> if f = [] then e else e \<lparr>drawable := f\<rparr>)"

definition seam_plan :: "transition_fn \<Rightarrow> frame option \<Rightarrow> frame \<Rightarrow> nat \<Rightarrow> transition_plan" where
  "seam_plan tf cur pend pps =
     (case (Option.bind cur last_point, first_point pend) of
        (Some l, Some f) \<Rightarrow> tf l f pps
      | _ \<Rightarrow> Transition [])"

definition promote_pending :: "nat \<Rightarrow> engine \<Rightarrow> engine option" where
  "promote_pending pps e = (case pending_base e of None \<Rightarrow> None
     | Some pend \<Rightarrow>
        (let plan = seam_plan (transition_fn_of e) (current_base e) pend pps;
             e = refresh_drawable (e \<lparr>pending_base := None, current_base := Some pend\<rparr>)
         in Some (case plan of
              Transition points \<Rightarrow> e \<lparr>transition_buf := points, transition_cursor := 0,
                 transition_is_self_loop := False, cursor := 0\<rparr>
            | Coalesce \<Rightarrow> e \<lparr>cursor := (if 1 < length (drawable e) then 1 else 0)\<rparr>)))"

datatype fill_outcome = Continue engine "laser_point list" | Return engine "laser_point list" | Panic

text \<open>After a promotion: an empty frame fills the rest of the buffer with the idle point.\<close>

definition promote_step :: "nat \<Rightarrow> nat \<Rightarrow> engine \<Rightarrow> laser_point list \<Rightarrow> fill_outcome" where
  "promote_step pps mx e out = (case promote_pending pps e of None \<Rightarrow> Panic
     | Some e' \<Rightarrow> if drawable e' = [] then Return e' (out @ replicate (mx - length out) (idle_blank e'))
                 else Continue e' out)"

definition seam_step :: "nat \<Rightarrow> nat \<Rightarrow> engine \<Rightarrow> laser_point list \<Rightarrow> fill_outcome" where
  "seam_step pps mx e out =
     (if pending_base e \<noteq> None then promote_step pps mx e out
      else if drawable e = [] then Panic
      else case transition_fn_of e (last (drawable e)) (hd (drawable e)) pps of
             Transition points \<Rightarrow> Continue (e \<lparr>transition_buf := points, transition_cursor := 0,
               transition_is_self_loop := True, cursor := 0\<rparr>) out
           | Coalesce \<Rightarrow> Continue (e \<lparr>cursor := (if 1 < length (drawable e) then 1 else 0)\<rparr>) out)"

definition fill_step :: "nat \<Rightarrow> nat \<Rightarrow> engine \<Rightarrow> laser_point list \<Rightarrow> fill_outcome" where
  "fill_step pps mx e out =
     (if transition_cursor e < length (transition_buf e) then
        (if transition_is_self_loop e \<and> pending_base e \<noteq> None \<and> transition_cursor e = 0
         then promote_step pps mx (e \<lparr>transition_buf := [], transition_is_self_loop := False\<rparr>) out
         else let src = drop (transition_cursor e) (transition_buf e);
                  n = min (length src) (mx - length out)
              in Continue (e \<lparr>transition_cursor := transition_cursor e + n\<rparr>) (out @ take n src))
      else if length (drawable e) < cursor e then Panic
      else let src = drop (cursor e) (drawable e);
               n = min (length src) (mx - length out);
               out = out @ take n src;
               e = e \<lparr>cursor := cursor e + n\<rparr>
           in if length (drawable e) \<le> cursor e then seam_step pps mx e out else Continue e out)"

definition fill_measure :: "nat \<Rightarrow> engine \<Rightarrow> laser_point list \<Rightarrow> nat" where
  "fill_measure mx e out = 4 * (mx - length out) + (if pending_base e = None then 0 else 2) +
     (if cursor e < length (drawable e) then 0 else 1)"

lemma promote_pending_simps:
  assumes "promote_pending pps e = Some e'"
  shows "pending_base e' = None" "drawable e' \<noteq> [] \<Longrightarrow> cursor e' < length (drawable e')"
    "pending_base e \<noteq> None" "drawable e' = the (pending_base e)" "current_base e' = pending_base e"
    "\<not> drawable_dirty e'" "idle_blank e' = idle_blank e" "transition_fn_of e' = transition_fn_of e"
    "drawable e' = [] \<Longrightarrow> cursor e' = 0"
  using assms
  by (auto simp: promote_pending_def Let_def refresh_drawable_def split: option.splits transition_plan.splits if_splits)

lemma promote_step_measure:
  assumes "promote_step pps mx e out = Continue e' out'"
  shows "out' = out \<and> pending_base e \<noteq> None \<and> pending_base e' = None \<and> cursor e' < length (drawable e')"
proof -
  obtain p where "promote_pending pps e = Some p"
    using assms by (auto simp: promote_step_def split: option.splits)
  then show ?thesis
    using assms promote_pending_simps(1,2,3) [of pps e p] by (auto simp: promote_step_def split: if_splits)
qed

lemma seam_step_measure:
  assumes "seam_step pps mx e out = Continue e' out'"
  shows "out' = out \<and> cursor e' < length (drawable e') \<and> pending_base e' = None"
proof (cases "pending_base e")
  case None
  then show ?thesis using assms by (auto simp: seam_step_def split: if_splits transition_plan.splits)
next
  case (Some f)
  then have "promote_step pps mx e out = Continue e' out'" using assms by (simp add: seam_step_def)
  from promote_step_measure [OF this] show ?thesis by blast
qed

text \<open>The three branches of the loop body.\<close>

lemma fill_step_discard:
  assumes "transition_cursor e < length (transition_buf e)"
    "transition_is_self_loop e" "pending_base e \<noteq> None" "transition_cursor e = 0"
  shows "fill_step pps mx e out =
    promote_step pps mx (e \<lparr>transition_buf := [], transition_is_self_loop := False\<rparr>) out"
  using assms by (simp add: fill_step_def)

lemma fill_step_drain:
  assumes "transition_cursor e < length (transition_buf e)"
    "\<not> (transition_is_self_loop e \<and> pending_base e \<noteq> None \<and> transition_cursor e = 0)"
    "n = min (length (transition_buf e) - transition_cursor e) (mx - length out)"
  shows "fill_step pps mx e out = Continue (e \<lparr>transition_cursor := transition_cursor e + n\<rparr>)
    (out @ take n (drop (transition_cursor e) (transition_buf e)))"
  unfolding fill_step_def if_P [OF assms(1)] if_not_P [OF assms(2)] Let_def length_drop assms(3) ..

lemma fill_step_draw:
  assumes "\<not> transition_cursor e < length (transition_buf e)" "\<not> length (drawable e) < cursor e"
    "n = min (length (drawable e) - cursor e) (mx - length out)"
  shows "fill_step pps mx e out =
    (if length (drawable e) \<le> cursor e + n
     then seam_step pps mx (e \<lparr>cursor := cursor e + n\<rparr>) (out @ take n (drop (cursor e) (drawable e)))
     else Continue (e \<lparr>cursor := cursor e + n\<rparr>) (out @ take n (drop (cursor e) (drawable e))))"
  unfolding fill_step_def if_not_P [OF assms(1)] if_not_P [OF assms(2)] Let_def length_drop assms(3)
  by simp

lemma fill_step_measure:
  assumes "fill_step pps mx e out = Continue e' out'" "length out < mx"
  shows "fill_measure mx e' out' < fill_measure mx e out"
proof (cases "transition_cursor e < length (transition_buf e)")
  case True
  show ?thesis
  proof (cases "transition_is_self_loop e \<and> pending_base e \<noteq> None \<and> transition_cursor e = 0")
    case s: True
    then have "promote_step pps mx (e \<lparr>transition_buf := [], transition_is_self_loop := False\<rparr>) out = Continue e' out'"
      using assms True by (simp add: fill_step_discard)
    from promote_step_measure [OF this] show ?thesis by (auto simp: fill_measure_def)
  next
    case False
    define n where "n = min (length (transition_buf e) - transition_cursor e) (mx - length out)"
    have "0 < n" using True assms(2) by (simp add: n_def)
    moreover have "e' = e \<lparr>transition_cursor := transition_cursor e + n\<rparr>" "length out' = length out + n"
      using assms(1) unfolding fill_step_drain [OF True False n_def] by (auto simp: n_def)
    ultimately show ?thesis using assms(2) by (simp add: fill_measure_def)
  qed
next
  case t: False
  define n where "n = min (length (drawable e) - cursor e) (mx - length out)"
  define e1 where "e1 = e \<lparr>cursor := cursor e + n\<rparr>"
  define o1 where "o1 = out @ take n (drop (cursor e) (drawable e))"
  have l: "length o1 = length out + n" by (simp add: o1_def n_def)
  have c: "\<not> length (drawable e) < cursor e" using assms(1) t by (auto simp: fill_step_def)
  note step = fill_step_draw [OF t c n_def, folded e1_def o1_def]
  show ?thesis
  proof (cases "length (drawable e) \<le> cursor e + n")
    case True
    then have "seam_step pps mx e1 o1 = Continue e' out'" using assms(1) unfolding step by simp
    from seam_step_measure [OF this] have m: "out' = o1" "cursor e' < length (drawable e')" "pending_base e' = None"
      by auto
    show ?thesis
    proof (cases "n = 0")
      case True
      then have "\<not> cursor e < length (drawable e)" using assms(2) by (simp add: n_def)
      then show ?thesis using m l True by (simp add: fill_measure_def)
    next
      case False
      then show ?thesis using m l assms(2) by (simp add: fill_measure_def)
    qed
  next
    case False
    then have "e' = e1" "out' = o1" using assms(1) unfolding step by simp_all
    moreover have "0 < n" using False assms(2) by (simp add: n_def min_def split: if_splits)
    ultimately show ?thesis using l False assms(2) by (simp add: fill_measure_def e1_def)
  qed
qed

function fill_loop :: "nat \<Rightarrow> nat \<Rightarrow> engine \<Rightarrow> laser_point list \<Rightarrow> (engine \<times> laser_point list) option" where
  "fill_loop pps mx e out =
     (if length out < mx
      then (case fill_step pps mx e out of Panic \<Rightarrow> None
            | Return e' out' \<Rightarrow> Some (e', out')
            | Continue e' out' \<Rightarrow> fill_loop pps mx e' out')
      else Some (e, out))"
  by pat_completeness auto
termination
  by (relation "measure (\<lambda>(pps, mx, e, out). fill_measure mx e out)") (auto intro: fill_step_measure)

declare fill_loop.simps [simp del]

definition fill_chunk :: "engine \<Rightarrow> nat \<Rightarrow> nat \<Rightarrow> nat \<Rightarrow> (engine \<times> laser_point list) option" where
  "fill_chunk e buffer_len max_points pps =
     (let max_points = min max_points buffer_len;
          e = (if drawable_dirty e then refresh_drawable e else e)
      in if current_base e = None \<or> drawable e = []
         then Some (e, replicate max_points (idle_blank e))
         else fill_loop pps max_points e [])"

subsection \<open>Frame-swap delivery\<close>

definition build_self_loop_drawable ::
  "transition_fn \<Rightarrow> laser_point list \<Rightarrow> nat \<Rightarrow> (laser_point list \<times> nat) option" where
  "build_self_loop_drawable tf base pps =
     (if base = [] then None
      else Some (case tf (last base) (hd base) pps of
          Transition pts \<Rightarrow> (pts @ base, length pts)
        | Coalesce \<Rightarrow> (take (if 1 < length base then length base - 1 else length base) base, 0)))"

definition clamp_to_capacity :: "engine \<Rightarrow> engine" where
  "clamp_to_capacity e = (case frame_capacity e of None \<Rightarrow> e
     | Some cap \<Rightarrow>
        if cap < length (drawable e) then
          (let excess = length (drawable e) - cap;
               trim = min excess (frame_swap_transition_len e);
               e = e \<lparr>drawable := drop trim (drawable e),
                      frame_swap_transition_len := frame_swap_transition_len e - trim\<rparr>
           in if cap < length (drawable e) then e \<lparr>drawable := take cap (drawable e)\<rparr> else e)
        else e)"

definition refresh_drawable_for_frame_swap :: "nat \<Rightarrow> engine \<Rightarrow> engine option" where
  "refresh_drawable_for_frame_swap pps e =
     (let e = e \<lparr>drawable := [], drawable_dirty := False, frame_swap_transition_len := 0,
                 frame_swap_composed_pps := Some pps\<rparr>
      in case current_base e of None \<Rightarrow> Some e
         | Some f \<Rightarrow> if f = [] then Some (e \<lparr>drawable := [idle_blank e]\<rparr>)
             else (case build_self_loop_drawable (transition_fn_of e) f pps of None \<Rightarrow> None
                   | Some (d, n) \<Rightarrow> Some (clamp_to_capacity (e \<lparr>drawable := d, frame_swap_transition_len := n\<rparr>))))"

definition compose_pending :: "nat \<Rightarrow> frame \<Rightarrow> engine \<Rightarrow> engine" where
  "compose_pending pps pend e =
     (let plan = seam_plan (transition_fn_of e) (current_base e) pend pps;
          e = (case plan of
                 Transition tr \<Rightarrow> e \<lparr>frame_swap_transition_len := length tr, drawable := tr @ pend\<rparr>
               | Coalesce \<Rightarrow> e \<lparr>frame_swap_transition_len := 0,
                                drawable := (if 1 < length pend then drop 1 pend else pend)\<rparr>);
          e = (if drawable e = [] then e \<lparr>drawable := [idle_blank e]\<rparr> else e);
          e = clamp_to_capacity e
      in e \<lparr>frame_swap_composed_pps := Some pps, current_base := Some pend, drawable_dirty := True\<rparr>)"

definition compose_hardware_frame :: "engine \<Rightarrow> nat \<Rightarrow> engine option" where
  "compose_hardware_frame e pps = (case pending_base e of
       Some pend \<Rightarrow> Some (compose_pending pps pend (e \<lparr>pending_base := None\<rparr>))
     | None \<Rightarrow> if drawable_dirty e \<or> frame_swap_composed_pps e \<noteq> Some pps
               then refresh_drawable_for_frame_swap pps e else Some e)"

subsection \<open>Invariant and totality\<close>

definition loop_inv :: "engine \<Rightarrow> bool" where
  "loop_inv e \<longleftrightarrow> \<not> drawable_dirty e \<and> current_base e = Some (drawable e) \<and> cursor e < length (drawable e)"

definition cleared :: "engine \<Rightarrow> bool" where
  "cleared e \<longleftrightarrow> \<not> drawable_dirty e \<and> current_base e = Some [] \<and> drawable e = []"

definition fifo_inv :: "engine \<Rightarrow> bool" where
  "fifo_inv e \<longleftrightarrow> (if drawable_dirty e then cursor e = 0 else loop_inv e \<or> cleared e \<or>
     (current_base e = None \<and> drawable e = [] \<and> cursor e = 0))"

definition same_config :: "engine \<Rightarrow> engine \<Rightarrow> bool" where
  "same_config e e' \<longleftrightarrow> idle_blank e' = idle_blank e \<and> transition_fn_of e' = transition_fn_of e \<and>
     frame_capacity e' = frame_capacity e"

lemma same_config_refl [simp]: "same_config e e"
  by (simp add: same_config_def)

lemma same_config_trans: "same_config e e' \<Longrightarrow> same_config e' e'' \<Longrightarrow> same_config e e''"
  by (simp add: same_config_def)

text \<open>One step keeps the invariant of the loop, or clears the display and fills the buffer.\<close>

definition good_outcome :: "nat \<Rightarrow> engine \<Rightarrow> laser_point list \<Rightarrow> fill_outcome \<Rightarrow> bool" where
  "good_outcome mx e out r = (case r of Panic \<Rightarrow> False
     | Continue e' out' \<Rightarrow> loop_inv e' \<and> same_config e e' \<and> length out' \<le> mx
     | Return e' out' \<Rightarrow> cleared e' \<and> same_config e e' \<and> length out' = mx)"

lemma promote_step_good:
  assumes "pending_base e \<noteq> None" "length out \<le> mx"
  shows "good_outcome mx e out (promote_step pps mx e out)"
proof -
  obtain e' where e': "promote_pending pps e = Some e'" using assms by (auto simp: promote_pending_def Let_def)
  note s = promote_pending_simps [OF e']
  have c: "current_base e' = Some (drawable e')" using s(3,4,5) by auto
  have "frame_capacity e' = frame_capacity e" using e'
    by (auto simp: promote_pending_def Let_def refresh_drawable_def split: option.splits transition_plan.splits)
  then have "same_config e e'" using s by (simp add: same_config_def)
  then show ?thesis
    using s(1,2,6) c assms(2) by (simp add: promote_step_def e' good_outcome_def loop_inv_def cleared_def)
qed

lemma seam_step_good:
  assumes "\<not> drawable_dirty e" "current_base e = Some (drawable e)" "drawable e \<noteq> []" "length out \<le> mx"
  shows "good_outcome mx e out (seam_step pps mx e out)"
proof (cases "pending_base e")
  case None
  then show ?thesis using assms
    by (auto simp: seam_step_def good_outcome_def loop_inv_def same_config_def split: transition_plan.splits)
next
  case (Some f)
  then show ?thesis using promote_step_good [of e out mx pps] assms(4) by (simp add: seam_step_def)
qed

lemma good_outcome_cong: "same_config e e1 \<Longrightarrow> good_outcome mx e1 o1 r \<Longrightarrow> good_outcome mx e out r"
  by (auto simp: good_outcome_def same_config_def split: fill_outcome.splits)

lemma fill_step_good:
  assumes "loop_inv e" "length out < mx"
  shows "good_outcome mx e out (fill_step pps mx e out)"
proof (cases "transition_cursor e < length (transition_buf e)")
  case True
  show ?thesis
  proof (cases "transition_is_self_loop e \<and> pending_base e \<noteq> None \<and> transition_cursor e = 0")
    case s: True
    let ?e = "e \<lparr>transition_buf := [], transition_is_self_loop := False\<rparr>"
    have "good_outcome mx ?e out (promote_step pps mx ?e out)" using s assms by (intro promote_step_good) simp_all
    then have "good_outcome mx e out (promote_step pps mx ?e out)"
      by (rule good_outcome_cong [rotated]) (simp add: same_config_def)
    then show ?thesis using True s by (simp add: fill_step_discard)
  next
    case False
    then show ?thesis unfolding fill_step_drain [OF True False refl]
      using assms by (simp add: good_outcome_def loop_inv_def same_config_def)
  qed
next
  case t: False
  have c: "\<not> length (drawable e) < cursor e" and nz: "drawable e \<noteq> []" using assms(1) by (auto simp: loop_inv_def)
  define n where "n = min (length (drawable e) - cursor e) (mx - length out)"
  let ?e = "e \<lparr>cursor := cursor e + n\<rparr>" and ?o = "out @ take n (drop (cursor e) (drawable e))"
  have l: "length ?o \<le> mx" using assms(2) by (simp add: n_def)
  have "good_outcome mx ?e ?o (seam_step pps mx ?e ?o)"
    using assms(1) nz l by (intro seam_step_good) (simp_all add: loop_inv_def)
  then have "good_outcome mx e out (seam_step pps mx ?e ?o)"
    by (rule good_outcome_cong [rotated]) (simp add: same_config_def)
  then show ?thesis unfolding fill_step_draw [OF t c n_def]
    using l assms(1) by (auto simp: good_outcome_def loop_inv_def same_config_def)
qed

lemma fill_loop_total:
  assumes "loop_inv e" "length out \<le> mx"
  obtains e' out' where "fill_loop pps mx e out = Some (e', out')" "length out' = mx" "same_config e e'"
    "loop_inv e' \<or> cleared e'"
proof -
  from assms have "\<exists>e' out'. fill_loop pps mx e out = Some (e', out') \<and> length out' = mx \<and> same_config e e' \<and>
     (loop_inv e' \<or> cleared e')"
  proof (induction pps mx e out rule: fill_loop.induct)
    case (1 pps mx e out)
    show ?case
    proof (cases "length out < mx")
      case True
      from fill_step_good [OF 1(2) True, of pps] show ?thesis
      proof (cases "fill_step pps mx e out")
        case (Continue e' out')
        then have g: "loop_inv e'" "same_config e e'" "length out' \<le> mx"
          using fill_step_good [OF 1(2) True, of pps] by (simp_all add: good_outcome_def)
        from 1(1) [OF True Continue g(1,3)] show ?thesis
          using True Continue same_config_trans [OF g(2)] by (auto simp: fill_loop.simps [of pps mx e out])
      qed (use True in \<open>auto simp: fill_loop.simps [of pps mx e out] good_outcome_def\<close>)
    qed (use 1 in \<open>simp add: fill_loop.simps [of pps mx e out]\<close>)
  qed
  then show ?thesis using that by blast
qed

lemma refresh_inv:
  assumes "drawable_dirty e" "cursor e = 0" "e1 = refresh_drawable e"
  shows "fifo_inv e1" "same_config e e1" "\<not> drawable_dirty e1"
  using assms by (auto simp: refresh_drawable_def Let_def fifo_inv_def loop_inv_def cleared_def same_config_def
      split: option.splits)

lemma fill_chunk_eq:
  assumes "e1 = (if drawable_dirty e then refresh_drawable e else e)"
  shows "fill_chunk e blen mx pps =
    (if current_base e1 = None \<or> drawable e1 = [] then Some (e1, replicate (min mx blen) (idle_blank e1))
     else fill_loop pps (min mx blen) e1 [])"
  by (simp only: fill_chunk_def Let_def assms)

lemma fill_chunk_total:
  assumes "fifo_inv e"
  obtains e' out where "fill_chunk e blen mx pps = Some (e', out)" "length out = min mx blen"
    "same_config e e'" "fifo_inv e'" "\<not> drawable_dirty e'"
proof -
  define e1 where "e1 = (if drawable_dirty e then refresh_drawable e else e)"
  have i: "fifo_inv e1" "same_config e e1" "\<not> drawable_dirty e1"
    using assms refresh_inv [of e e1] by (auto simp: e1_def fifo_inv_def)
  show ?thesis
  proof (cases "current_base e1 = None \<or> drawable e1 = []")
    case True
    then have "fill_chunk e blen mx pps = Some (e1, replicate (min mx blen) (idle_blank e1))"
      by (simp add: fill_chunk_eq [OF e1_def])
    then show ?thesis by (rule that [OF _ length_replicate]) (rule i)+
  next
    case False
    then have l: "loop_inv e1" using i by (auto simp: fifo_inv_def cleared_def)
    obtain e' out where r: "fill_loop pps (min mx blen) e1 [] = Some (e', out)" "length out = min mx blen"
      "same_config e1 e'" "loop_inv e' \<or> cleared e'"
      by (rule fill_loop_total [OF l, of "[]" "min mx blen" pps]) auto
    then have "fill_chunk e blen mx pps = Some (e', out)" using False by (auto simp: fill_chunk_eq [OF e1_def])
    moreover have "fifo_inv e'" "\<not> drawable_dirty e'"
      using r(4) by (auto simp: fifo_inv_def loop_inv_def cleared_def)
    ultimately show ?thesis using r(2) same_config_trans [OF i(2) r(3)] by (intro that)
  qed
qed

lemma fifo_inv_ops:
  "fifo_inv (engine_new tf)" "fifo_inv e \<Longrightarrow> fifo_inv (engine_reset e)"
  "fifo_inv e \<Longrightarrow> fifo_inv (set_pending f e)" "fifo_inv e \<Longrightarrow> fifo_inv (set_idle_blank_point p e)"
  by (auto simp: fifo_inv_def engine_new_def engine_reset_def set_pending_def set_idle_blank_point_def
      loop_inv_def cleared_def)

subsection \<open>Chunk boundaries are not observable\<close>

text \<open>
  The loop only appends, and what it appends does not depend on what was written before: a run
  with a written prefix is the run without it, shifted.
\<close>

definition shift_out :: "laser_point list \<Rightarrow> fill_outcome \<Rightarrow> fill_outcome" where
  "shift_out pre r = (case r of Panic \<Rightarrow> Panic | Continue e out \<Rightarrow> Continue e (pre @ out)
     | Return e out \<Rightarrow> Return e (pre @ out))"

lemma promote_step_shift: "promote_step pps (length pre + mx) e (pre @ out) = shift_out pre (promote_step pps mx e out)"
  by (simp add: promote_step_def shift_out_def split: option.split)

lemma seam_step_shift: "seam_step pps (length pre + mx) e (pre @ out) = shift_out pre (seam_step pps mx e out)"
  by (simp add: seam_step_def promote_step_shift) (simp add: shift_out_def split: transition_plan.split)

lemma fill_step_shift: "fill_step pps (length pre + mx) e (pre @ out) = shift_out pre (fill_step pps mx e out)"
proof (cases "transition_cursor e < length (transition_buf e)")
  case True
  show ?thesis
  proof (cases "transition_is_self_loop e \<and> pending_base e \<noteq> None \<and> transition_cursor e = 0")
    case s: True
    then show ?thesis using True by (simp add: fill_step_discard promote_step_shift)
  next
    case False
    have "mx - length out = length pre + mx - length (pre @ out)" by simp
    then show ?thesis
      unfolding fill_step_drain [OF True False refl, of pps mx] fill_step_drain [OF True False refl, of pps "length pre + mx"]
      by (simp add: shift_out_def)
  qed
next
  case t: False
  show ?thesis
  proof (cases "length (drawable e) < cursor e")
    case True
    then show ?thesis using t by (simp add: fill_step_def shift_out_def)
  next
    case c: False
    define n where "n = min (length (drawable e) - cursor e) (mx - length out)"
    have n': "n = min (length (drawable e) - cursor e) (length pre + mx - length (pre @ out))" by (simp add: n_def)
    show ?thesis
      unfolding fill_step_draw [OF t c n_def] fill_step_draw [OF t c n'] append_assoc seam_step_shift
      by (simp add: shift_out_def)
  qed
qed

lemma fill_loop_shift:
  "fill_loop pps (length pre + mx) e (pre @ out) = map_option (apsnd ((@) pre)) (fill_loop pps mx e out)"
proof (induction pps mx e out rule: fill_loop.induct)
  case (1 pps mx e out)
  show ?case
    using 1 by (cases "fill_step pps mx e out")
      (simp_all add: fill_loop.simps [of pps "length pre + mx"] fill_loop.simps [of pps mx e] fill_step_shift shift_out_def)
qed

text \<open>Stopping in the middle of a run and going on from there is the whole run.\<close>

lemma fill_loop_step: "length out < mx \<Longrightarrow> fill_step pps mx e out = Continue e' out' \<Longrightarrow>
    fill_loop pps mx e out = fill_loop pps mx e' out'"
  by (simp add: fill_loop.simps [of pps mx e])

lemma fill_loop_done: "mx \<le> length out \<Longrightarrow> fill_loop pps mx e out = Some (e, out)"
  by (simp add: fill_loop.simps [of pps mx e])

definition resume :: "nat \<Rightarrow> nat \<Rightarrow> engine \<times> laser_point list \<Rightarrow> (engine \<times> laser_point list) option" where
  "resume pps mx = (\<lambda>(e, out). if drawable e = [] then Some (e, out @ replicate (mx - length out) (idle_blank e))
     else fill_loop pps mx e out)"

lemma promote_step_more:
  assumes "length out \<le> mx" "mx \<le> mx'"
  shows "promote_step pps mx' e out = (case promote_step pps mx e out of Panic \<Rightarrow> Panic
     | Continue e' out' \<Rightarrow> Continue e' out'
     | Return e' out' \<Rightarrow> Return e' (out' @ replicate (mx' - mx) (idle_blank e')))"
  using assms by (simp add: promote_step_def replicate_add [symmetric] split: option.split)

lemma seam_step_more:
  assumes "length out \<le> mx" "mx \<le> mx'"
  shows "seam_step pps mx' e out = (case seam_step pps mx e out of Panic \<Rightarrow> Panic
     | Continue e' out' \<Rightarrow> Continue e' out'
     | Return e' out' \<Rightarrow> Return e' (out' @ replicate (mx' - mx) (idle_blank e')))"
  using promote_step_more [OF assms, of pps e] by (simp add: seam_step_def split: transition_plan.split)

lemma take_drop_more: "n \<le> m \<Longrightarrow> take n xs @ take (m - n) (drop n xs) = take m xs"
  by (rule take_append_drop_split)

text \<open>A drain or a copy cut short by the end of the buffer, and completed afterwards.\<close>

lemma drain_split:
  assumes t: "transition_cursor e < length (transition_buf e)"
    and s: "\<not> (transition_is_self_loop e \<and> pending_base e \<noteq> None \<and> transition_cursor e = 0)"
    and n: "0 < n" "n \<le> length (transition_buf e) - transition_cursor e" "length out + n \<le> mx"
  shows "fill_loop pps mx e out = fill_loop pps mx (e \<lparr>transition_cursor := transition_cursor e + n\<rparr>)
    (out @ take n (drop (transition_cursor e) (transition_buf e)))" (is "_ = fill_loop pps mx ?e ?o")
proof -
  define m where "m = min (length (transition_buf e) - transition_cursor e) (mx - length out)"
  have nm: "n \<le> m" and lo: "length out < mx" using n by (simp_all add: m_def)
  note L = fill_loop_step [OF lo fill_step_drain [OF t s m_def]]
  show ?thesis
  proof (cases "n = m")
    case True
    then show ?thesis unfolding L by simp
  next
    case False
    then have t': "transition_cursor ?e < length (transition_buf ?e)" and lo': "length ?o < mx"
      using nm n by (simp_all add: m_def)
    have s': "\<not> (transition_is_self_loop ?e \<and> pending_base ?e \<noteq> None \<and> transition_cursor ?e = 0)" using n by simp
    have m': "m - n = min (length (transition_buf ?e) - transition_cursor ?e) (mx - length ?o)"
      using n by (simp add: m_def)
    have "?o @ take (m - n) (drop (transition_cursor ?e) (transition_buf ?e)) =
        out @ take m (drop (transition_cursor e) (transition_buf e))"
      using take_drop_more [OF nm, of "drop (transition_cursor e) (transition_buf e)"]
      by (simp add: add.commute)
    then show ?thesis unfolding L fill_loop_step [OF lo' fill_step_drain [OF t' s' m']] using nm by simp
  qed
qed

lemma draw_split:
  assumes t: "\<not> transition_cursor e < length (transition_buf e)" and c: "cursor e + n < length (drawable e)"
    and n: "0 < n" "length out + n \<le> mx"
  shows "fill_loop pps mx e out = fill_loop pps mx (e \<lparr>cursor := cursor e + n\<rparr>)
    (out @ take n (drop (cursor e) (drawable e)))" (is "_ = fill_loop pps mx ?e ?o")
proof -
  define m where "m = min (length (drawable e) - cursor e) (mx - length out)"
  have nm: "n \<le> m" and lo: "length out < mx" using n c by (auto simp: m_def)
  have c0: "\<not> length (drawable e) < cursor e" and c1: "\<not> length (drawable ?e) < cursor ?e" using c by simp_all
  have t': "\<not> transition_cursor ?e < length (transition_buf ?e)" using t by simp
  have m': "m - n = min (length (drawable ?e) - cursor ?e) (mx - length ?o)" using n c by (simp add: m_def)
  have o: "?o @ take (m - n) (drop (cursor ?e) (drawable ?e)) = out @ take m (drop (cursor e) (drawable e))"
    using take_drop_more [OF nm, of "drop (cursor e) (drawable e)"] by (simp add: add.commute)
  have S: "fill_step pps mx ?e ?o = fill_step pps mx e out"
    unfolding fill_step_draw [OF t c0 m_def] fill_step_draw [OF t' c1 m'] o using nm by simp
  show ?thesis
  proof (cases "length ?o < mx")
    case True
    then show ?thesis using lo S by (simp add: fill_loop.simps [of pps mx e] fill_loop.simps [of pps mx ?e])
  next
    case False
    then have "n = m" using n nm c by (simp add: m_def)
    moreover have "\<not> length (drawable e) \<le> cursor e + m" using c \<open>n = m\<close> by simp
    ultimately show ?thesis
      using fill_loop_step [OF lo fill_step_draw [OF t c0 m_def, THEN trans, OF if_not_P]] by simp
  qed
qed

definition extend_outcome :: "nat \<Rightarrow> fill_outcome \<Rightarrow> fill_outcome" where
  "extend_outcome k r = (case r of Panic \<Rightarrow> Panic | Continue e out \<Rightarrow> Continue e out
     | Return e out \<Rightarrow> Return e (out @ replicate k (idle_blank e)))"

text \<open>When the larger bound only changes how far an idle fill goes, the runs agree after one step.\<close>

lemma more_by_step:
  assumes step: "fill_step pps mx' e out = extend_outcome (mx' - mx) (fill_step pps mx e out)"
    and g: "good_outcome mx e out (fill_step pps mx e out)" and lo: "length out < mx" "mx \<le> mx'"
    and IH: "\<And>e' out'. fill_step pps mx e out = Continue e' out' \<Longrightarrow> loop_inv e' \<Longrightarrow> length out' \<le> mx \<Longrightarrow>
      fill_loop pps mx' e' out' = Option.bind (fill_loop pps mx e' out') (resume pps mx')"
  shows "fill_loop pps mx' e out = Option.bind (fill_loop pps mx e out) (resume pps mx')"
proof (cases "fill_step pps mx e out")
  case (Continue e' out')
  then show ?thesis
    using step g lo IH [OF Continue]
    by (simp add: fill_loop.simps [of pps mx e] fill_loop.simps [of pps mx' e] extend_outcome_def good_outcome_def)
next
  case (Return e' out')
  then show ?thesis
    using step g lo
    by (simp add: fill_loop.simps [of pps mx e] fill_loop.simps [of pps mx' e] extend_outcome_def
        good_outcome_def resume_def cleared_def)
next
  case Panic
  then show ?thesis using g by (simp add: good_outcome_def)
qed

lemma fill_loop_more:
  assumes "loop_inv e" "length out \<le> mx" "mx \<le> mx'"
  shows "fill_loop pps mx' e out = Option.bind (fill_loop pps mx e out) (resume pps mx')"
  using assms
proof (induction pps mx e out rule: fill_loop.induct)
  case (1 pps mx e out)
  have nz: "drawable e \<noteq> []" "cursor e < length (drawable e)" using 1(2) by (auto simp: loop_inv_def)
  consider (full) "\<not> length out < mx"
    | (discard) "length out < mx" "transition_cursor e < length (transition_buf e)"
        "transition_is_self_loop e \<and> pending_base e \<noteq> None \<and> transition_cursor e = 0"
    | (drain) "length out < mx" "transition_cursor e < length (transition_buf e)"
        "\<not> (transition_is_self_loop e \<and> pending_base e \<noteq> None \<and> transition_cursor e = 0)"
    | (draw) "length out < mx" "\<not> transition_cursor e < length (transition_buf e)" by blast
  then show ?case
  proof cases
    case full
    then show ?thesis using nz by (simp add: fill_loop_done resume_def)
  next
    case discard
    have "fill_step pps mx' e out = extend_outcome (mx' - mx) (fill_step pps mx e out)"
      using discard 1(3,4) by (simp add: fill_step_discard promote_step_more [of out mx mx'] extend_outcome_def)
    then show ?thesis using fill_step_good [OF 1(2) discard(1)] discard(1) 1(4) 1(1) [OF discard(1)]
      by (rule more_by_step) (use 1(4) in simp_all)
  next
    case drain
    define n where "n = min (length (transition_buf e) - transition_cursor e) (mx - length out)"
    let ?e = "e \<lparr>transition_cursor := transition_cursor e + n\<rparr>"
    let ?o = "out @ take n (drop (transition_cursor e) (transition_buf e))"
    have n: "0 < n" "n \<le> length (transition_buf e) - transition_cursor e" "length out + n \<le> mx"
      using drain by (auto simp: n_def)
    have "fill_loop pps mx' ?e ?o = Option.bind (fill_loop pps mx ?e ?o) (resume pps mx')"
      using fill_step_drain [OF drain(2,3) n_def] n 1(2,4)
      by (intro 1(1) [OF drain(1)]) (auto simp: loop_inv_def)
    then show ?thesis
      using drain_split [OF drain(2,3) n(1,2), of out mx] drain_split [OF drain(2,3) n(1,2), of out mx'] n(3) 1(4)
      by simp
  next
    case draw
    define n where "n = min (length (drawable e) - cursor e) (mx - length out)"
    have c: "\<not> length (drawable e) < cursor e" using nz by simp
    show ?thesis
    proof (cases "length (drawable e) \<le> cursor e + n")
      case True
      then have n': "n = min (length (drawable e) - cursor e) (mx' - length out)" using 1(4) nz by (auto simp: n_def)
      have lo: "length (out @ take n (drop (cursor e) (drawable e))) \<le> mx" using draw(1) by (simp add: n_def)
      have "fill_step pps mx' e out = extend_outcome (mx' - mx) (fill_step pps mx e out)"
        using True seam_step_more [OF lo 1(4)]
        by (simp add: fill_step_draw [OF draw(2) c n_def] fill_step_draw [OF draw(2) c n'] extend_outcome_def)
      then show ?thesis using fill_step_good [OF 1(2) draw(1)] draw(1) 1(4) 1(1) [OF draw(1)]
        by (rule more_by_step) (use 1(4) in simp_all)
    next
      case False
      let ?e = "e \<lparr>cursor := cursor e + n\<rparr>" and ?o = "out @ take n (drop (cursor e) (drawable e))"
      have n: "cursor e + n < length (drawable e)" "0 < n" "length out + n \<le> mx" using False draw by (auto simp: n_def)
      have "fill_loop pps mx' ?e ?o = Option.bind (fill_loop pps mx ?e ?o) (resume pps mx')"
        using fill_step_draw [OF draw(2) c n_def] False n 1(2,4)
        by (intro 1(1) [OF draw(1)]) (auto simp: loop_inv_def)
      then show ?thesis
        using draw_split [OF draw(2) n(1,2), of out mx] draw_split [OF draw(2) n(1,2), of out mx'] n(3) 1(4) by simp
    qed
  qed
qed

lemma fill_chunk_split:
  assumes "fifo_inv e" "fill_chunk e a a pps = Some (e1, out1)" "fill_chunk e1 b b pps = Some (e2, out2)"
  shows "fill_chunk e (a + b) (a + b) pps = Some (e2, out1 @ out2)"
proof -
  define e0 where "e0 = (if drawable_dirty e then refresh_drawable e else e)"
  have i: "fifo_inv e0" "\<not> drawable_dirty e0" using assms(1) refresh_inv [of e e0] by (auto simp: e0_def fifo_inv_def)
  show ?thesis
  proof (cases "current_base e0 = None \<or> drawable e0 = []")
    case True
    then have 1: "e1 = e0" "out1 = replicate a (idle_blank e0)"
      using assms(2) by (auto simp: fill_chunk_eq [OF e0_def])
    then have "e2 = e0 \<and> out2 = replicate b (idle_blank e0)"
      using assms(3) True i(2) by (auto simp: fill_chunk_eq [of e0 e0])
    then show ?thesis using 1 True by (simp add: fill_chunk_eq [OF e0_def] replicate_add)
  next
    case False
    then have l: "loop_inv e0" using i by (auto simp: fifo_inv_def cleared_def)
    have 1: "fill_loop pps a e0 [] = Some (e1, out1)" using assms(2) False by (auto simp: fill_chunk_eq [OF e0_def])
    have r: "length out1 = a" "loop_inv e1 \<or> cleared e1"
      using 1 by (auto intro: fill_loop_total [OF l, of "[]" a pps])
    have d: "\<not> drawable_dirty e1" using r(2) by (auto simp: loop_inv_def cleared_def)
    have "fill_loop pps (a + b) e0 [] = resume pps (a + b) (e1, out1)"
      using fill_loop_more [OF l, of "[]" a "a + b" pps] 1 by simp
    also have "\<dots> = Some (e2, out1 @ out2)"
    proof (cases "drawable e1 = []")
      case True
      then show ?thesis using assms(3) d r(1) by (auto simp: fill_chunk_eq [of e1 e1] resume_def)
    next
      case False
      then have "loop_inv e1" using r(2) by (auto simp: cleared_def)
      then have "fill_loop pps b e1 [] = Some (e2, out2)"
        using assms(3) d False by (auto simp: fill_chunk_eq [of e1 e1] loop_inv_def)
      then have "fill_loop pps (length out1 + b) e1 (out1 @ []) = Some (e2, out1 @ out2)"
        unfolding fill_loop_shift by simp
      then show ?thesis using False r(1) by (simp add: resume_def)
    qed
    finally show ?thesis using False by (auto simp: fill_chunk_eq [OF e0_def])
  qed
qed

subsection \<open>What the stream contains\<close>

lemma emit_transition:
  assumes "transition_cursor e < length (transition_buf e)" "transition_cursor e \<noteq> 0 \<or> \<not> transition_is_self_loop e \<or> pending_base e = None"
    and "length out + (length (transition_buf e) - transition_cursor e) \<le> mx"
  shows "fill_loop pps mx e out = fill_loop pps mx (e \<lparr>transition_cursor := length (transition_buf e)\<rparr>)
    (out @ drop (transition_cursor e) (transition_buf e))"
  using drain_split [of e "length (transition_buf e) - transition_cursor e" out mx pps] assms by auto

lemma emit_frame:
  assumes "\<not> transition_cursor e < length (transition_buf e)" "cursor e < length (drawable e)"
    and "length out + (length (drawable e) - cursor e) \<le> mx"
    and "seam_step pps mx (e \<lparr>cursor := length (drawable e)\<rparr>) (out @ drop (cursor e) (drawable e)) = Continue e' out'"
  shows "fill_loop pps mx e out = fill_loop pps mx e' out'"
proof -
  have n: "length (drawable e) - cursor e = min (length (drawable e) - cursor e) (mx - length out)"
    using assms(2,3) by simp
  have "fill_step pps mx e out = Continue e' out'"
    using fill_step_draw [OF assms(1) _ n, of pps] assms(2,4) by simp
  then show ?thesis using assms(2,3) by (intro fill_loop_step) auto
qed

text \<open>The pure description of one pass: the frame followed by its self-loop transition.\<close>

definition at_frame_start :: "engine \<Rightarrow> frame \<Rightarrow> bool" where
  "at_frame_start e f \<longleftrightarrow> loop_inv e \<and> pending_base e = None \<and> drawable e = f \<and> cursor e = 0 \<and>
     \<not> transition_cursor e < length (transition_buf e)"

lemma fill_one_period:
  assumes "at_frame_start e f" "transition_fn_of e (last f) (hd f) pps = Transition tr"
  obtains e' where "fill_chunk e (length f + length tr) (length f + length tr) pps = Some (e', f @ tr)"
    "at_frame_start e' f" "transition_fn_of e' = transition_fn_of e"
proof -
  let ?n = "length f + length tr"
  let ?e1 = "e \<lparr>transition_buf := tr, transition_cursor := 0, transition_is_self_loop := True, cursor := 0\<rparr>"
  let ?e2 = "?e1 \<lparr>transition_cursor := length tr\<rparr>"
  note a = assms(1) [unfolded at_frame_start_def loop_inv_def]
  have "seam_step pps ?n (e \<lparr>cursor := length (drawable e)\<rparr>) ([] @ drop (cursor e) (drawable e)) = Continue ?e1 f"
    using a assms(2) by (auto simp: seam_step_def)
  then have "fill_loop pps ?n e [] = fill_loop pps ?n ?e1 f" using a by (intro emit_frame) auto
  also have "\<dots> = Some (?e2, f @ tr)"
  proof (cases "tr = []")
    case True
    then show ?thesis by (simp add: fill_loop_done)
  next
    case False
    then have "fill_loop pps ?n ?e1 f = fill_loop pps ?n ?e2 (f @ tr)"
      using emit_transition [of ?e1 f ?n pps] a by simp
    then show ?thesis by (simp add: fill_loop_done)
  qed
  finally have "fill_chunk e ?n ?n pps = Some (?e2, f @ tr)"
    using a by (auto simp: fill_chunk_eq [of e e])
  moreover have "at_frame_start ?e2 f" using a by (auto simp: at_frame_start_def loop_inv_def)
  ultimately show ?thesis by (rule that) simp
qed

lemma at_frame_start_fifo: "at_frame_start e f \<Longrightarrow> fifo_inv e"
  by (auto simp: at_frame_start_def fifo_inv_def loop_inv_def)

lemma fill_periods:
  assumes "at_frame_start e f" "transition_fn_of e (last f) (hd f) pps = Transition tr"
  shows "\<exists>e'. fill_chunk e (k * (length f + length tr)) (k * (length f + length tr)) pps =
    Some (e', concat (replicate k (f @ tr))) \<and> at_frame_start e' f"
  using assms
proof (induction k arbitrary: e)
  case 0
  then show ?case
    by (auto simp: fill_chunk_eq [of e e] fill_loop_done at_frame_start_def loop_inv_def)
next
  case (Suc k)
  obtain e1 where 1: "fill_chunk e (length f + length tr) (length f + length tr) pps = Some (e1, f @ tr)"
    "at_frame_start e1 f" "transition_fn_of e1 = transition_fn_of e"
    using fill_one_period [OF Suc.prems] by blast
  from Suc.IH [OF 1(2)] 1(3) Suc.prems(2) obtain e2 where 2:
    "fill_chunk e1 (k * (length f + length tr)) (k * (length f + length tr)) pps = Some (e2, concat (replicate k (f @ tr)))"
    "at_frame_start e2 f" by auto
  from fill_chunk_split [OF at_frame_start_fifo [OF Suc.prems(1)] 1(1) 2(1)] 2(2) show ?case by auto
qed

lemma fill_promotes:
  assumes "loop_inv e" "\<not> transition_cursor e < length (transition_buf e)" "pending_base e = Some b" "b \<noteq> []"
    and tr: "transition_fn_of e (last (drawable e)) (hd b) pps = Transition tr"
    and n: "n = length (drawable e) - cursor e + length tr + length b"
  shows "\<exists>e'. fill_chunk e n n pps = Some (e', drop (cursor e) (drawable e) @ tr @ b) \<and>
    current_base e' = Some b \<and> pending_base e' = None"
proof -
  note a = assms(1) [unfolded loop_inv_def]
  let ?A = "drop (cursor e) (drawable e)"
  define e1 where "e1 = e \<lparr>pending_base := None, current_base := Some b, drawable := b, drawable_dirty := False,
    transition_buf := tr, transition_cursor := 0, transition_is_self_loop := False, cursor := 0\<rparr>"
  define e2 where "e2 = e1 \<lparr>transition_cursor := length tr\<rparr>"
  have pl: "seam_plan (transition_fn_of e) (Some (drawable e)) b pps = Transition tr"
    using a tr assms(4) by (auto simp: seam_plan_def last_point_def first_point_def)
  have "seam_step pps n (e \<lparr>cursor := length (drawable e)\<rparr>) ([] @ ?A) = Continue e1 ?A"
    using a assms(3,4) pl
    by (simp add: seam_step_def promote_step_def promote_pending_def refresh_drawable_def Let_def e1_def)
  then have "fill_loop pps n e [] = fill_loop pps n e1 ?A" using a n assms(2) by (intro emit_frame) simp_all
  also have "\<dots> = fill_loop pps n e2 (?A @ tr)"
  proof (cases "tr = []")
    case True
    have "e2 = e1" using True by (intro engine.equality) (simp_all add: e1_def e2_def)
    then show ?thesis using True by simp
  next
    case False
    then show ?thesis using emit_transition [of e1 ?A n pps] n by (simp add: e1_def e2_def)
  qed
  also have "\<exists>e'. \<dots> = Some (e', (?A @ tr) @ b) \<and> current_base e' = Some b \<and> pending_base e' = None"
  proof -
    have "\<exists>e3. seam_step pps n (e2 \<lparr>cursor := length (drawable e2)\<rparr>) ((?A @ tr) @ b) = Continue e3 ((?A @ tr) @ b) \<and>
        current_base e3 = Some b \<and> pending_base e3 = None"
      using assms(4) by (auto simp: seam_step_def e1_def e2_def split: transition_plan.split)
    then obtain e3 where e3: "seam_step pps n (e2 \<lparr>cursor := length (drawable e2)\<rparr>) ((?A @ tr) @ b) = Continue e3 ((?A @ tr) @ b)"
      "current_base e3 = Some b" "pending_base e3 = None" by blast
    have "fill_loop pps n e2 (?A @ tr) = fill_loop pps n e3 ((?A @ tr) @ b)"
      using e3(1) assms(4) n by (intro emit_frame) (auto simp: e1_def e2_def)
    then show ?thesis using e3 n by (simp add: fill_loop_done)
  qed
  finally show ?thesis using a by (auto simp: fill_chunk_eq [of e e])
qed

subsection \<open>Frame-swap composition\<close>

lemma clamp_to_capacity_simps [simp]:
  "frame_capacity (clamp_to_capacity e) = frame_capacity e"
  "current_base (clamp_to_capacity e) = current_base e"
  "pending_base (clamp_to_capacity e) = pending_base e"
  "idle_blank (clamp_to_capacity e) = idle_blank e"
  "transition_fn_of (clamp_to_capacity e) = transition_fn_of e"
  "drawable_dirty (clamp_to_capacity e) = drawable_dirty e"
  "frame_swap_composed_pps (clamp_to_capacity e) = frame_swap_composed_pps e"
  by (simp_all add: clamp_to_capacity_def Let_def split: option.split)

lemma clamp_le: "frame_capacity e = Some cap \<Longrightarrow> length (drawable (clamp_to_capacity e)) \<le> cap"
  by (auto simp: clamp_to_capacity_def Let_def)

text \<open>The generated prefix is shortened first: authored points that fit are all kept, in order.\<close>

lemma clamp_keeps_authored:
  assumes "drawable e = tr @ pts" "frame_swap_transition_len e = length tr"
    and "\<And>cap. frame_capacity e = Some cap \<Longrightarrow> length pts \<le> cap"
  shows "\<exists>k. drawable (clamp_to_capacity e) = drop k tr @ pts"
proof (cases "frame_capacity e")
  case None
  then show ?thesis using assms(1) by (auto simp: clamp_to_capacity_def intro: exI [of _ 0])
next
  case (Some cap)
  then have "length pts \<le> cap" using assms(3) by blast
  then show ?thesis using assms(1,2) Some
    by (cases "cap < length (drawable e)")
       (auto simp: clamp_to_capacity_def Let_def intro: exI [of _ "length tr + length pts - cap"] exI [of _ 0])
qed

lemma refresh_swap_total: "\<exists>e'. refresh_drawable_for_frame_swap pps e = Some e'"
  by (auto simp: refresh_drawable_for_frame_swap_def build_self_loop_drawable_def Let_def split: option.split prod.split)

lemma refresh_swap_simps:
  assumes "refresh_drawable_for_frame_swap pps e = Some e'"
  shows "frame_capacity e' = frame_capacity e" "current_base e' = current_base e"
    "pending_base e' = pending_base e" "\<not> drawable_dirty e'" "frame_swap_composed_pps e' = Some pps"
    "idle_blank e' = idle_blank e"
  using assms by (auto simp: refresh_drawable_for_frame_swap_def Let_def split: option.splits if_splits)

lemma compose_total: "\<exists>e'. compose_hardware_frame e pps = Some e'"
  using refresh_swap_total by (auto simp: compose_hardware_frame_def split: option.split)

lemma refresh_swap_le:
  assumes "refresh_drawable_for_frame_swap pps e = Some e'" "frame_capacity e = Some cap" "1 \<le> cap"
  shows "length (drawable e') \<le> cap"
  using assms clamp_le
  by (auto simp: refresh_drawable_for_frame_swap_def Let_def split: option.splits if_splits)

lemma compose_pending_simps:
  "frame_capacity (compose_pending pps b e) = frame_capacity e"
  "current_base (compose_pending pps b e) = Some b" "drawable_dirty (compose_pending pps b e)"
  "pending_base (compose_pending pps b e) = pending_base e"
  "frame_swap_composed_pps (compose_pending pps b e) = Some pps"
  by (simp_all add: compose_pending_def Let_def split: transition_plan.split)

lemma compose_pending_le:
  "frame_capacity e = Some cap \<Longrightarrow> length (drawable (compose_pending pps b e)) \<le> cap"
  by (auto simp: compose_pending_def Let_def intro!: clamp_le split: transition_plan.split)

lemma compose_le:
  assumes "compose_hardware_frame e pps = Some e'" "frame_capacity e = Some cap" "1 \<le> cap" "length (drawable e) \<le> cap"
  shows "length (drawable e') \<le> cap" "frame_capacity e' = Some cap"
  using assms refresh_swap_le [of pps e e' cap] refresh_swap_simps(1) [of pps e e']
  by (auto simp: compose_hardware_frame_def compose_pending_simps intro!: compose_pending_le split: option.splits if_splits)

lemma compose_pending_content:
  assumes "b \<noteq> []" "seam_plan (transition_fn_of e) (current_base e) b pps = Transition tr"
    and "\<And>cap. frame_capacity e = Some cap \<Longrightarrow> length b \<le> cap"
  shows "\<exists>k. drawable (compose_pending pps b e) = drop k tr @ b"
  using clamp_keeps_authored [of "e \<lparr>frame_swap_transition_len := length tr, drawable := tr @ b\<rparr>" tr b] assms
  by (simp add: compose_pending_def Let_def)

lemma compose_self_loop_content:
  assumes "refresh_drawable_for_frame_swap pps e = Some e'" "current_base e = Some f" "f \<noteq> []"
    and "transition_fn_of e (last f) (hd f) pps = Transition tr"
    and "\<And>cap. frame_capacity e = Some cap \<Longrightarrow> length f \<le> cap"
  shows "\<exists>k. drawable e' = drop k tr @ f"
proof -
  let ?e = "e \<lparr>drawable_dirty := False, frame_swap_composed_pps := Some pps, drawable := tr @ f,
    frame_swap_transition_len := length tr\<rparr>"
  have "e' = clamp_to_capacity ?e"
    using assms(1-4) by (simp add: refresh_drawable_for_frame_swap_def Let_def build_self_loop_drawable_def)
  then show ?thesis using clamp_keeps_authored [of ?e tr f] assms(5) by simp
qed

subsection \<open>An empty current frame\<close>

text \<open>The operations of the FIFO path on the engine.\<close>

datatype fifo_op = Submit frame | Fill nat nat nat

fun run_fifo :: "engine \<Rightarrow> fifo_op list \<Rightarrow> (engine \<times> laser_point list) option" where
  "run_fifo e [] = Some (e, [])"
| "run_fifo e (Submit f # ops) = run_fifo (set_pending f e) ops"
| "run_fifo e (Fill blen mx pps # ops) = (case fill_chunk e blen mx pps of None \<Rightarrow> None
     | Some (e', out) \<Rightarrow> map_option (apsnd ((@) out)) (run_fifo e' ops))"

lemma cleared_stays:
  assumes "cleared e"
  shows "\<exists>e' out. run_fifo e ops = Some (e', out) \<and> cleared e' \<and> idle_blank e' = idle_blank e \<and>
    set out \<subseteq> {idle_blank e}"
  using assms
proof (induction e ops rule: run_fifo.induct)
  case (2 e f ops)
  then have "cleared (set_pending f e)" "idle_blank (set_pending f e) = idle_blank e"
    by (auto simp: set_pending_def cleared_def)
  with 2 show ?case by fastforce
next
  case (3 e blen mx pps ops)
  then have e: "fill_chunk e blen mx pps = Some (e, replicate (min mx blen) (idle_blank e))"
    by (auto simp: fill_chunk_def cleared_def)
  from 3(1) [OF this refl 3(2)] e show ?case by auto
qed auto

lemma fifo_ops_total:
  "fifo_inv e \<Longrightarrow> \<exists>e' out. run_fifo e ops = Some (e', out) \<and> fifo_inv e'"
proof (induction e ops rule: run_fifo.induct)
  case (3 e blen mx pps ops)
  obtain e1 out where 1: "fill_chunk e blen mx pps = Some (e1, out)" "fifo_inv e1"
    using fill_chunk_total [OF 3(2)] by metis
  from 3(1) [OF 1(1) refl 1(2)] 1(1) show ?case by auto
qed (auto simp: fifo_inv_ops)

subsection \<open>Properties\<close>


text \<open>
  C9 (\<open>fill_chunk\<close> across chunks): a request for \<open>a\<close> points followed by one for \<open>b\<close> points
  delivers the points, and leaves the engine, of one request for \<open>a + b\<close> points: the size of the
  scheduler's chunks is not observable in the stream.
\<close>

theorem fill_chunk_chunking:
  assumes "fifo_inv e" "fill_chunk e a a pps = Some (e1, out1)" "fill_chunk e1 b b pps = Some (e2, out2)"
  shows "fill_chunk e (a + b) (a + b) pps = Some (e2, out1 @ out2)"
  by (rule fill_chunk_split [OF assms])

theorem fill_chunk_chunking_witness:
  "\<exists>e1 out1 e2 out2. fill_chunk (engine_new default_transition) 3 3 1000 = Some (e1, out1) \<and>
     fill_chunk e1 4 4 1000 = Some (e2, out2) \<and>
     fill_chunk (engine_new default_transition) (3 + 4) (3 + 4) 1000 = Some (e2, out1 @ out2)"
proof -
  let ?e = "engine_new default_transition"
  obtain e1 out1 where 1: "fill_chunk ?e 3 3 1000 = Some (e1, out1)" "fifo_inv e1"
    using fill_chunk_total [OF fifo_inv_ops(1)] by metis
  obtain e2 out2 where 2: "fill_chunk e1 4 4 1000 = Some (e2, out2)"
    using fill_chunk_total [OF 1(2)] by metis
  show ?thesis using fill_chunk_chunking [OF fifo_inv_ops(1) 1(1) 2] 1 2 by blast
qed

text \<open>
  C18 (steady state of the FIFO stream): while no frame is pending, the stream repeats the current
  frame followed by the transition from its last point to its first, period after period.
\<close>

theorem fifo_stream_periodic:
  assumes "at_frame_start e f" "transition_fn_of e (last f) (hd f) pps = Transition tr"
  shows "\<exists>e'. fill_chunk e (k * (length f + length tr)) (k * (length f + length tr)) pps =
    Some (e', concat (replicate k (f @ tr))) \<and> at_frame_start e' f"
  by (rule fill_periods [OF assms])

text \<open>A three-point frame, and the engine that has just taken it up.\<close>

definition sample_frame :: frame where
  "sample_frame = [point_new (Fin 0) (Fin 0) 1 0 0 9, point_new (Fin (1 / 2)) (Fin 0) 2 0 0 9,
     point_new (Fin 1) (Fin 0) 3 0 0 9]"

definition sample_engine :: engine where
  "sample_engine = refresh_drawable (set_pending sample_frame
     (engine_new (\<lambda>a b pps. Transition [blanked (lp_x a) (lp_y a), blanked (lp_x b) (lp_y b)])))"

lemma sample_engine_start: "at_frame_start sample_engine sample_frame"
  by (simp add: at_frame_start_def loop_inv_def sample_engine_def sample_frame_def refresh_drawable_def
      set_pending_def engine_new_def Let_def)

lemma sample_engine_fn:
  "transition_fn_of sample_engine a b pps = Transition [blanked (lp_x a) (lp_y a), blanked (lp_x b) (lp_y b)]"
  by (simp add: sample_engine_def sample_frame_def refresh_drawable_def set_pending_def engine_new_def Let_def)

theorem fifo_stream_periodic_witness:
  "\<exists>e'. fill_chunk sample_engine 10 10 30000 = Some (e', concat (replicate 2 (sample_frame @
      [blanked (Fin 1) (Fin 0), blanked (Fin 0) (Fin 0)]))) \<and> at_frame_start e' sample_frame"
  using fifo_stream_periodic [OF sample_engine_start sample_engine_fn, of 2 30000]
  by (simp add: sample_frame_def point_new_def)

text \<open>
  C11 (frame change in the FIFO stream): with a frame pending, the current frame is finished from
  where the cursor stands, the transition from its last point to the first point of the new frame
  follows, then the new frame from its first point; nothing is skipped or repeated, and the new
  frame is current afterwards.
\<close>

theorem fifo_frame_change:
  assumes "loop_inv e" "\<not> transition_cursor e < length (transition_buf e)" "pending_base e = Some b" "b \<noteq> []"
    and "transition_fn_of e (last (drawable e)) (hd b) pps = Transition tr"
    and "n = length (drawable e) - cursor e + length tr + length b"
  shows "\<exists>e'. fill_chunk e n n pps = Some (e', drop (cursor e) (drawable e) @ tr @ b) \<and>
    current_base e' = Some b \<and> pending_base e' = None"
  by (rule fill_promotes [OF assms])

theorem fifo_frame_change_witness:
  "\<exists>e'. fill_chunk (set_pending [blanked (Fin 1) (Fin 1)] sample_engine) 6 6 30000 =
     Some (e', sample_frame @ [blanked (Fin 1) (Fin 0), blanked (Fin 1) (Fin 1), blanked (Fin 1) (Fin 1)])"
proof -
  let ?e = "set_pending [blanked (Fin 1) (Fin 1)] sample_engine"
  have s: "drawable ?e = sample_frame" "cursor ?e = 0" "current_base ?e = Some sample_frame"
    "\<not> drawable_dirty ?e" "\<not> transition_cursor ?e < length (transition_buf ?e)"
    "pending_base ?e = Some [blanked (Fin 1) (Fin 1)]" "transition_fn_of ?e = transition_fn_of sample_engine"
    using sample_engine_start by (simp_all add: set_pending_def at_frame_start_def loop_inv_def)
  have l: "loop_inv ?e" using s by (simp add: loop_inv_def sample_frame_def)
  show ?thesis
    using fifo_frame_change [OF l s(5,6), of 30000 "[blanked (Fin 1) (Fin 0), blanked (Fin 1) (Fin 1)]" 6]
    by (simp add: s sample_engine_fn) (auto simp: sample_frame_def point_new_def)
qed





end
