(* ===== verification/Content_Source.thy ===== *)
theory Content_Source
  imports Engine
begin

text \<open>
  The contract of \<^verbatim>\<open>src/src/presentation/content_source.rs\<close>: a source of slices with a single-slot
  cache. The locale \<open>cached_source\<close> states what an adapter relies on; inside it, the retry
  discipline of the adapters is shown to offer one produced slice, unchanged, until it is
  accepted. The slice pipeline and the chunk producer are its instances, each in its own theory.
  \<open>OutputFilter\<close> objects are a state with the two trait methods.
\<close>

subsection \<open>Output filters\<close>

record 'f output_filter =
  fl_state :: 'f
  fl_reset :: "output_reset_reason \<Rightarrow> 'f \<Rightarrow> 'f"
  fl_filter :: "output_filter_context \<Rightarrow> 'f \<Rightarrow> laser_point list \<Rightarrow> 'f \<times> laser_point list"

definition filter_reset :: "output_reset_reason \<Rightarrow> 'f output_filter \<Rightarrow> 'f output_filter" where
  "filter_reset r f = f \<lparr>fl_state := fl_reset f r (fl_state f)\<rparr>"

definition filter_points ::
  "output_filter_context \<Rightarrow> 'f output_filter \<Rightarrow> laser_point list \<Rightarrow> 'f output_filter \<times> laser_point list" where
  "filter_points c f ps = (let (s, qs) = fl_filter f c (fl_state f) ps in (f \<lparr>fl_state := s\<rparr>, qs))"

text \<open>A filter works on a \<open>&mut [LaserPoint]\<close>: it cannot change the number of points.\<close>

definition filter_keeps_length :: "'f output_filter \<Rightarrow> bool" where
  "filter_keeps_length f \<longleftrightarrow> (\<forall>c s ps. length (snd (fl_filter f c s ps)) = length ps)"

lemma filter_points_length:
  "filter_keeps_length f \<Longrightarrow> filter_points c f ps = (f', qs) \<Longrightarrow> length qs = length ps \<and> filter_keeps_length f'"
  unfolding filter_keeps_length_def filter_points_def Let_def by (auto split: prod.splits dest: sym) (metis snd_conv)+

lemma filter_reset_length [simp]: "filter_keeps_length f \<Longrightarrow> filter_keeps_length (filter_reset r f)"
  by (simp add: filter_reset_def filter_keeps_length_def)

subsection \<open>The cache contract\<close>

text \<open>
  The retry discipline shared by the adapters that keep a slice across steps: produce only when
  nothing is retained, offer the cached slice, commit on success. The answers of the device are a
  parameter; the result lists what was offered, in order.
\<close>

fun retain_run :: "('s \<Rightarrow> ('s \<times> laser_point list) option) \<Rightarrow> ('s \<Rightarrow> laser_point list option) \<Rightarrow>
    (nat \<Rightarrow> 's \<Rightarrow> 's) \<Rightarrow> bool \<Rightarrow> 's \<Rightarrow> write_outcome list \<Rightarrow> (laser_point list \<times> write_outcome) list option" where
  "retain_run prd cached commit retain s [] = Some []"
| "retain_run prd cached commit retain s (w # ws) =
     (case (if retain then Some (s, True) else map_option (\<lambda>(s', pts). (s', pts \<noteq> [])) (prd s)) of
        None \<Rightarrow> None
      | Some (s, r) \<Rightarrow>
          if \<not> r then retain_run prd cached commit False s ws
          else (case cached s of None \<Rightarrow> retain_run prd cached commit False s ws
            | Some pts \<Rightarrow> map_option ((#) (pts, w))
                (if w = Written then retain_run prd cached commit False (commit (length pts) s) ws
                 else retain_run prd cached commit True s ws)))"

locale cached_source =
  fixes ok :: "'s \<Rightarrow> bool"
    and produce :: "'s \<Rightarrow> nat \<Rightarrow> nat \<Rightarrow> bool \<Rightarrow> ('s \<times> laser_point list) option"
    and cached :: "'s \<Rightarrow> laser_point list option"
    and commit :: "nat \<Rightarrow> bool \<Rightarrow> 's \<Rightarrow> 's"
    and discard :: "'s \<Rightarrow> 's"
  assumes produce_ok: "ok s \<Longrightarrow> \<exists>s' pts. produce s target pps armed = Some (s', pts) \<and> ok s' \<and>
      (pts \<noteq> [] \<longrightarrow> cached s' = Some pts)"
    and commit_ok: "ok s \<Longrightarrow> cached s \<noteq> None \<Longrightarrow> ok (commit n armed s) \<and> cached (commit n armed s) = None"
    and discard_ok: "ok s \<Longrightarrow> ok (discard s) \<and> cached (discard s) = None"
begin

text \<open>While the device answers \<open>WouldBlock\<close>, the same slice is offered again and again.\<close>

lemma retry_same_slice:
  assumes "ok s" "cached s = Some pts" "pts \<noteq> []"
  shows "retain_run (\<lambda>s. produce s target pps armed) cached (\<lambda>n. commit n armed) True s
      (replicate k WouldBlock @ [Written]) = Some (replicate k (pts, WouldBlock) @ [(pts, Written)])"
  using assms by (induction k) auto

lemma offered_once_accepted:
  assumes "ok s" "produce s target pps armed = Some (s1, pts)" "pts \<noteq> []"
  shows "retain_run (\<lambda>s. produce s target pps armed) cached (\<lambda>n. commit n armed) False s
      (replicate k WouldBlock @ [Written]) = Some (replicate k (pts, WouldBlock) @ [(pts, Written)])"
proof -
  have 1: "ok s1" "cached s1 = Some pts" using produce_ok [OF assms(1), of target pps armed] assms(2,3) by auto
  show ?thesis
  proof (cases k)
    case 0
    then show ?thesis using 1 assms by simp
  next
    case (Suc j)
    then show ?thesis using retry_same_slice [OF 1 assms(3), of target pps armed j] 1 assms by simp
  qed
qed

text \<open>A run never gets stuck: whatever the device answers, the retry loop goes on.\<close>

lemma retain_run_total:
  "ok s \<Longrightarrow> (retain \<longrightarrow> cached s \<noteq> None) \<Longrightarrow>
   \<exists>offers. retain_run (\<lambda>s. produce s target pps armed) cached (\<lambda>n. commit n armed) retain s ws = Some offers \<and>
     length offers \<le> length ws"
proof (induction ws arbitrary: s retain)
  case (Cons w ws)
  have step: "\<exists>offers. map_option ((#) (pts, w)) (if w = Written
        then retain_run (\<lambda>s. produce s target pps armed) cached (\<lambda>n. commit n armed) False (commit (length pts) armed s) ws
        else retain_run (\<lambda>s. produce s target pps armed) cached (\<lambda>n. commit n armed) True s ws) = Some offers \<and>
      length offers \<le> length (w # ws)" if os: "ok s" and cs: "cached s = Some pts" for s pts
  proof (cases "w = Written")
    case True
    obtain o1 where "retain_run (\<lambda>s. produce s target pps armed) cached (\<lambda>n. commit n armed) False
        (commit (length pts) armed s) ws = Some o1" "length o1 \<le> length ws"
      using Cons.IH [of "commit (length pts) armed s" False] commit_ok [OF os, of "length pts" armed] cs by auto
    then show ?thesis using True by simp
  next
    case False
    obtain o1 where "retain_run (\<lambda>s. produce s target pps armed) cached (\<lambda>n. commit n armed) True s ws = Some o1"
        "length o1 \<le> length ws"
      using Cons.IH [of s True] os cs by auto
    then show ?thesis using False by simp
  qed
  show ?case
  proof (cases retain)
    case True
    then obtain pts where "cached s = Some pts" using Cons.prems by blast
    with step [OF Cons.prems(1)] True show ?thesis by simp
  next
    case False
    obtain s1 pts where 1: "produce s target pps armed = Some (s1, pts)" "ok s1" "pts \<noteq> [] \<longrightarrow> cached s1 = Some pts"
      using produce_ok [OF Cons.prems(1)] by blast
    show ?thesis
    proof (cases "pts = []")
      case True
      obtain o1 where "retain_run (\<lambda>s. produce s target pps armed) cached (\<lambda>n. commit n armed) False s1 ws = Some o1"
          "length o1 \<le> length ws"
        using Cons.IH [of s1 False] 1(2) by auto
      then show ?thesis using False True 1(1) by simp
    next
      case pts: False
      with step [OF 1(2)] 1 False show ?thesis by simp
    qed
  qed
qed simp

end

text \<open>A FIFO source in addition never delivers more than it was asked for.\<close>

locale fifo_source = cached_source +
  assumes produce_bound: "ok s \<Longrightarrow> produce s target pps armed = Some (s', pts) \<Longrightarrow> length pts \<le> target"
begin

lemma offers_bounded:
  "ok s \<Longrightarrow> (retain \<longrightarrow> (\<exists>pts. cached s = Some pts \<and> length pts \<le> target)) \<Longrightarrow>
   retain_run (\<lambda>s. produce s target pps armed) cached (\<lambda>n. commit n armed) retain s ws = Some offers \<Longrightarrow>
   \<forall>(pts, w) \<in> set offers. length pts \<le> target"
proof (induction ws arbitrary: s retain offers)
  case (Cons w ws)
  have step: "\<forall>(q, v) \<in> set offers. length q \<le> target"
    if os: "ok s" and cs: "cached s = Some pts" and lp: "length pts \<le> target"
      and run: "map_option ((#) (pts, w)) (if w = Written
        then retain_run (\<lambda>s. produce s target pps armed) cached (\<lambda>n. commit n armed) False (commit (length pts) armed s) ws
        else retain_run (\<lambda>s. produce s target pps armed) cached (\<lambda>n. commit n armed) True s ws) = Some offers" for s pts
  proof (cases "w = Written")
    case True
    then obtain o1 where o1: "retain_run (\<lambda>s. produce s target pps armed) cached (\<lambda>n. commit n armed) False
        (commit (length pts) armed s) ws = Some o1" "offers = (pts, w) # o1" using run by auto
    have "ok (commit (length pts) armed s)" using commit_ok [OF os] cs by simp
    from Cons.IH [OF this _ o1(1)] o1(2) lp show ?thesis by simp
  next
    case False
    then obtain o1 where o1: "retain_run (\<lambda>s. produce s target pps armed) cached (\<lambda>n. commit n armed) True s ws = Some o1"
        "offers = (pts, w) # o1" using run by auto
    from Cons.IH [OF os _ o1(1)] o1(2) cs lp show ?thesis by simp
  qed
  show ?case
  proof (cases retain)
    case True
    then obtain pts where "cached s = Some pts" "length pts \<le> target" using Cons.prems(2) by blast
    with step [OF Cons.prems(1)] True Cons.prems(3) show ?thesis by simp
  next
    case False
    obtain s1 pts where 1: "produce s target pps armed = Some (s1, pts)" "ok s1" "pts \<noteq> [] \<longrightarrow> cached s1 = Some pts"
      using produce_ok [OF Cons.prems(1)] by blast
    have b: "length pts \<le> target" using produce_bound [OF Cons.prems(1) 1(1)] .
    show ?thesis
    proof (cases "pts = []")
      case True
      then show ?thesis using Cons.IH [OF 1(2), of False offers] Cons.prems(3) False 1(1) by simp
    next
      case pts: False
      with step [OF 1(2) _ b] 1 False Cons.prems(3) show ?thesis by simp
    qed
  qed
qed simp

end

end
