(* ===== verification/Slice_Pipeline.thy ===== *)
theory Slice_Pipeline
  imports Content_Source
begin

text \<open>
  \<^verbatim>\<open>src/src/presentation/slice_pipeline.rs\<close>: the frame path's source of slices. It composes the
  engine, the disarm and startup blanking, the colour delay line and the optional output filter,
  and caches the result until it is written. The lemmas: producing never panics and fills the
  request; disarmed output and the startup window are dark; a retained slice is not touched by
  any other operation.
\<close>

record 'f slice_pipeline =
  sp_engine :: engine
  sp_color_delay :: color_delay
  sp_color_delay_duration :: duration
  sp_output_filter :: "'f output_filter option"
  sp_idle_policy :: idle_policy
  sp_buf :: "laser_point list"
  sp_cached_len :: nat
  sp_cached :: bool
  sp_startup_blank_remaining :: nat
  sp_startup_blank :: duration
  sp_last_pending_frame :: "frame option"

definition sp_with_startup_blank ::
  "engine \<Rightarrow> duration \<Rightarrow> 'f output_filter option \<Rightarrow> idle_policy \<Rightarrow> nat \<Rightarrow> duration \<Rightarrow> 'f slice_pipeline" where
  "sp_with_startup_blank e delay ofilt policy cap blank =
     \<lparr>sp_engine = (case policy of Park x y \<Rightarrow> set_idle_blank_point (blanked x y) e | _ \<Rightarrow> e),
      sp_color_delay = cd_new 0, sp_color_delay_duration = delay, sp_output_filter = ofilt,
      sp_idle_policy = policy, sp_buf = replicate cap point_default, sp_cached_len = 0,
      sp_cached = False, sp_startup_blank_remaining = 0, sp_startup_blank = blank,
      sp_last_pending_frame = None\<rparr>"

definition sp_invalidate :: "'f slice_pipeline \<Rightarrow> 'f slice_pipeline" where
  "sp_invalidate p = p \<lparr>sp_cached := False, sp_cached_len := 0\<rparr>"

definition sp_set_pending :: "frame \<Rightarrow> 'f slice_pipeline \<Rightarrow> 'f slice_pipeline" where
  "sp_set_pending f p = p \<lparr>sp_last_pending_frame := Some f, sp_engine := set_pending f (sp_engine p)\<rparr>"

definition sp_reset_engine :: "'f slice_pipeline \<Rightarrow> 'f slice_pipeline" where
  "sp_reset_engine p = sp_invalidate (p \<lparr>sp_engine := engine_reset (sp_engine p)\<rparr>)"

definition sp_set_frame_capacity :: "nat option \<Rightarrow> 'f slice_pipeline \<Rightarrow> 'f slice_pipeline" where
  "sp_set_frame_capacity cap p = p \<lparr>sp_engine := set_frame_capacity cap (sp_engine p)\<rparr>"

definition sp_set_color_delay :: "duration \<Rightarrow> 'f slice_pipeline \<Rightarrow> 'f slice_pipeline" where
  "sp_set_color_delay d p = p \<lparr>sp_color_delay_duration := d\<rparr>"

definition sp_reset_color_delay :: "'f slice_pipeline \<Rightarrow> 'f slice_pipeline" where
  "sp_reset_color_delay p = p \<lparr>sp_color_delay := cd_reset (sp_color_delay p)\<rparr>"

definition sp_reset_output_filter :: "output_reset_reason \<Rightarrow> 'f slice_pipeline \<Rightarrow> 'f slice_pipeline" where
  "sp_reset_output_filter r p = p \<lparr>sp_output_filter := map_option (filter_reset r) (sp_output_filter p)\<rparr>"

definition sp_arm_startup_blank :: "nat \<Rightarrow> 'f slice_pipeline \<Rightarrow> 'f slice_pipeline" where
  "sp_arm_startup_blank pps p = p \<lparr>sp_startup_blank_remaining := duration_to_points (sp_startup_blank p) pps\<rparr>"

definition sp_reserve_buf :: "nat \<Rightarrow> 'f slice_pipeline \<Rightarrow> 'f slice_pipeline" where
  "sp_reserve_buf n p = (if length (sp_buf p) < n
     then p \<lparr>sp_buf := sp_buf p @ replicate (n - length (sp_buf p)) point_default\<rparr> else p)"

definition apply_blanking ::
  "bool \<Rightarrow> nat \<Rightarrow> laser_point list \<Rightarrow> idle_policy \<Rightarrow> nat \<times> laser_point list" where
  "apply_blanking armed remaining buffer policy =
     (if \<not> armed then (remaining, replicate (length buffer) (park_point policy))
      else if 0 < remaining then
        (let k = min (length buffer) remaining
         in (remaining - k, blank_prefix (take k buffer) @ drop k buffer))
      else (remaining, buffer))"

text \<open>
  The common tail of \<open>produce_fifo_chunk\<close> and \<open>produce_frame_swap\<close>: blanking, colour delay and
  output filter on \<open>buf[..n]\<close>, then the cache is set. \<open>filtered\<close> says whether the filter runs.
\<close>

definition finish_slice ::
  "presented_slice_kind \<Rightarrow> bool \<Rightarrow> bool \<Rightarrow> nat \<Rightarrow> nat \<Rightarrow> bool \<Rightarrow> 'f slice_pipeline \<Rightarrow>
   ('f slice_pipeline \<times> laser_point list) option" where
  "finish_slice kind cyclic filtered n pps armed p =
     (let (remaining, ps) = apply_blanking armed (sp_startup_blank_remaining p) (take n (sp_buf p)) (sp_idle_policy p);
          cd = cd_resize (duration_to_points (sp_color_delay_duration p) pps) (sp_color_delay p)
      in case cd_apply cd ps of None \<Rightarrow> None
         | Some (cd, ps) \<Rightarrow>
           (let (ofilt, ps) = (case sp_output_filter p of
                  Some f \<Rightarrow> if filtered
                    then (let (f, qs) = filter_points \<lparr>ofc_pps = pps, ofc_kind = kind, ofc_is_cyclic = cyclic\<rparr> f ps
                          in (Some f, qs))
                    else (Some f, ps)
                | None \<Rightarrow> (None, ps));
                buf = ps @ drop n (sp_buf p)
            in Some (p \<lparr>sp_startup_blank_remaining := remaining, sp_color_delay := cd,
                        sp_output_filter := ofilt, sp_buf := buf, sp_cached_len := n, sp_cached := True\<rparr>,
                     take n buf)))"

definition produce_fifo_chunk ::
  "'f slice_pipeline \<Rightarrow> nat \<Rightarrow> nat \<Rightarrow> bool \<Rightarrow> ('f slice_pipeline \<times> laser_point list) option" where
  "produce_fifo_chunk p target_points pps armed =
     (let p = sp_reserve_buf target_points p
      in case fill_chunk (sp_engine p) (length (sp_buf p)) target_points pps of None \<Rightarrow> None
         | Some (e, out) \<Rightarrow>
           (let n = length out; p = p \<lparr>sp_engine := e, sp_buf := out @ drop n (sp_buf p)\<rparr>
            in if n = 0 then Some (sp_invalidate p, [])
               else finish_slice FifoChunk False (has_logical_frame e) n pps armed p))"

definition produce_frame_swap ::
  "'f slice_pipeline \<Rightarrow> nat \<Rightarrow> bool \<Rightarrow> ('f slice_pipeline \<times> laser_point list) option" where
  "produce_frame_swap p pps armed =
     (case compose_hardware_frame (sp_engine p) pps of None \<Rightarrow> None
      | Some e \<Rightarrow>
        (let p = p \<lparr>sp_engine := e\<rparr>; composed = drawable e; n = length composed
         in if composed = [] then Some (sp_invalidate p, [])
            else (let p = sp_reserve_buf n p; p = p \<lparr>sp_buf := composed @ drop n (sp_buf p)\<rparr>
                  in finish_slice FrameSwapFrame True True n pps armed p)))"

definition sp_cached_slice :: "'f slice_pipeline \<Rightarrow> laser_point list option" where
  "sp_cached_slice p = (if sp_cached p then Some (take (sp_cached_len p) (sp_buf p)) else None)"

definition sp_commit_written :: "nat \<Rightarrow> bool \<Rightarrow> 'f slice_pipeline \<Rightarrow> 'f slice_pipeline" where
  "sp_commit_written n armed p = sp_invalidate p"

definition replay_after_reconnect :: "'f slice_pipeline \<Rightarrow> 'f slice_pipeline" where
  "replay_after_reconnect p =
     (let p = sp_reset_color_delay (sp_reset_engine p);
          p = (case sp_last_pending_frame p of None \<Rightarrow> p
               | Some f \<Rightarrow> p \<lparr>sp_engine := set_pending f (sp_engine p)\<rparr>)
      in sp_reset_output_filter Reconnect p)"

subsection \<open>Invariant\<close>

definition sp_inv :: "'f slice_pipeline \<Rightarrow> bool" where
  "sp_inv p \<longleftrightarrow> fifo_inv (sp_engine p) \<and> cd_inv (sp_color_delay p) \<and>
     (\<forall>f. sp_output_filter p = Some f \<longrightarrow> filter_keeps_length f) \<and> sp_cached_len p \<le> length (sp_buf p)"

lemma apply_blanking_length [simp]: "length (snd (apply_blanking a r b pol)) = length b"
  by (simp add: apply_blanking_def Let_def)

text \<open>What finishing a slice of \<open>n\<close> points establishes; \<open>ds\<close> are the points before the filter.\<close>

definition finish_post ::
  "nat \<Rightarrow> nat \<Rightarrow> bool \<Rightarrow> 'f slice_pipeline \<Rightarrow> 'f slice_pipeline \<Rightarrow> laser_point list \<Rightarrow> laser_point list \<Rightarrow> bool" where
  "finish_post n pps armed p p' ps ds \<longleftrightarrow>
     length ps = n \<and> sp_cached_slice p' = Some ps \<and> sp_cached_len p' \<le> length (sp_buf p') \<and>
     sp_engine p' = sp_engine p \<and> cd_inv (sp_color_delay p') \<and>
     (\<forall>f. sp_output_filter p' = Some f \<longrightarrow> filter_keeps_length f) \<and>
     cd_apply (cd_resize (duration_to_points (sp_color_delay_duration p) pps) (sp_color_delay p))
       (snd (apply_blanking armed (sp_startup_blank_remaining p) (take n (sp_buf p)) (sp_idle_policy p))) =
       Some (sp_color_delay p', ds) \<and>
     (sp_output_filter p = None \<longrightarrow> ps = ds \<and> sp_output_filter p' = None) \<and>
     sp_startup_blank_remaining p' =
       fst (apply_blanking armed (sp_startup_blank_remaining p) (take n (sp_buf p)) (sp_idle_policy p))"

lemma finish_slice_spec:
  assumes "cd_inv (sp_color_delay p)" "\<forall>f. sp_output_filter p = Some f \<longrightarrow> filter_keeps_length f" "n \<le> length (sp_buf p)"
  shows "\<exists>p' ps ds. finish_slice kind cyc filtered n pps armed p = Some (p', ps) \<and> finish_post n pps armed p p' ps ds"
proof -
  obtain r bs where b: "apply_blanking armed (sp_startup_blank_remaining p) (take n (sp_buf p)) (sp_idle_policy p) = (r, bs)"
    by fastforce
  have lb: "length bs = n"
    using apply_blanking_length [of armed "sp_startup_blank_remaining p" "take n (sp_buf p)" "sp_idle_policy p"]
    using assms(3) unfolding b by simp
  let ?cd = "cd_resize (duration_to_points (sp_color_delay_duration p) pps) (sp_color_delay p)"
  obtain cd qs where c: "cd_apply ?cd bs = Some (cd, qs)" "cd_inv cd" "map pxy qs = map pxy bs"
    using cd_apply_law [OF cd_inv_ops(3) [OF assms(1)]] by metis
  have lq: "length qs = n" using c(3) lb by (metis length_map)
  define r2 where "r2 = (case sp_output_filter p of
        Some f \<Rightarrow> if filtered then (let (f, qs) = filter_points \<lparr>ofc_pps = pps, ofc_kind = kind, ofc_is_cyclic = cyc\<rparr> f qs
                               in (Some f, qs)) else (Some f, qs)
      | None \<Rightarrow> (None, qs))"
  obtain fl rs where r2: "r2 = (fl, rs)" by fastforce
  have f: "length rs = n \<and> (\<forall>f. fl = Some f \<longrightarrow> filter_keeps_length f) \<and>
      (sp_output_filter p = None \<longrightarrow> rs = qs \<and> fl = None)"
  proof (cases "sp_output_filter p")
    case None
    then show ?thesis using r2 lq by (simp add: r2_def)
  next
    case (Some g)
    obtain g' rs' where g: "filter_points \<lparr>ofc_pps = pps, ofc_kind = kind, ofc_is_cyclic = cyc\<rparr> g qs = (g', rs')"
      by fastforce
    have k: "filter_keeps_length g" using Some assms(2) by blast
    from filter_points_length [OF this g] Some g r2 lq k show ?thesis
      by (auto simp: r2_def split: if_splits)
  qed
  define p' where "p' = p \<lparr>sp_startup_blank_remaining := r, sp_color_delay := cd, sp_output_filter := fl,
      sp_buf := rs @ drop n (sp_buf p), sp_cached_len := n, sp_cached := True\<rparr>"
  have "finish_slice kind cyc filtered n pps armed p = Some (p', rs)"
    using f by (simp add: finish_slice_def b c(1) r2 r2_def [symmetric] p'_def)
  moreover have "finish_post n pps armed p p' rs qs"
    using f c b by (simp add: finish_post_def p'_def sp_cached_slice_def)
  ultimately show ?thesis by blast
qed

lemma produce_fifo_chunk_eq:
  assumes "p0 = sp_reserve_buf target p" "fill_chunk (sp_engine p0) (length (sp_buf p0)) target pps = Some (e, out)"
    "p1 = p0 \<lparr>sp_engine := e, sp_buf := out @ drop (length out) (sp_buf p0)\<rparr>"
  shows "produce_fifo_chunk p target pps armed = (if length out = 0 then Some (sp_invalidate p1, [])
    else finish_slice FifoChunk False (has_logical_frame e) (length out) pps armed p1)"
  using assms(2) unfolding assms(1,3) by (simp add: produce_fifo_chunk_def Let_def)

text \<open>The state in which a FIFO slice is finished.\<close>

lemma produce_fifo_chunk_spec:
  assumes "sp_inv p"
  shows "\<exists>p' ps. produce_fifo_chunk p target pps armed = Some (p', ps) \<and> sp_inv p' \<and> length ps = target \<and>
    (ps \<noteq> [] \<longrightarrow> sp_cached_slice p' = Some ps \<and> (\<exists>p1 ds. finish_post target pps armed p1 p' ps ds \<and>
      sp_color_delay p1 = sp_color_delay p \<and> sp_color_delay_duration p1 = sp_color_delay_duration p \<and>
      sp_output_filter p1 = sp_output_filter p \<and> sp_idle_policy p1 = sp_idle_policy p \<and>
      sp_startup_blank_remaining p1 = sp_startup_blank_remaining p \<and> target \<le> length (sp_buf p1)))"
proof -
  define p0 where "p0 = sp_reserve_buf target p"
  have i0: "fifo_inv (sp_engine p0)" "cd_inv (sp_color_delay p0)"
    "\<forall>f. sp_output_filter p0 = Some f \<longrightarrow> filter_keeps_length f" "target \<le> length (sp_buf p0)"
    using assms by (auto simp: p0_def sp_reserve_buf_def sp_inv_def)
  obtain e out where f: "fill_chunk (sp_engine p0) (length (sp_buf p0)) target pps = Some (e, out)"
    "length out = min target (length (sp_buf p0))" "fifo_inv e"
    using fill_chunk_total [OF i0(1)] by metis
  have lo: "length out = target" using f(2) i0(4) by simp
  define p1 where "p1 = p0 \<lparr>sp_engine := e, sp_buf := out @ drop (length out) (sp_buf p0)\<rparr>"
  note eq = produce_fifo_chunk_eq [OF p0_def f(1) p1_def, of armed]
  show ?thesis
  proof (cases "target = 0")
    case True
    then show ?thesis using eq lo i0 f(3) by (auto simp: sp_inv_def sp_invalidate_def p1_def)
  next
    case False
    have i1: "cd_inv (sp_color_delay p1)" "\<forall>f. sp_output_filter p1 = Some f \<longrightarrow> filter_keeps_length f"
      "target \<le> length (sp_buf p1)" "sp_engine p1 = e"
      using i0 lo by (simp_all add: p1_def)
    obtain p' ps ds where r: "finish_slice FifoChunk False (has_logical_frame e) target pps armed p1 = Some (p', ps)"
      and post: "finish_post target pps armed p1 p' ps ds"
      using finish_slice_spec [OF i1(1-3), of FifoChunk False "has_logical_frame e" pps armed] by blast
    have "produce_fifo_chunk p target pps armed = Some (p', ps)" using eq lo False r by simp
    moreover have "sp_inv p'" "length ps = target" "sp_cached_slice p' = Some ps"
      using post i1(4) f(3) by (simp_all add: sp_inv_def finish_post_def)
    moreover have "sp_color_delay p1 = sp_color_delay p" "sp_color_delay_duration p1 = sp_color_delay_duration p"
      "sp_output_filter p1 = sp_output_filter p" "sp_idle_policy p1 = sp_idle_policy p"
      "sp_startup_blank_remaining p1 = sp_startup_blank_remaining p"
      by (simp_all add: p1_def p0_def sp_reserve_buf_def)
    ultimately show ?thesis using post i1(3) by blast
  qed
qed

subsection \<open>The cache contract\<close>

definition sp_swap_inv :: "'f slice_pipeline \<Rightarrow> bool" where
  "sp_swap_inv p \<longleftrightarrow> cd_inv (sp_color_delay p) \<and>
     (\<forall>f. sp_output_filter p = Some f \<longrightarrow> filter_keeps_length f) \<and> sp_cached_len p \<le> length (sp_buf p)"

lemma produce_frame_swap_spec:
  assumes "sp_swap_inv p"
  shows "\<exists>p' ps. produce_frame_swap p pps armed = Some (p', ps) \<and> sp_swap_inv p' \<and>
    (ps \<noteq> [] \<longrightarrow> sp_cached_slice p' = Some ps) \<and> length ps = length (drawable (sp_engine p')) "
proof -
  obtain e where e: "compose_hardware_frame (sp_engine p) pps = Some e" using compose_total by blast
  show ?thesis
  proof (cases "drawable e = []")
    case True
    then show ?thesis using e assms by (auto simp: produce_frame_swap_def Let_def sp_invalidate_def sp_swap_inv_def)
  next
    case False
    define p0 where "p0 = sp_reserve_buf (length (drawable e)) (p \<lparr>sp_engine := e\<rparr>)"
    define p1 where "p1 = p0 \<lparr>sp_buf := drawable e @ drop (length (drawable e)) (sp_buf p0)\<rparr>"
    have i: "cd_inv (sp_color_delay p1)" "\<forall>f. sp_output_filter p1 = Some f \<longrightarrow> filter_keeps_length f"
      "length (drawable e) \<le> length (sp_buf p1)" "sp_engine p1 = e"
      using assms by (auto simp: p1_def p0_def sp_reserve_buf_def sp_swap_inv_def)
    obtain p' ps ds where r: "finish_slice FrameSwapFrame True True (length (drawable e)) pps armed p1 = Some (p', ps)"
      and post: "finish_post (length (drawable e)) pps armed p1 p' ps ds"
      using finish_slice_spec [OF i(1-3)] by blast
    have "produce_frame_swap p pps armed = Some (p', ps)"
      using e False r by (simp add: produce_frame_swap_def Let_def p1_def p0_def)
    then show ?thesis using post i(4) by (simp add: finish_post_def sp_swap_inv_def)
  qed
qed

interpretation sp_fifo: fifo_source sp_inv produce_fifo_chunk sp_cached_slice sp_commit_written sp_invalidate
proof unfold_locales
  fix p :: "'f slice_pipeline" and target pps armed p' ps
  assume i: "sp_inv p"
  then show "\<exists>s' pts. produce_fifo_chunk p target pps armed = Some (s', pts) \<and> sp_inv s' \<and>
      (pts \<noteq> [] \<longrightarrow> sp_cached_slice s' = Some pts)"
    using produce_fifo_chunk_spec [OF i, of target pps armed] by blast
  show "length ps \<le> target" if "produce_fifo_chunk p target pps armed = Some (p', ps)"
    using produce_fifo_chunk_spec [OF i, of target pps armed] that by auto
qed (auto simp: sp_commit_written_def sp_invalidate_def sp_inv_def sp_cached_slice_def)

interpretation sp_swap: cached_source sp_swap_inv "\<lambda>p target. produce_frame_swap p" sp_cached_slice
  sp_commit_written sp_invalidate
proof unfold_locales
  fix p :: "'f slice_pipeline" and pps armed
  assume i: "sp_swap_inv p"
  show "\<exists>s' pts. produce_frame_swap p pps armed = Some (s', pts) \<and> sp_swap_inv s' \<and>
      (pts \<noteq> [] \<longrightarrow> sp_cached_slice s' = Some pts)"
    using produce_frame_swap_spec [OF i, of pps armed] by blast
qed (auto simp: sp_commit_written_def sp_invalidate_def sp_swap_inv_def sp_cached_slice_def)

subsection \<open>Blanking\<close>

lemma produce_disarmed_dark:
  assumes "sp_inv p" "\<forall>c\<in>set (cd_carry (sp_color_delay p)). c = (0, 0, 0, 0)" "sp_output_filter p = None"
    "produce_fifo_chunk p target pps False = Some (p', ps)" "ps \<noteq> []"
  shows "(\<forall>q\<in>set ps. dark q \<and> pxy q = pxy (park_point (sp_idle_policy p)))"
    "\<forall>c\<in>set (cd_carry (sp_color_delay p')). c = (0, 0, 0, 0)"
proof -
  obtain p1 ds where post: "finish_post target pps False p1 p' ps ds" "sp_color_delay p1 = sp_color_delay p"
    "sp_output_filter p1 = sp_output_filter p" "sp_idle_policy p1 = sp_idle_policy p" "target \<le> length (sp_buf p1)"
    using produce_fifo_chunk_spec [OF assms(1), of target pps False] assms(4,5) by auto
  let ?cd = "cd_resize (duration_to_points (sp_color_delay_duration p1) pps) (sp_color_delay p)"
  let ?park = "replicate target (park_point (sp_idle_policy p))"
  have a: "cd_apply ?cd ?park = Some (sp_color_delay p', ps)"
    using post assms(3) by (simp add: finish_post_def apply_blanking_def)
  have ci: "cd_inv ?cd" using assms(1) by (simp add: sp_inv_def)
  from cd_apply_dark [OF ci a] cd_resize_black [OF assms(2)]
  have d: "(\<forall>q\<in>set ps. dark q) \<and> (\<forall>c\<in>set (cd_carry (sp_color_delay p')). c = (0, 0, 0, 0))" by auto
  have "map pxy ps = map pxy ?park" using cd_apply_law [OF ci, of ?park] a by (metis option.inject prod.inject)
  then have "set (map pxy ps) \<subseteq> {pxy (park_point (sp_idle_policy p))}" by auto
  then show "\<forall>q\<in>set ps. dark q \<and> pxy q = pxy (park_point (sp_idle_policy p))" using d by auto
  show "\<forall>c\<in>set (cd_carry (sp_color_delay p')). c = (0, 0, 0, 0)" using d by blast
qed

lemma apply_blanking_prefix_dark:
  assumes "i < length b" "i < r"
  shows "dark (snd (apply_blanking True r b pol) ! i)"
  using assms by (auto simp: apply_blanking_def Let_def nth_append blank_prefix_def)

lemma produce_startup_dark:
  assumes "sp_inv p" "\<forall>c\<in>set (cd_carry (sp_color_delay p)). c = (0, 0, 0, 0)" "sp_output_filter p = None"
    "produce_fifo_chunk p target pps True = Some (p', ps)"
    and i: "i < length ps" "i < sp_startup_blank_remaining p + duration_to_points (sp_color_delay_duration p) pps"
  shows "dark (ps ! i)"
proof -
  have "ps \<noteq> []" using i by auto
  then obtain p1 ds where post: "finish_post target pps True p1 p' ps ds" "sp_color_delay p1 = sp_color_delay p"
    "sp_output_filter p1 = sp_output_filter p" "sp_startup_blank_remaining p1 = sp_startup_blank_remaining p"
    "sp_color_delay_duration p1 = sp_color_delay_duration p" "target \<le> length (sp_buf p1)"
    using produce_fifo_chunk_spec [OF assms(1), of target pps True] assms(4) by auto
  define d where "d = duration_to_points (sp_color_delay_duration p) pps"
  define bs where "bs = snd (apply_blanking True (sp_startup_blank_remaining p) (take target (sp_buf p1)) (sp_idle_policy p1))"
  let ?cd = "cd_resize d (sp_color_delay p)"
  have a: "cd_apply ?cd bs = Some (sp_color_delay p', ps)" and lt: "length ps = target"
    using post assms(3) by (auto simp: finish_post_def d_def bs_def)
  have lb: "length bs = target" using post(6) by (simp add: bs_def)
  have ci: "cd_inv ?cd" using assms(1) by (simp add: sp_inv_def)
  have lc: "length (cd_carry ?cd) = d" using ci by (simp add: cd_inv_def cd_resize_def)
  have "map pcolor ps @ cd_carry (sp_color_delay p') = cd_carry ?cd @ map pcolor bs"
    using cd_apply_law [OF ci, of bs] a by (metis option.inject prod.inject)
  then have "pcolor (ps ! i) = (cd_carry ?cd @ map pcolor bs) ! i"
    using i(1) by (metis length_map nth_append nth_map)
  also have "\<dots> = (0, 0, 0, 0)"
  proof (cases "i < d")
    case True
    then show ?thesis using cd_resize_black [OF assms(2), of d] lc by (simp add: nth_append)
  next
    case False
    then have "i - d < length bs" "i - d < sp_startup_blank_remaining p" using i lt lb by (simp_all add: d_def)
    then have "dark (bs ! (i - d))"
      unfolding bs_def by (intro apply_blanking_prefix_dark) (simp_all add: bs_def)
    then show ?thesis using False lc \<open>i - d < length bs\<close> by (simp add: nth_append dark_pcolor)
  qed
  finally show ?thesis by (simp add: dark_pcolor)
qed

subsection \<open>Operations on a retained slice\<close>

datatype sp_op = OpSubmit frame | OpSetColorDelay duration | OpDisarm | OpResetFilter output_reset_reason
  | OpArmStartup nat | OpCapacity "nat option" | OpReserve nat

fun sp_apply_op :: "sp_op \<Rightarrow> 'f slice_pipeline \<Rightarrow> 'f slice_pipeline" where
  "sp_apply_op (OpSubmit f) = sp_set_pending f"
| "sp_apply_op (OpSetColorDelay d) = sp_set_color_delay d"
| "sp_apply_op OpDisarm = sp_reset_color_delay"
| "sp_apply_op (OpResetFilter r) = sp_reset_output_filter r"
| "sp_apply_op (OpArmStartup pps) = sp_arm_startup_blank pps"
| "sp_apply_op (OpCapacity c) = sp_set_frame_capacity c"
| "sp_apply_op (OpReserve n) = sp_reserve_buf n"

lemma sp_apply_op_inv: "sp_inv p \<Longrightarrow> sp_inv (sp_apply_op op p)"
  by (cases op)
     (auto simp: sp_inv_def sp_set_pending_def sp_set_color_delay_def sp_reset_color_delay_def
       sp_reset_output_filter_def sp_arm_startup_blank_def sp_set_frame_capacity_def sp_reserve_buf_def
       set_frame_capacity_def fifo_inv_ops, auto simp: fifo_inv_def loop_inv_def cleared_def)

lemma sp_apply_op_cached: "sp_inv p \<Longrightarrow> sp_cached_slice (sp_apply_op op p) = sp_cached_slice p"
  by (cases op)
     (auto simp: sp_inv_def sp_cached_slice_def sp_set_pending_def sp_set_color_delay_def sp_reset_color_delay_def
       sp_reset_output_filter_def sp_arm_startup_blank_def sp_set_frame_capacity_def sp_reserve_buf_def)

lemma sp_ops_cached:
  "sp_inv p \<Longrightarrow> sp_inv (fold sp_apply_op ops p) \<and> sp_cached_slice (fold sp_apply_op ops p) = sp_cached_slice p"
proof (induction ops arbitrary: p)
  case (Cons op ops)
  from Cons.IH [OF sp_apply_op_inv [OF Cons.prems, of op]] sp_apply_op_cached [OF Cons.prems, of op]
  show ?case by simp
qed simp

lemma sp_new_inv:
  "(\<forall>f. ofilt = Some f \<longrightarrow> filter_keeps_length f) \<Longrightarrow>
   sp_inv (sp_with_startup_blank (engine_new tf) delay ofilt policy cap blank)"
  by (auto simp: sp_inv_def sp_with_startup_blank_def fifo_inv_ops split: idle_policy.split)

subsection \<open>Properties\<close>

text \<open>A pipeline over the sample engine, without a filter, and one with a lit chunk to send.\<close>

definition sample_pipeline :: "unit slice_pipeline" where
  "sample_pipeline = (sp_with_startup_blank (engine_new default_transition) 100000 None (Park (Fin 1) (Fin 0)) 8 1000000)
     \<lparr>sp_engine := sample_engine\<rparr>"

lemma sample_pipeline_inv: "sp_inv sample_pipeline"
  using at_frame_start_fifo [OF sample_engine_start]
  by (simp add: sp_inv_def sample_pipeline_def sp_with_startup_blank_def)

lemma sample_pipeline_simps:
  "cd_carry (sp_color_delay sample_pipeline) = []" "sp_output_filter sample_pipeline = None"
  "sp_idle_policy sample_pipeline = Park (Fin 1) (Fin 0)" "sp_startup_blank_remaining sample_pipeline = 0"
  "sp_color_delay_duration sample_pipeline = 100000"
  by (simp_all add: sample_pipeline_def sp_with_startup_blank_def cd_new_def)

text \<open>
  C12 (disarmed output is dark): a chunk produced while disarmed, on a pipeline whose colour delay
  line has been cleared and that has no output filter, consists of dark points at the park
  position of the idle policy, and the delay line stays black, whatever frames are submitted.
\<close>

theorem disarmed_chunk_dark:
  assumes "sp_inv p" "\<forall>c\<in>set (cd_carry (sp_color_delay p)). c = (0, 0, 0, 0)" "sp_output_filter p = None"
    "produce_fifo_chunk p target pps False = Some (p', ps)" "ps \<noteq> []"
  shows "(\<forall>q\<in>set ps. dark q \<and> pxy q = pxy (park_point (sp_idle_policy p))) \<and>
    (\<forall>c\<in>set (cd_carry (sp_color_delay p')). c = (0, 0, 0, 0))"
  using produce_disarmed_dark [OF assms] by blast

theorem disarmed_chunk_dark_witness:
  "\<exists>p' ps. produce_fifo_chunk sample_pipeline 4 30000 False = Some (p', ps) \<and> length ps = 4 \<and> (\<forall>q\<in>set ps. dark q)"
proof -
  obtain p' ps where r: "produce_fifo_chunk sample_pipeline 4 30000 False = Some (p', ps)" "length ps = 4"
    using produce_fifo_chunk_spec [OF sample_pipeline_inv, of 4 30000 False] by blast
  then have "ps \<noteq> []" by auto
  with disarmed_chunk_dark [OF sample_pipeline_inv _ _ r(1)] r show ?thesis by (auto simp: sample_pipeline_simps)
qed





text \<open>
  C32 (reconnect): after a reconnect the pipeline holds no retained slice and a black delay line,
  the engine plays the most recently submitted frame from its first point, and nothing is
  pending.
\<close>

theorem reconnect_replays_last_frame:
  assumes "sp_inv p" "sp_last_pending_frame p = Some f"
  shows "sp_inv (replay_after_reconnect p) \<and> sp_cached_slice (replay_after_reconnect p) = None \<and>
    (\<forall>c\<in>set (cd_carry (sp_color_delay (replay_after_reconnect p))). c = (0, 0, 0, 0)) \<and>
    (f \<noteq> [] \<longrightarrow> (\<exists>e'. fill_chunk (sp_engine (replay_after_reconnect p)) (length f) (length f) pps = Some (e', f)))"
proof -
  define q where "q = replay_after_reconnect p"
  have e: "sp_engine q = set_pending f (engine_reset (sp_engine p))"
    using assms(2) by (simp add: q_def replay_after_reconnect_def Let_def sp_reset_output_filter_def
        sp_reset_color_delay_def sp_reset_engine_def sp_invalidate_def)
  have c: "sp_color_delay q = cd_reset (sp_color_delay p)" "sp_cached q = False" "sp_cached_len q = 0"
    "sp_output_filter q = map_option (filter_reset Reconnect) (sp_output_filter p)"
    using assms(2) by (simp_all add: q_def replay_after_reconnect_def Let_def sp_reset_output_filter_def
        sp_reset_color_delay_def sp_reset_engine_def sp_invalidate_def)
  have "sp_inv q" using assms(1) e c by (auto simp: sp_inv_def intro!: fifo_inv_ops)
  moreover have "\<forall>x\<in>set (cd_carry (sp_color_delay q)). x = (0, 0, 0, 0)" by (simp add: c cd_reset_def)
  moreover have "\<exists>e'. fill_chunk (sp_engine q) (length f) (length f) pps = Some (e', f)" if "f \<noteq> []"
  proof -
    define e1 where "e1 = refresh_drawable (sp_engine q)"
    have e1: "loop_inv e1" "drawable e1 = f" "cursor e1 = 0" "pending_base e1 = None"
      "\<not> transition_cursor e1 < length (transition_buf e1)"
      using that by (simp_all add: e1_def e refresh_drawable_def set_pending_def engine_reset_def Let_def loop_inv_def)
    have "\<exists>e2. seam_step pps (length f) (e1 \<lparr>cursor := length (drawable e1)\<rparr>)
        ([] @ drop (cursor e1) (drawable e1)) = Continue e2 f"
      using e1 that by (auto simp: seam_step_def split: transition_plan.split)
    then obtain e2 where "seam_step pps (length f) (e1 \<lparr>cursor := length (drawable e1)\<rparr>)
        ([] @ drop (cursor e1) (drawable e1)) = Continue e2 f" by blast
    then have "fill_loop pps (length f) e1 [] = fill_loop pps (length f) e2 f" using e1 that by (intro emit_frame) auto
    moreover have "drawable_dirty (sp_engine q)" by (simp add: e set_pending_def engine_reset_def)
    moreover have "current_base e1 \<noteq> None" using e1(1) by (simp add: loop_inv_def)
    ultimately show ?thesis using e1 that by (auto simp: fill_chunk_eq [of e1 "sp_engine q"] e1_def [symmetric] fill_loop_done)
  qed
  ultimately show ?thesis using c by (simp add: q_def [symmetric] sp_cached_slice_def)
qed

theorem reconnect_replays_last_frame_witness:
  "\<exists>e'. fill_chunk (sp_engine (replay_after_reconnect (sp_set_pending sample_frame sample_pipeline))) 3 3 30000 =
     Some (e', sample_frame)"
proof -
  have i: "sp_inv (sp_set_pending sample_frame sample_pipeline)"
    using sp_apply_op_inv [OF sample_pipeline_inv, of "OpSubmit sample_frame"] by simp
  have "length sample_frame = 3" "sample_frame \<noteq> []" by (simp_all add: sample_frame_def)
  then show ?thesis
    using reconnect_replays_last_frame [OF i, of sample_frame 30000] by (simp add: sp_set_pending_def)
qed

end
