(* ===== verification/Chunk_Producer.thy ===== *)
theory Chunk_Producer
  imports Content_Source
begin

text \<open>
  \<^verbatim>\<open>src/src/stream/chunk_producer.rs\<close> and the stream types of \<^verbatim>\<open>src/src/stream/mod.rs\<close>: the
  streaming path's source of slices, a wrapper around the application's fill callback. The
  callback is code of the application; it is a field of the state, a function of its own state,
  the request and the buffer. The colour delay that the source reads from the shared control
  handle at each call is an argument. Statistics counters wrap at 64 bits as the atomics do.
\<close>

subsection \<open>Stream instants, requests and results\<close>

type_synonym stream_instant = nat

definition add_points :: "stream_instant \<Rightarrow> nat \<Rightarrow> stream_instant" where
  "add_points t n = sat_add 64 t n"

definition sub_points :: "stream_instant \<Rightarrow> nat \<Rightarrow> stream_instant" where
  "sub_points t n = t - n"

definition as_seconds :: "stream_instant \<Rightarrow> nat \<Rightarrow> fp" where
  "as_seconds t pps = fdiv F64 (fof_int F64 (int t)) (fof_int F64 (int pps))"

definition from_seconds :: "fp \<Rightarrow> nat \<Rightarrow> stream_instant" where
  "from_seconds s pps = f2nat 64 (fmul F64 s (fof_int F64 (int pps)))"

record chunk_request =
  cr_start :: stream_instant
  cr_pps :: nat
  cr_target_points :: nat

datatype chunk_result = Filled nat | Starved | EndOfStream

record stream_stats =
  underrun_count :: nat
  reconnect_count :: nat
  chunks_written :: nat
  points_written :: nat

definition stats_zero :: stream_stats where
  "stats_zero = \<lparr>underrun_count = 0, reconnect_count = 0, chunks_written = 0, points_written = 0\<rparr>"

definition fetch_add :: "nat \<Rightarrow> nat \<Rightarrow> nat" where
  "fetch_add n x = (x + n) mod 2 ^ 64"

subsection \<open>The producer\<close>

record 'p chunk_producer =
  cp_fill :: "'p \<Rightarrow> chunk_request \<Rightarrow> laser_point list \<Rightarrow> 'p \<times> laser_point list \<times> chunk_result"
  cp_state :: 'p
  cp_idle_policy :: idle_policy
  cp_startup_blank :: duration
  cp_buf :: "laser_point list"
  cp_cached_len :: nat
  cp_cached :: bool
  cp_last_chunk :: "laser_point list"
  cp_last_chunk_len :: nat
  cp_pending_raw :: "laser_point list"
  cp_pending_raw_len :: nat
  cp_color_delay_line :: color_delay
  cp_startup_blank_remaining :: nat
  cp_current_instant :: stream_instant
  cp_stats :: stream_stats
  cp_ended :: bool
  cp_stop_error :: "error option"

definition cp_new ::
  "('p \<Rightarrow> chunk_request \<Rightarrow> laser_point list \<Rightarrow> 'p \<times> laser_point list \<times> chunk_result) \<Rightarrow> 'p \<Rightarrow>
   idle_policy \<Rightarrow> duration \<Rightarrow> nat \<Rightarrow> 'p chunk_producer" where
  "cp_new fill s policy blank cap =
     \<lparr>cp_fill = fill, cp_state = s, cp_idle_policy = policy, cp_startup_blank = blank,
      cp_buf = replicate cap point_default, cp_cached_len = 0, cp_cached = False,
      cp_last_chunk = replicate cap point_default, cp_last_chunk_len = 0,
      cp_pending_raw = replicate cap point_default, cp_pending_raw_len = 0,
      cp_color_delay_line = cd_new 0, cp_startup_blank_remaining = 0, cp_current_instant = 0,
      cp_stats = stats_zero, cp_ended = False, cp_stop_error = None\<rparr>"

definition cp_arm_startup_blank :: "nat \<Rightarrow> 'p chunk_producer \<Rightarrow> 'p chunk_producer" where
  "cp_arm_startup_blank pps c = c \<lparr>cp_startup_blank_remaining := duration_to_points (cp_startup_blank c) pps\<rparr>"

definition cp_on_disarm :: "'p chunk_producer \<Rightarrow> 'p chunk_producer" where
  "cp_on_disarm c = c \<lparr>cp_color_delay_line := cd_reset (cp_color_delay_line c)\<rparr>"

definition cp_invalidate :: "'p chunk_producer \<Rightarrow> 'p chunk_producer" where
  "cp_invalidate c = c \<lparr>cp_cached := False, cp_cached_len := 0\<rparr>"

definition grow_to :: "nat \<Rightarrow> laser_point list \<Rightarrow> laser_point list" where
  "grow_to n ps = (if length ps < n then ps @ replicate (n - length ps) point_default else ps)"

definition ensure_buf :: "nat \<Rightarrow> 'p chunk_producer \<Rightarrow> 'p chunk_producer" where
  "ensure_buf n c = c \<lparr>cp_buf := grow_to n (cp_buf c), cp_last_chunk := grow_to n (cp_last_chunk c),
     cp_pending_raw := grow_to n (cp_pending_raw c)\<rparr>"

definition build_request :: "nat \<Rightarrow> nat \<Rightarrow> 'p chunk_producer \<Rightarrow> chunk_request" where
  "build_request target_points pps c =
     \<lparr>cr_start = cp_current_instant c, cr_pps = pps, cr_target_points = target_points\<rparr>"

text \<open>Write \<open>ps\<close> at the front of the working buffer, as the in-place operations on \<open>buf[..n]\<close> do.\<close>

definition cp_write :: "laser_point list \<Rightarrow> 'p chunk_producer \<Rightarrow> 'p chunk_producer" where
  "cp_write ps c = c \<lparr>cp_buf := ps @ drop (length ps) (cp_buf c)\<rparr>"

definition cp_apply_blanking :: "nat \<Rightarrow> bool \<Rightarrow> 'p chunk_producer \<Rightarrow> 'p chunk_producer" where
  "cp_apply_blanking n armed c =
     (if \<not> armed then cp_write (replicate n (park_point (cp_idle_policy c))) c
      else if 0 < cp_startup_blank_remaining c then
        (let k = min n (cp_startup_blank_remaining c)
         in cp_write (blank_prefix (take k (cp_buf c))) c
              \<lparr>cp_startup_blank_remaining := cp_startup_blank_remaining c - k\<rparr>)
      else c)"

definition apply_blanking_and_color_delay ::
  "nat \<Rightarrow> nat \<Rightarrow> bool \<Rightarrow> duration \<Rightarrow> 'p chunk_producer \<Rightarrow> 'p chunk_producer option" where
  "apply_blanking_and_color_delay n pps armed color_delay c =
     (let c = cp_apply_blanking n armed c;
          line = cd_resize (duration_to_points color_delay pps) (cp_color_delay_line c)
      in case cd_apply line (take n (cp_buf c)) of None \<Rightarrow> None
         | Some (line, ps) \<Rightarrow> Some (cp_write ps (c \<lparr>cp_color_delay_line := line\<rparr>)))"

definition idle_points :: "nat \<Rightarrow> bool \<Rightarrow> 'p chunk_producer \<Rightarrow> laser_point list" where
  "idle_points n armed c =
     (case cp_idle_policy c of
        Park x y \<Rightarrow> replicate n (blanked x y)
      | RepeatLast \<Rightarrow> if armed \<and> 0 < cp_last_chunk_len c
          then map (\<lambda>i. cp_last_chunk c ! (i mod cp_last_chunk_len c)) [0..<n]
          else replicate n (blanked (Fin 0) (Fin 0))
      | _ \<Rightarrow> replicate n (blanked (Fin 0) (Fin 0)))"

definition fill_idle_range :: "nat \<Rightarrow> nat \<Rightarrow> bool \<Rightarrow> 'p chunk_producer \<Rightarrow> bool \<times> 'p chunk_producer" where
  "fill_idle_range lo hi armed c =
     (if armed \<and> cp_idle_policy c = StopPolicy
      then (False, c \<lparr>cp_ended := True, cp_stop_error := Some StoppedErr\<rparr>)
      else (True, c \<lparr>cp_buf := take lo (cp_buf c) @ idle_points (hi - lo) armed c @ drop hi (cp_buf c)\<rparr>))"

text \<open>
  The number of points the callback's answer leads to; \<open>None\<close> is the early return of an empty
  slice, after which the cache is invalid.
\<close>

definition resolve_result ::
  "nat \<Rightarrow> bool \<Rightarrow> chunk_result \<Rightarrow> 'p chunk_producer \<Rightarrow> nat option \<times> 'p chunk_producer" where
  "resolve_result target_points armed result c =
     (case (case result of Filled 0 \<Rightarrow> Starved | r \<Rightarrow> r) of
        Filled filled \<Rightarrow>
          (let filled = min filled target_points
           in if filled = target_points then (Some filled, c)
              else (let (go, c) = fill_idle_range filled target_points armed c
                    in if go then (Some target_points, c)
                       else if filled = 0 then (None, cp_invalidate c)
                       else (Some filled, c)))
      | Starved \<Rightarrow>
          (let c = c \<lparr>cp_stats := (cp_stats c) \<lparr>underrun_count := fetch_add 1 (underrun_count (cp_stats c))\<rparr>\<rparr>;
               (go, c) = fill_idle_range 0 target_points armed c
           in if go then (Some target_points, c) else (None, cp_invalidate c))
      | EndOfStream \<Rightarrow> (None, cp_invalidate (c \<lparr>cp_ended := True\<rparr>)))"

definition cp_produce_chunk ::
  "duration \<Rightarrow> 'p chunk_producer \<Rightarrow> nat \<Rightarrow> nat \<Rightarrow> bool \<Rightarrow> ('p chunk_producer \<times> laser_point list) option" where
  "cp_produce_chunk color_delay c target_points pps armed =
     (if cp_ended c then Some (c, [])
      else if target_points = 0 then Some (cp_invalidate c, [])
      else
        (let c = ensure_buf target_points c;
             req = build_request target_points pps c;
             (s, ps, result) = cp_fill c (cp_state c) req (take target_points (cp_buf c));
             c = cp_write ps (c \<lparr>cp_state := s\<rparr>);
             (n, c) = resolve_result target_points armed result c
         in case n of None \<Rightarrow> Some (c, [])
            | Some n \<Rightarrow>
              (let c = c \<lparr>cp_pending_raw := take n (cp_buf c) @ drop n (cp_pending_raw c), cp_pending_raw_len := n\<rparr>
               in case apply_blanking_and_color_delay n pps armed color_delay c of None \<Rightarrow> None
                  | Some c \<Rightarrow> Some (c \<lparr>cp_cached_len := n, cp_cached := True\<rparr>, take n (cp_buf c)))))"

definition cp_cached_slice :: "'p chunk_producer \<Rightarrow> laser_point list option" where
  "cp_cached_slice c = (if cp_cached c then Some (take (cp_cached_len c) (cp_buf c)) else None)"

text \<open>The copy is within \<open>last_chunk\<close> by the invariant below.\<close>

definition cp_commit_written :: "nat \<Rightarrow> bool \<Rightarrow> 'p chunk_producer \<Rightarrow> 'p chunk_producer" where
  "cp_commit_written n armed c =
     (let c = (if armed \<and> 0 < n then
                 (let copy = min n (cp_pending_raw_len c)
                  in c \<lparr>cp_last_chunk := take copy (cp_pending_raw c) @ drop copy (cp_last_chunk c),
                        cp_last_chunk_len := copy\<rparr>)
               else c)
      in cp_invalidate (c \<lparr>cp_current_instant := add_points (cp_current_instant c) n,
           cp_stats := (cp_stats c) \<lparr>chunks_written := fetch_add 1 (chunks_written (cp_stats c)),
                                    points_written := fetch_add n (points_written (cp_stats c))\<rparr>\<rparr>))"

definition cp_on_reconnect :: "dac_info \<Rightarrow> 'p chunk_producer \<Rightarrow> 'p chunk_producer" where
  "cp_on_reconnect info c =
     (let c = ensure_buf (max_points_per_chunk (di_caps info)) c
      in cp_invalidate (c \<lparr>cp_last_chunk_len := 0, cp_pending_raw_len := 0,
           cp_color_delay_line := cd_reset (cp_color_delay_line c), cp_startup_blank_remaining := 0,
           cp_stats := (cp_stats c) \<lparr>reconnect_count := fetch_add 1 (reconnect_count (cp_stats c))\<rparr>\<rparr>))"

definition cp_take_stop_error :: "'p chunk_producer \<Rightarrow> error option \<times> 'p chunk_producer" where
  "cp_take_stop_error c = (cp_stop_error c, c \<lparr>cp_stop_error := None\<rparr>)"

subsection \<open>Invariant\<close>

definition fill_keeps_length ::
  "('p \<Rightarrow> chunk_request \<Rightarrow> laser_point list \<Rightarrow> 'p \<times> laser_point list \<times> chunk_result) \<Rightarrow> bool" where
  "fill_keeps_length fill \<longleftrightarrow> (\<forall>s r ps. length (fst (snd (fill s r ps))) = length ps)"

definition cp_inv :: "'p chunk_producer \<Rightarrow> bool" where
  "cp_inv c \<longleftrightarrow> cd_inv (cp_color_delay_line c) \<and> fill_keeps_length (cp_fill c) \<and>
     cp_cached_len c \<le> length (cp_buf c) \<and> cp_pending_raw_len c \<le> length (cp_pending_raw c) \<and>
     cp_pending_raw_len c \<le> length (cp_last_chunk c) \<and> cp_last_chunk_len c \<le> length (cp_last_chunk c)"

lemma length_grow_to [simp]: "length (grow_to n ps) = max n (length ps)"
  by (simp add: grow_to_def)

lemma length_cp_write [simp]: "length ps \<le> length (cp_buf c) \<Longrightarrow> length (cp_buf (cp_write ps c)) = length (cp_buf c)"
  by (simp add: cp_write_def)

lemma length_idle_points [simp]: "length (idle_points n armed c) = n"
  by (simp add: idle_points_def split: idle_policy.split)

text \<open>The fields a step leaves alone while it works on the buffer.\<close>

definition cp_frame :: "'p chunk_producer \<Rightarrow> 'p chunk_producer \<Rightarrow> bool" where
  "cp_frame c d \<longleftrightarrow> cp_fill d = cp_fill c \<and> cp_idle_policy d = cp_idle_policy c \<and>
     length (cp_buf d) = length (cp_buf c) \<and>
     cp_last_chunk d = cp_last_chunk c \<and> cp_last_chunk_len d = cp_last_chunk_len c \<and>
     cp_color_delay_line d = cp_color_delay_line c \<and> cp_startup_blank_remaining d = cp_startup_blank_remaining c \<and>
     cp_current_instant d = cp_current_instant c \<and> cp_pending_raw d = cp_pending_raw c \<and>
     cp_pending_raw_len d = cp_pending_raw_len c \<and> cp_cached_len d \<le> cp_cached_len c"

lemma fill_idle_range_frame:
  assumes "lo \<le> hi" "hi \<le> length (cp_buf c)" "fill_idle_range lo hi armed c = (go, d)"
  shows "cp_frame c d" "go \<longleftrightarrow> \<not> (armed \<and> cp_idle_policy c = StopPolicy)"
    "\<not> go \<Longrightarrow> cp_ended d \<and> cp_stop_error d = Some StoppedErr"
    "go \<Longrightarrow> cp_ended d = cp_ended c \<and> cp_buf d = take lo (cp_buf c) @ idle_points (hi - lo) armed c @ drop hi (cp_buf c)"
  using assms by (auto simp: fill_idle_range_def cp_frame_def split: if_splits)

lemma resolve_result_frame:
  assumes t: "0 < target" "target \<le> length (cp_buf c)" and r: "resolve_result target armed result c = (n, d)"
  shows "cp_frame c d" "\<And>k. n = Some k \<Longrightarrow> 0 < k \<and> k \<le> target"
proof -
  have "cp_frame c d \<and> (\<forall>k. n = Some k \<longrightarrow> 0 < k \<and> k \<le> target)"
  proof (cases "case result of Filled 0 \<Rightarrow> Starved | r \<Rightarrow> r")
    case (Filled m)
    then have m: "0 < m" by (auto split: chunk_result.splits nat.splits)
    obtain go e where g: "fill_idle_range (min m target) target armed c = (go, e)" by fastforce
    have "cp_frame c e" using fill_idle_range_frame(1) [OF _ t(2) g] by simp
    moreover have "cp_frame c c" by (simp add: cp_frame_def)
    ultimately show ?thesis
      using r Filled g m t
      by (cases "min m target = target") (auto simp: resolve_result_def Let_def cp_invalidate_def split: if_splits)
  next
    case Starved
    let ?c = "c \<lparr>cp_stats := (cp_stats c) \<lparr>underrun_count := fetch_add 1 (underrun_count (cp_stats c))\<rparr>\<rparr>"
    obtain go e where g: "fill_idle_range 0 target armed ?c = (go, e)" by fastforce
    have "cp_frame ?c e" using fill_idle_range_frame(1) [OF _ _ g] t by simp
    then have "cp_frame c e" "cp_frame c (cp_invalidate e)" by (simp_all add: cp_frame_def cp_invalidate_def)
    then show ?thesis using r Starved g t by (auto simp: resolve_result_def Let_def split: if_splits)
  next
    case EndOfStream
    then show ?thesis using r by (auto simp: resolve_result_def cp_frame_def cp_invalidate_def)
  qed
  then show "cp_frame c d" "\<And>k. n = Some k \<Longrightarrow> 0 < k \<and> k \<le> target" by blast+
qed

definition cp_blanked :: "nat \<Rightarrow> bool \<Rightarrow> 'p chunk_producer \<Rightarrow> laser_point list" where
  "cp_blanked n armed c = (if \<not> armed then replicate n (park_point (cp_idle_policy c))
     else blank_prefix (take (min n (cp_startup_blank_remaining c)) (cp_buf c)) @
          drop (min n (cp_startup_blank_remaining c)) (take n (cp_buf c)))"

text \<open>Blanking and delay on the first \<open>n\<close> points never panic.\<close>

lemma blank_delay_spec:
  assumes "cd_inv (cp_color_delay_line c)" "n \<le> length (cp_buf c)"
  shows "\<exists>d ps. apply_blanking_and_color_delay n pps armed delay c = Some d \<and> cd_inv (cp_color_delay_line d) \<and>
    cd_apply (cd_resize (duration_to_points delay pps) (cp_color_delay_line c)) (cp_blanked n armed c) = Some (cp_color_delay_line d, ps) \<and>
    length (cp_buf d) = length (cp_buf c) \<and> take n (cp_buf d) = ps \<and> length ps = n \<and>
    cp_fill d = cp_fill c \<and> cp_last_chunk d = cp_last_chunk c \<and> cp_last_chunk_len d = cp_last_chunk_len c \<and>
    cp_pending_raw d = cp_pending_raw c \<and> cp_pending_raw_len d = cp_pending_raw_len c"
proof -
  define b where "b = cp_apply_blanking n armed c"
  have b: "cp_color_delay_line b = cp_color_delay_line c" "length (cp_buf b) = length (cp_buf c)"
    "cp_fill b = cp_fill c" "cp_last_chunk b = cp_last_chunk c" "cp_last_chunk_len b = cp_last_chunk_len c"
    "cp_pending_raw b = cp_pending_raw c" "cp_pending_raw_len b = cp_pending_raw_len c"
    using assms(2) by (simp_all add: b_def cp_apply_blanking_def cp_write_def Let_def)
  have t: "take n (cp_buf b) = cp_blanked n armed c"
    using assms(2) by (auto simp: b_def cp_apply_blanking_def cp_blanked_def cp_write_def Let_def blank_prefix_def take_drop min_def)
  have l: "length (cp_blanked n armed c) = n" using assms(2) by (simp add: cp_blanked_def)
  let ?line = "cd_resize (duration_to_points delay pps) (cp_color_delay_line c)"
  obtain line ps where a: "cd_apply ?line (cp_blanked n armed c) = Some (line, ps)" "cd_inv line"
    "map pxy ps = map pxy (cp_blanked n armed c)"
    using cd_apply_law [OF cd_inv_ops(3) [OF assms(1)]] by metis
  have lp: "length ps = n" using a(3) l by (metis length_map)
  have "apply_blanking_and_color_delay n pps armed delay c = Some (cp_write ps (b \<lparr>cp_color_delay_line := line\<rparr>))"
    unfolding apply_blanking_and_color_delay_def b_def [symmetric] Let_def b(1) t a(1) by simp
  then show ?thesis using a b lp assms(2) by (simp add: cp_write_def)
qed

text \<open>The state handed to the blanking stage, after the callback's answer was resolved to \<open>n\<close> points.\<close>

definition cp_resolved :: "nat \<Rightarrow> nat \<Rightarrow> bool \<Rightarrow> 'p chunk_producer \<Rightarrow> nat \<Rightarrow> 'p chunk_producer \<Rightarrow> bool" where
  "cp_resolved target pps armed c n d \<longleftrightarrow>
     (case cp_fill c (cp_state c) (build_request target pps (ensure_buf target c))
          (take target (cp_buf (ensure_buf target c))) of (s', qs, result) \<Rightarrow>
        resolve_result target armed result (cp_write qs (ensure_buf target c \<lparr>cp_state := s'\<rparr>)) = (Some n, d)) \<and>
     cp_color_delay_line d = cp_color_delay_line c \<and> cp_startup_blank_remaining d = cp_startup_blank_remaining c \<and>
     cp_idle_policy d = cp_idle_policy c \<and> n \<le> length (cp_buf d)"

lemma cp_produce_chunk_spec:
  assumes i: "cp_inv c"
  shows "\<exists>c' ps. cp_produce_chunk delay c target pps armed = Some (c', ps) \<and> cp_inv c' \<and> length ps \<le> target \<and>
    (ps \<noteq> [] \<longrightarrow> cp_cached_slice c' = Some ps \<and> \<not> cp_ended c \<and>
      (\<exists>d. cp_resolved target pps armed c (length ps) d \<and>
        cd_apply (cd_resize (duration_to_points delay pps) (cp_color_delay_line c)) (cp_blanked (length ps) armed d) =
          Some (cp_color_delay_line c', ps)))"
proof (cases "cp_ended c \<or> target = 0")
  case True
  then show ?thesis using i by (auto simp: cp_produce_chunk_def cp_inv_def cp_invalidate_def)
next
  case False
  define c0 where "c0 = ensure_buf target c"
  obtain s' qs result where fl: "cp_fill c0 (cp_state c0) (build_request target pps c0) (take target (cp_buf c0)) = (s', qs, result)"
    using prod_cases3 by blast
  define c1 where "c1 = cp_write qs (c0 \<lparr>cp_state := s'\<rparr>)"
  obtain n d where rr: "resolve_result target armed result c1 = (n, d)" by fastforce
  have i0: "cp_inv c0" "target \<le> length (cp_buf c0)" "target \<le> length (cp_last_chunk c0)" "target \<le> length (cp_pending_raw c0)"
    using i by (auto simp: c0_def ensure_buf_def cp_inv_def)
  have "length qs = length (take target (cp_buf c0))"
    using i0(1) fl unfolding cp_inv_def fill_keeps_length_def by (metis fst_conv snd_conv)
  then have lq: "length qs = target" using i0(2) by simp
  have c1: "length (cp_buf c1) = length (cp_buf c0)" "cp_fill c1 = cp_fill c0" "cp_cached_len c1 = cp_cached_len c0"
    "cp_last_chunk c1 = cp_last_chunk c0" "cp_last_chunk_len c1 = cp_last_chunk_len c0"
    "cp_pending_raw c1 = cp_pending_raw c0" "cp_pending_raw_len c1 = cp_pending_raw_len c0"
    "cp_color_delay_line c1 = cp_color_delay_line c0" "cp_startup_blank_remaining c1 = cp_startup_blank_remaining c0"
    "cp_idle_policy c1 = cp_idle_policy c0"
    using lq i0(2) by (simp_all add: c1_def cp_write_def)
  have c0: "cp_fill c0 = cp_fill c" "cp_state c0 = cp_state c" "cp_color_delay_line c0 = cp_color_delay_line c"
    "cp_startup_blank_remaining c0 = cp_startup_blank_remaining c" "cp_idle_policy c0 = cp_idle_policy c"
    by (simp_all add: c0_def ensure_buf_def)
  have t: "0 < target" "target \<le> length (cp_buf c1)" using False i0(2) c1 by simp_all
  note fr = resolve_result_frame [OF t rr]
  have d: "length (cp_buf d) = length (cp_buf c0)" "cp_inv d" "cp_color_delay_line d = cp_color_delay_line c"
    using fr(1) i0(1) c1 c0 by (auto simp: cp_frame_def cp_inv_def)
  have eq: "cp_produce_chunk delay c target pps armed = (case n of None \<Rightarrow> Some (d, [])
      | Some n \<Rightarrow> (let c = d \<lparr>cp_pending_raw := take n (cp_buf d) @ drop n (cp_pending_raw d), cp_pending_raw_len := n\<rparr>
               in case apply_blanking_and_color_delay n pps armed delay c of None \<Rightarrow> None
                  | Some c \<Rightarrow> Some (c \<lparr>cp_cached_len := n, cp_cached := True\<rparr>, take n (cp_buf c))))"
    using False fl rr by (simp add: cp_produce_chunk_def Let_def flip: c0_def c1_def)
  show ?thesis
  proof (cases n)
    case None
    then show ?thesis using eq d by simp
  next
    case (Some k)
    have k: "0 < k" "k \<le> target" using fr(2) [OF Some] by auto
    define e where "e = d \<lparr>cp_pending_raw := take k (cp_buf d) @ drop k (cp_pending_raw d), cp_pending_raw_len := k\<rparr>"
    have e: "cd_inv (cp_color_delay_line e)" "k \<le> length (cp_buf e)" using d k i0(2) by (simp_all add: e_def cp_inv_def)
    obtain g ps where g: "apply_blanking_and_color_delay k pps armed delay e = Some g" "cd_inv (cp_color_delay_line g)"
      "cd_apply (cd_resize (duration_to_points delay pps) (cp_color_delay_line e)) (cp_blanked k armed e) = Some (cp_color_delay_line g, ps)"
      "length (cp_buf g) = length (cp_buf e)" "take k (cp_buf g) = ps" "length ps = k" "cp_fill g = cp_fill e"
      "cp_last_chunk g = cp_last_chunk e" "cp_last_chunk_len g = cp_last_chunk_len e"
      "cp_pending_raw g = cp_pending_raw e" "cp_pending_raw_len g = cp_pending_raw_len e"
      using blank_delay_spec [OF e, of pps armed delay] by (elim exE conjE)
    define c' where "c' = g \<lparr>cp_cached_len := k, cp_cached := True\<rparr>"
    have r: "cp_produce_chunk delay c target pps armed = Some (c', ps)"
      using eq Some g(1,5) by (simp add: Let_def c'_def flip: e_def)
    have "cp_last_chunk d = cp_last_chunk c0" "cp_pending_raw d = cp_pending_raw c0" "cp_fill d = cp_fill c"
      "cp_last_chunk_len d = cp_last_chunk_len c0" "cp_startup_blank_remaining d = cp_startup_blank_remaining c"
      "cp_idle_policy d = cp_idle_policy c"
      using fr(1) c1 c0 by (simp_all add: cp_frame_def)
    note d' = this
    have "cp_inv c'"
      using g d d' i0 k e i by (simp add: cp_inv_def c'_def e_def)
    moreover have "cp_cached_slice c' = Some ps" using g by (simp add: cp_cached_slice_def c'_def)
    moreover have "cp_blanked k armed e = cp_blanked k armed d" by (simp add: cp_blanked_def e_def)
    then have "cd_apply (cd_resize (duration_to_points delay pps) (cp_color_delay_line c)) (cp_blanked (length ps) armed d) =
        Some (cp_color_delay_line c', ps)" using g d(3) by (simp add: c'_def e_def)
    moreover have "length ps \<le> length (cp_buf d)" using g e by (simp add: e_def)
    then have "cp_resolved target pps armed c (length ps) d"
      unfolding cp_resolved_def c0_def [symmetric] c0(1,2) [symmetric] fl
      using rr Some g(6) d(3) d' c0(3-5) by (simp add: c1_def)
    ultimately show ?thesis using r k g(6) False by blast
  qed
qed

interpretation cp_fifo: fifo_source cp_inv "cp_produce_chunk delay" cp_cached_slice cp_commit_written cp_invalidate for delay
proof unfold_locales
  fix c :: "'p chunk_producer" and target pps armed c' ps
  assume i: "cp_inv c"
  show "\<exists>s' pts. cp_produce_chunk delay c target pps armed = Some (s', pts) \<and> cp_inv s' \<and>
      (pts \<noteq> [] \<longrightarrow> cp_cached_slice s' = Some pts)"
    using cp_produce_chunk_spec [OF i, of delay target pps armed] by blast
  show "length ps \<le> target" if "cp_produce_chunk delay c target pps armed = Some (c', ps)"
    using cp_produce_chunk_spec [OF i, of delay target pps armed] that by auto
qed (auto simp: cp_commit_written_def cp_invalidate_def cp_inv_def cp_cached_slice_def Let_def)

lemma cp_inv_ops:
  "fill_keeps_length fill \<Longrightarrow> cp_inv (cp_new fill s policy blank cap)"
  "cp_inv c \<Longrightarrow> cp_inv (cp_arm_startup_blank pps c)" "cp_inv c \<Longrightarrow> cp_inv (cp_on_disarm c)"
  "cp_inv c \<Longrightarrow> cp_inv (cp_on_reconnect info c)" "cp_inv c \<Longrightarrow> cp_inv (ensure_buf n c)"
  by (auto simp: cp_inv_def cp_new_def cp_arm_startup_blank_def cp_on_disarm_def cp_on_reconnect_def ensure_buf_def
      Let_def cp_invalidate_def)

lemma cp_disarmed_dark:
  fixes c :: "'p chunk_producer"
  assumes "cp_inv c" "\<forall>x\<in>set (cd_carry (cp_color_delay_line c)). x = (0, 0, 0, 0)"
    "cp_produce_chunk delay c target pps False = Some (c', ps)"
  shows "\<forall>q\<in>set ps. dark q"
proof (cases "ps = []")
  case False
  obtain c1 ps1 where s: "cp_produce_chunk delay c target pps False = Some (c1, ps1)"
    "ps1 \<noteq> [] \<longrightarrow> (\<exists>d. cd_apply (cd_resize (duration_to_points delay pps) (cp_color_delay_line c))
        (cp_blanked (length ps1) False (d :: 'p chunk_producer)) = Some (cp_color_delay_line c1, ps1))"
    using cp_produce_chunk_spec [OF assms(1), of delay target pps False] by blast
  then obtain d :: "'p chunk_producer" where
    a: "cd_apply (cd_resize (duration_to_points delay pps) (cp_color_delay_line c)) (cp_blanked (length ps) False d) =
      Some (cp_color_delay_line c', ps)"
    using assms(3) False by auto
  have "cd_inv (cd_resize (duration_to_points delay pps) (cp_color_delay_line c))" using assms(1) by (simp add: cp_inv_def)
  moreover have "\<forall>p\<in>set (cp_blanked (length ps) False d). dark p" by (simp add: cp_blanked_def)
  ultimately show ?thesis using cd_apply_dark [OF _ a cd_resize_black [OF assms(2)]] by simp
qed simp

lemma cp_starved_resolve:
  assumes "0 < target" "target \<le> length (cp_buf c)" "result = Starved \<or> result = Filled 0"
    "\<not> (armed \<and> cp_idle_policy c = StopPolicy)" "resolve_result target armed result c = (n, d)"
  shows "n = Some target \<and> take target (cp_buf d) = idle_points target armed c"
proof -
  let ?c = "c \<lparr>cp_stats := (cp_stats c) \<lparr>underrun_count := fetch_add 1 (underrun_count (cp_stats c))\<rparr>\<rparr>"
  obtain go e where g: "fill_idle_range 0 target armed ?c = (go, e)" by fastforce
  have "go" "cp_buf e = idle_points target armed ?c @ drop target (cp_buf c)"
    using fill_idle_range_frame(2,4) [OF _ _ g] assms(2,4) by auto
  moreover have "idle_points target armed ?c = idle_points target armed c"
    by (auto simp: idle_points_def split: idle_policy.split)
  ultimately show ?thesis using assms(3,5) g by (auto simp: resolve_result_def Let_def)
qed

lemma cp_repeat_last:
  assumes i: "cp_inv c" and ne: "\<not> cp_ended c" "0 < target"
    and p: "cp_idle_policy c = RepeatLast" "0 < cp_last_chunk_len c"
    and st: "\<And>r ps. snd (snd (cp_fill c (cp_state c) r ps)) = Starved"
    and nb: "cp_startup_blank_remaining c = 0"
  shows "\<exists>c' ps. cp_produce_chunk 0 c target pps True = Some (c', ps) \<and>
    ps = map (\<lambda>i. cp_last_chunk c ! (i mod cp_last_chunk_len c)) [0..<target]"
proof -
  define c0 where "c0 = ensure_buf target c"
  obtain s' qs result where fl: "cp_fill c (cp_state c) (build_request target pps c0) (take target (cp_buf c0)) = (s', qs, result)"
    using prod_cases3 by blast
  have res: "result = Starved" using st [of "build_request target pps c0" "take target (cp_buf c0)"] fl by simp
  define c1 where "c1 = cp_write qs (c0 \<lparr>cp_state := s'\<rparr>)"
  have "length qs = length (take target (cp_buf c0))"
    using i fl unfolding cp_inv_def fill_keeps_length_def by (metis fst_conv snd_conv)
  then have b: "target \<le> length (cp_buf c1)" by (simp add: c1_def cp_write_def c0_def ensure_buf_def)
  obtain n d where rr: "resolve_result target True result c1 = (n, d)" by fastforce
  have pol: "cp_idle_policy c1 = RepeatLast" using p(1) by (simp add: c1_def c0_def cp_write_def ensure_buf_def)
  have n: "n = Some target" "take target (cp_buf d) = idle_points target True c1"
    using cp_starved_resolve [OF ne(2) b _ _ rr] res pol by auto
  obtain c' ps where r: "cp_produce_chunk 0 c target pps True = Some (c', ps)"
    using cp_produce_chunk_spec [OF i, of 0 target pps True] by blast
  have fr: "cp_frame c1 d" "length (cp_buf d) = length (cp_buf c1)"
    using resolve_result_frame(1) [OF ne(2) b rr] by (simp_all add: cp_frame_def)
  have "cp_produce_chunk 0 c target pps True = (case apply_blanking_and_color_delay target pps True 0
      (d \<lparr>cp_pending_raw := take target (cp_buf d) @ drop target (cp_pending_raw d), cp_pending_raw_len := target\<rparr>) of
        None \<Rightarrow> None | Some c \<Rightarrow> Some (c \<lparr>cp_cached_len := target, cp_cached := True\<rparr>, take target (cp_buf c)))"
    using ne fl rr n(1) by (simp add: cp_produce_chunk_def Let_def c0_def c1_def ensure_buf_def)
  moreover have "cp_startup_blank_remaining d = 0"
    using fr(1) nb by (simp add: cp_frame_def c1_def c0_def cp_write_def ensure_buf_def)
  ultimately have "ps = take target (cp_buf d)"
    using r b fr(2)
    by (auto simp: apply_blanking_and_color_delay_def cp_apply_blanking_def duration_to_points_def cd_resize_def cd_apply_def
        cp_write_def Let_def split: if_splits)
  also have "\<dots> = map (\<lambda>i. cp_last_chunk c1 ! (i mod cp_last_chunk_len c1)) [0..<target]"
    using n(2) pol p(2) by (simp add: idle_points_def c1_def c0_def cp_write_def ensure_buf_def)
  also have "\<dots> = map (\<lambda>i. cp_last_chunk c ! (i mod cp_last_chunk_len c)) [0..<target]"
  proof -
    have "i mod cp_last_chunk_len c < length (cp_last_chunk c)" for i
      using p(2) \<open>cp_inv c\<close> by (meson cp_inv_def less_le_trans mod_less_divisor)
    then show ?thesis by (simp add: c1_def c0_def cp_write_def ensure_buf_def grow_to_def nth_append)
  qed
  finally show ?thesis using r by blast
qed

subsection \<open>Properties\<close>

text \<open>A callback that never has data, after two lit points were committed.\<close>

definition sample_producer :: "unit chunk_producer" where
  "sample_producer = (cp_new (\<lambda>s r ps. (s, ps, Starved)) () RepeatLast 0 4)
     \<lparr>cp_last_chunk := sample_frame @ [point_default], cp_last_chunk_len := 3\<rparr>"

lemma sample_producer_inv: "cp_inv sample_producer"
  by (simp add: cp_inv_def sample_producer_def cp_new_def sample_frame_def fill_keeps_length_def)





text \<open>
  C29 (disarmed streaming output): while disarmed, with a cleared delay line, every delivered point
  is dark, whatever the callback writes.
\<close>

theorem chunk_producer_disarmed_dark:
  assumes "cp_inv c" "\<forall>x\<in>set (cd_carry (cp_color_delay_line c)). x = (0, 0, 0, 0)"
    "cp_produce_chunk delay c target pps False = Some (c', ps)"
  shows "\<forall>q\<in>set ps. dark q"
  by (rule cp_disarmed_dark [OF assms])

theorem chunk_producer_disarmed_dark_witness:
  "\<exists>c' ps. cp_produce_chunk 0 sample_producer 4 30000 False = Some (c', ps) \<and> (\<forall>q\<in>set ps. dark q)"
proof -
  obtain c' ps where r: "cp_produce_chunk 0 sample_producer 4 30000 False = Some (c', ps)"
    using cp_produce_chunk_spec [OF sample_producer_inv, of 0 4 30000 False] by blast
  have "\<forall>x\<in>set (cd_carry (cp_color_delay_line sample_producer)). x = (0, 0, 0, 0)"
    by (simp add: sample_producer_def cp_new_def cd_new_def)
  from chunk_producer_disarmed_dark [OF sample_producer_inv this r] r show ?thesis by blast
qed

text \<open>
  C37 (\<open>IdlePolicy::Stop\<close>): when the armed callback has no data under the stop policy, the source
  delivers nothing, ends for good and records the stop error, which is handed out once.
\<close>

theorem starved_stop_policy_ends:
  assumes "cp_inv c" "\<not> cp_ended c" "0 < target" "cp_idle_policy c = StopPolicy"
    and "snd (snd (cp_fill c (cp_state c) (build_request target pps (ensure_buf target c))
           (take target (cp_buf (ensure_buf target c))))) = Starved"
  shows "\<exists>c'. cp_produce_chunk delay c target pps True = Some (c', []) \<and> cp_ended c' \<and>
    cp_cached_slice c' = None \<and> fst (cp_take_stop_error c') = Some StoppedErr \<and>
    fst (cp_take_stop_error (snd (cp_take_stop_error c'))) = None \<and>
    (\<forall>t p a. cp_produce_chunk delay c' t p a = Some (c', []))"
proof -
  obtain s' qs result where fl: "cp_fill c (cp_state c) (build_request target pps (ensure_buf target c))
      (take target (cp_buf (ensure_buf target c))) = (s', qs, result)"
    using prod_cases3 by blast
  then show ?thesis
    using assms(2-5)
    by (auto simp: cp_produce_chunk_def Let_def resolve_result_def fill_idle_range_def cp_write_def ensure_buf_def
        cp_invalidate_def cp_cached_slice_def cp_take_stop_error_def)
qed

theorem starved_stop_policy_ends_witness:
  "\<exists>c'. cp_produce_chunk 0 (sample_producer \<lparr>cp_idle_policy := StopPolicy\<rparr>) 4 30000 True = Some (c', []) \<and>
     fst (cp_take_stop_error c') = Some StoppedErr"
proof -
  have "cp_inv (sample_producer \<lparr>cp_idle_policy := StopPolicy\<rparr>)" using sample_producer_inv by (simp add: cp_inv_def)
  from starved_stop_policy_ends [OF this, of 4 30000 0] show ?thesis
    by (simp add: sample_producer_def cp_new_def ensure_buf_def) blast
qed

end
