(* ===== verification/Session_Control.thy ===== *)
theory Session_Control
  imports Config
begin

text \<open>
  \<^verbatim>\<open>src/src/session.rs\<close>: the control handle shared between the application's threads and the
  driver. The desired state is one 64-bit word, its low bit the armed flag and the rest a
  generation that advances with every edge. \<open>set_desired_armed\<close> is a compare-exchange loop: the
  word that each attempt finds in memory is a parameter, so that every interleaving with other
  threads is covered. The channel to the driver is a queue together with the liveness of its
  receiver.
\<close>

datatype session_exit = SessStopped | ProducerEnded | SessDisconnected | IncompatibleDevice

datatype control_msg = MsgArm | MsgDisarm | MsgStop

type_synonym desired_state = u64

definition ds_initial :: desired_state where
  "ds_initial = 0"

definition ds_is_armed :: "desired_state \<Rightarrow> bool" where
  "ds_is_armed w \<longleftrightarrow> w AND 1 \<noteq> 0"

record rate_state =
  rs_pps :: nat
  rs_min :: nat
  rs_max :: nat

record session_control =
  ctl_desired :: desired_state
  ctl_stop :: bool
  ctl_queue :: "control_msg list"
  ctl_receiver_alive :: bool
  ctl_color_delay :: duration
  ctl_rate :: rate_state

definition control_new :: "duration \<Rightarrow> nat \<Rightarrow> nat \<Rightarrow> nat \<Rightarrow> session_control" where
  "control_new delay pps lo hi =
     \<lparr>ctl_desired = ds_initial, ctl_stop = False, ctl_queue = [], ctl_receiver_alive = True,
      ctl_color_delay = delay, ctl_rate = \<lparr>rs_pps = pps, rs_min = lo, rs_max = hi\<rparr>\<rparr>"

definition armed_bit :: "bool \<Rightarrow> u64" where
  "armed_bit a = (if a then 1 else 0)"

definition next_desired :: "bool \<Rightarrow> desired_state \<Rightarrow> desired_state" where
  "next_desired armed current = ((current + 2) AND NOT 1) OR armed_bit armed"

text \<open>
  The loop of \<open>set_desired_armed\<close>. The list gives the word found in memory by each
  \<open>compare_exchange\<close>. The result is the word the loop ended on and whether it was written;
  \<open>None\<close> means that the loop is still running after these attempts.
\<close>

fun cas_loop :: "bool \<Rightarrow> desired_state \<Rightarrow> desired_state list \<Rightarrow> (desired_state \<times> bool) option" where
  "cas_loop armed current found =
     (if current AND 1 = armed_bit armed then Some (current, False)
      else case found of [] \<Rightarrow> None
        | m # ms \<Rightarrow> if m = current then Some (next_desired armed current, True)
                    else cas_loop armed m ms)"

definition send_msg :: "control_msg \<Rightarrow> string \<Rightarrow> session_control \<Rightarrow> unit result \<times> session_control" where
  "send_msg m err c = (if ctl_receiver_alive c then (Inr (), c \<lparr>ctl_queue := ctl_queue c @ [m]\<rparr>)
     else (Inl (DisconnectedErr err), c))"

text \<open>The whole call without interference: the loop runs against the word in memory.\<close>

definition set_desired_armed :: "bool \<Rightarrow> control_msg \<Rightarrow> session_control \<Rightarrow> unit result \<times> session_control" where
  "set_desired_armed armed m c =
     send_msg m ''desired session state recorded, but scheduler notification failed''
       (case cas_loop armed (ctl_desired c) [ctl_desired c] of
          Some (w, True) \<Rightarrow> c \<lparr>ctl_desired := w\<rparr>
        | _ \<Rightarrow> c)"

definition arm :: "session_control \<Rightarrow> unit result \<times> session_control" where
  "arm c = set_desired_armed True MsgArm c"

definition disarm :: "session_control \<Rightarrow> unit result \<times> session_control" where
  "disarm c = set_desired_armed False MsgDisarm c"

definition ctl_is_armed :: "session_control \<Rightarrow> bool" where
  "ctl_is_armed c = ds_is_armed (ctl_desired c)"

definition ctl_set_color_delay :: "duration \<Rightarrow> session_control \<Rightarrow> session_control" where
  "ctl_set_color_delay d c = c \<lparr>ctl_color_delay := d\<rparr>"

definition set_pps :: "nat \<Rightarrow> session_control \<Rightarrow> unit result \<times> session_control" where
  "set_pps pps c =
     (if pps < rs_min (ctl_rate c) \<or> rs_max (ctl_rate c) < pps
      then (Inl (InvalidConfig ''PPS outside active backend range''), c)
      else (Inr (), c \<lparr>ctl_rate := (ctl_rate c) \<lparr>rs_pps := pps\<rparr>\<rparr>))"

definition update_pps_bounds :: "nat \<Rightarrow> nat \<Rightarrow> session_control \<Rightarrow> unit result \<times> session_control" where
  "update_pps_bounds lo hi c =
     (if rs_pps (ctl_rate c) < lo \<or> hi < rs_pps (ctl_rate c)
      then (Inl (InvalidConfig ''current PPS outside replacement backend range''), c)
      else (Inr (), c \<lparr>ctl_rate := (ctl_rate c) \<lparr>rs_min := lo, rs_max := hi\<rparr>\<rparr>))"

definition stop_session :: "session_control \<Rightarrow> unit result \<times> session_control" where
  "stop_session c = send_msg MsgStop ''session stop recorded, but scheduler notification failed''
     (c \<lparr>ctl_stop := True\<rparr>)"

subsection \<open>The desired word\<close>

definition generation :: "desired_state \<Rightarrow> nat" where
  "generation w = unat w div 2"

lemma and_1_unat: "unat (w AND 1 :: u64) = unat w mod 2"
  by (simp add: and_one_eq unat_mod)

lemma armed_iff_odd: "ds_is_armed w \<longleftrightarrow> odd (unat w)"
proof -
  have "w AND 1 = 0 \<longleftrightarrow> unat (w AND 1) = 0" by (simp only: unsigned_eq_0_iff)
  then show ?thesis unfolding ds_is_armed_def and_1_unat by presburger
qed

lemma armed_bit_iff: "w AND 1 = armed_bit a \<longleftrightarrow> (ds_is_armed w \<longleftrightarrow> a)"
proof -
  have "w AND 1 = 0 \<or> w AND 1 = 1" by (simp add: and_one_eq mod2_eq_if)
  then show ?thesis by (auto simp: ds_is_armed_def armed_bit_def)
qed

lemma drop_next: "drop_bit 1 (next_desired a w) = drop_bit 1 (w + 2)"
proof (rule bit_word_eqI)
  fix n assume "n < LENGTH(64)"
  have 1: "\<not> bit (1 :: u64) (1 + n)" "\<not> bit (armed_bit a) (1 + n)" by (simp_all add: bit_simps armed_bit_def)
  have "bit (w + 2) (1 + n) \<Longrightarrow> 1 + n < LENGTH(64)" by (rule bit_imp_le_length)
  then have "bit (next_desired a w) (1 + n) = bit (w + 2) (1 + n)"
    using 1 unfolding next_desired_def bit_or_iff bit_and_iff bit_not_iff by auto
  then show "bit (drop_bit 1 (next_desired a w)) n = bit (drop_bit 1 (w + 2)) n"
    by (simp only: bit_drop_bit_eq comp_def)
qed

lemma generation_drop: "generation w = unat (drop_bit 1 w)"
  by (simp add: generation_def drop_bit_eq_div unat_div)

lemma mod_div_2: "(a mod (2 * n)) div 2 = (a div 2) mod (n :: nat)"
  by (simp add: mod_mult2_eq)

lemma generation_next: "generation (next_desired a w) = (generation w + 1) mod 2 ^ 63"
proof -
  have "generation (next_desired a w) = unat (w + 2) div 2"
    unfolding generation_drop drop_next by (simp add: drop_bit_eq_div unat_div)
  also have "unat (w + 2) = (unat w + 2) mod (2 * 2 ^ 63)" by (simp add: unat_word_ariths)
  also have "\<dots> div 2 = (unat w + 2) div 2 mod 2 ^ 63" by (rule mod_div_2)
  finally show ?thesis by (simp add: generation_def)
qed

lemma armed_next: "ds_is_armed (next_desired a w) \<longleftrightarrow> a"
proof -
  have "bit (next_desired a w) 0 = a"
    by (simp add: next_desired_def armed_bit_def bit_simps)
  moreover have "bit v 0 = odd v" for v :: u64 by (simp add: bit_0)
  moreover have "ds_is_armed v \<longleftrightarrow> odd v" for v :: u64 by (simp add: ds_is_armed_def and_one_eq mod2_eq_if)
  ultimately show ?thesis by simp
qed

text \<open>Edges: writes of the loop. Any number of them below \<open>2 ^ 63\<close> gives a different word.\<close>

fun edges :: "bool list \<Rightarrow> desired_state \<Rightarrow> desired_state" where
  "edges [] w = w"
| "edges (a # as) w = edges as (next_desired a w)"

lemma generation_edges: "generation (edges as w) = (generation w + length as) mod 2 ^ 63"
proof (induction as arbitrary: w)
  case Nil
  have "unat w < 2 ^ 64" using unsigned_less [of w] by simp
  then have "generation w < 2 ^ 63" by (simp add: generation_def)
  then show ?case by simp
next
  case (Cons a as)
  then show ?case by (simp add: generation_next mod_simps)
qed

lemma edges_differ:
  assumes "0 < length as" "length as < 2 ^ 63"
  shows "edges as w \<noteq> w"
proof
  assume "edges as w = w"
  then have e: "(generation w + length as) mod 2 ^ 63 = generation w mod 2 ^ 63"
    using generation_edges [of as w] generation_edges [of "[]" w] by simp
  then have "length as mod 2 ^ 63 = 0" by (simp add: mod_eq_dvd_iff_nat)
  then show False using assms by simp
qed

lemma cas_loop_result:
  assumes "cas_loop a cur found = Some (w, wrote)"
  shows "ds_is_armed w \<longleftrightarrow> a"
    "wrote \<Longrightarrow> \<exists>m. m \<in> set found \<and> w = next_desired a m \<and> ds_is_armed m = (\<not> a)"
  using assms
proof (induction a cur found rule: cas_loop.induct)
  case (1 a cur found)
  {
    case 1
    show ?case
      using 1 "1.IH" by (cases found) (auto simp: armed_bit_iff armed_next split: if_splits)
  next
    case 2
    show ?case
      using 2 "1.IH" by (cases found) (auto simp: armed_bit_iff split: if_splits)
  }
qed

text \<open>An attempt fails only when another thread has written: progress of the system as a whole.\<close>

lemma cas_loop_running:
  "cas_loop a cur found = None \<Longrightarrow> ds_is_armed cur = (\<not> a) \<and>
   (\<forall>i < length found. found ! i \<noteq> (cur # found) ! i \<and> ds_is_armed (found ! i) = (\<not> a))"
proof (induction a cur found rule: cas_loop.induct)
  case (1 a cur found)
  show ?case
  proof (cases found)
    case (Cons m ms)
    have c: "ds_is_armed cur = (\<not> a)" "m \<noteq> cur" "cas_loop a m ms = None"
      using "1.prems" Cons by (auto simp: armed_bit_iff split: if_splits)
    have "\<not> cur AND 1 = armed_bit a" using c(1) by (simp add: armed_bit_iff)
    from "1.IH" [OF this Cons c(2,3)]
    have ih: "ds_is_armed m = (\<not> a)" "\<forall>i<length ms. ms ! i \<noteq> (m # ms) ! i \<and> ds_is_armed (ms ! i) = (\<not> a)" by auto
    show ?thesis using c ih Cons by (auto simp: less_Suc_eq_0_disj)
  qed (use "1.prems" in \<open>auto simp: armed_bit_iff split: if_splits\<close>)
qed

lemma set_desired_armed_effect:
  "ctl_is_armed (snd (set_desired_armed a m c)) = a"
  "ctl_desired (snd (set_desired_armed a m c)) =
     (if ctl_is_armed c = a then ctl_desired c else next_desired a (ctl_desired c))"
  by (auto simp: set_desired_armed_def send_msg_def ctl_is_armed_def armed_bit_iff armed_next)

lemma rate_inv_kept:
  assumes "rs_min (ctl_rate c) \<le> rs_pps (ctl_rate c)" "rs_pps (ctl_rate c) \<le> rs_max (ctl_rate c)"
  shows "rs_min (ctl_rate (snd (set_pps p c))) \<le> rs_pps (ctl_rate (snd (set_pps p c)))"
    "rs_pps (ctl_rate (snd (set_pps p c))) \<le> rs_max (ctl_rate (snd (set_pps p c)))"
    "rs_min (ctl_rate (snd (update_pps_bounds lo hi c))) \<le> rs_pps (ctl_rate (snd (update_pps_bounds lo hi c)))"
    "rs_pps (ctl_rate (snd (update_pps_bounds lo hi c))) \<le> rs_max (ctl_rate (snd (update_pps_bounds lo hi c)))"
  using assms by (auto simp: set_pps_def update_pps_bounds_def)

subsection \<open>Properties\<close>

text \<open>
  C14 (arm and disarm are linearizable edges): whatever other threads write between its attempts,
  when the compare-exchange loop of \<open>set_desired_armed\<close> ends, the word it ended on has the
  requested armed bit, and a word it wrote is the successor of a word with the opposite bit whose
  generation is one higher; and it can only keep running while every attempt finds a word newly
  written by another thread.
\<close>

theorem set_desired_armed_linearizable:
  "(cas_loop a cur found = Some (w, wrote) \<longrightarrow> (ds_is_armed w \<longleftrightarrow> a) \<and>
      (wrote \<longrightarrow> (\<exists>m \<in> set found. ds_is_armed m = (\<not> a) \<and> w = next_desired a m \<and>
        generation w = (generation m + 1) mod 2 ^ 63))) \<and>
   (cas_loop a cur found = None \<longrightarrow> (\<forall>i < length found. found ! i \<noteq> (cur # found) ! i))"
proof (intro conjI impI)
  assume r: "cas_loop a cur found = Some (w, wrote)"
  show "ds_is_armed w \<longleftrightarrow> a" by (rule cas_loop_result(1) [OF r])
  show "\<exists>m \<in> set found. ds_is_armed m = (\<not> a) \<and> w = next_desired a m \<and>
      generation w = (generation m + 1) mod 2 ^ 63" if wrote
    using cas_loop_result(2) [OF r that] generation_next by auto
qed (use cas_loop_running [of a cur found] in blast)

theorem set_desired_armed_linearizable_witness:
  "cas_loop True 0 [2, 2] = Some (5, True) \<and> (ds_is_armed 5 \<longleftrightarrow> True) \<and> cas_loop True 0 [2, 4] = None"
proof -
  have "cas_loop True 0 [2, 2] = Some (5, True)" "cas_loop True 0 [2, 4] = None"
    by (simp_all add: armed_bit_def next_desired_def)
  then show ?thesis using set_desired_armed_linearizable [of True 0 "[2, 2]" 5 True] by blast
qed

text \<open>
  C27 (no edge is lost): the driver compares the desired word with the one it has handled. After
  any number of arm and disarm edges from 1 up to \<open>2 ^ 63 - 1\<close>, an even number that leaves the
  armed bit as it was included, the words differ.
\<close>

theorem desired_word_no_aba:
  assumes "0 < length as" "length as < 2 ^ 63"
  shows "edges as w \<noteq> w"
  by (rule edges_differ [OF assms])

theorem desired_word_no_aba_witness: "edges [True, False] 0 \<noteq> 0 \<and> (ds_is_armed (edges [True, False] 0) = ds_is_armed 0)"
  using desired_word_no_aba [of "[True, False]" 0] by (simp add: armed_next) (simp add: ds_is_armed_def)

end
