(* ===== verification/Buffer_Estimate.thy ===== *)
theory Buffer_Estimate
  imports Time_Model
begin

text \<open>
  \<^verbatim>\<open>src/src/buffer_estimate\<close>: the four estimators of how many points a device still has to play.
  Each is a record with the operations of its Rust type; \<open>Instant\<close>s are nanoseconds and the decay is
  the \<open>f64\<close> computation of the source. The locale \<open>buffer_estimator\<close> is the contract of the trait
  as the schedulers use it (waiting never makes the estimate grow); every estimator is an
  instance. A queue depth source of an audio runtime is a parameter: its depth and sample rate.
\<close>

text \<open>Times for which the seconds of a duration are exact in \<open>f64\<close>: below \<open>2 ^ 53\<close> seconds.\<close>

definition clock_ok :: "instant \<Rightarrow> bool" where
  "clock_ok t \<longleftrightarrow> t div nanos_per_sec < 2 ^ 53"

lemma clock_ok_mono: "t \<le> u \<Longrightarrow> clock_ok u \<Longrightarrow> clock_ok t"
  by (auto simp: clock_ok_def intro: le_less_trans [OF div_le_mono])

lemma points_in_clock_mono:
  assumes "t \<le> u" "clock_ok u" "pps < 2 ^ 32"
  shows "points_in w (t - a) pps \<le> points_in w (u - a) pps"
  using assms clock_ok_mono [of "u - a" u] by (intro points_in_mono) (simp_all add: clock_ok_def)

locale buffer_estimator =
  fixes fullness :: "'e \<Rightarrow> instant \<Rightarrow> nat \<Rightarrow> nat"
    and rate_ok :: "'e \<Rightarrow> nat \<Rightarrow> bool"
  assumes fullness_decays: "t \<le> u \<Longrightarrow> clock_ok u \<Longrightarrow> rate_ok e pps \<Longrightarrow> fullness e u pps \<le> fullness e t pps"
begin

text \<open>What a scheduler still has to send to reach its target never shrinks while it waits.\<close>

lemma deficit_grows:
  "t \<le> u \<Longrightarrow> clock_ok u \<Longrightarrow> rate_ok e pps \<Longrightarrow> target - fullness e t pps \<le> target - fullness e u pps"
  using fullness_decays by (simp add: diff_le_mono2)

text \<open>Once the estimate is below the target it stays below it.\<close>

lemma stays_below:
  "fullness e t pps < target \<Longrightarrow> t \<le> u \<Longrightarrow> clock_ok u \<Longrightarrow> rate_ok e pps \<Longrightarrow> fullness e u pps < target"
  using fullness_decays le_less_trans by blast

end

subsection \<open>Software decay\<close>

record software_decay =
  sd_fullness :: nat
  sd_anchor :: instant

definition sd_new :: "instant \<Rightarrow> software_decay" where
  "sd_new now = \<lparr>sd_fullness = 0, sd_anchor = now\<rparr>"

definition sd_reset :: "instant \<Rightarrow> software_decay \<Rightarrow> software_decay" where
  "sd_reset now e = e \<lparr>sd_fullness := 0, sd_anchor := now\<rparr>"

definition sd_read_at :: "software_decay \<Rightarrow> instant \<Rightarrow> nat \<Rightarrow> nat" where
  "sd_read_at e now pps = sd_fullness e - points_in 64 (now - sd_anchor e) pps"

text \<open>\<open>None\<close> is the panic of \<open>Duration::from_secs_f64\<close>.\<close>

definition sd_record_send :: "instant \<Rightarrow> nat \<Rightarrow> nat \<Rightarrow> software_decay \<Rightarrow> software_decay option" where
  "sd_record_send now n pps e =
     (if pps = 0 then Some (e \<lparr>sd_fullness := sat_add 64 (sd_fullness e) n\<rparr>)
      else let consumed_int = points_in 64 (now - sd_anchor e) pps;
               consumed_secs = fdiv F64 (fof_int F64 (int consumed_int)) (fof_int F64 (int pps))
           in case from_secs_f64 consumed_secs of None \<Rightarrow> None
              | Some d \<Rightarrow> Some (e \<lparr>sd_fullness := sat_add 64 (sd_fullness e - consumed_int) n,
                                  sd_anchor := sd_anchor e + d\<rparr>))"

lemma sd_read_le: "sd_read_at e now pps \<le> sd_fullness e"
  by (simp add: sd_read_at_def)

interpretation sd: buffer_estimator sd_read_at "\<lambda>e pps. pps < 2 ^ 32"
  by unfold_locales (auto simp: sd_read_at_def intro!: diff_le_mono2 points_in_clock_mono)

text \<open>A send adds at most the points sent to the estimate of the same instant: no phantom points.\<close>

lemma sd_record_send_upper:
  assumes "sd_record_send now n pps e = Some e'"
  shows "sd_read_at e' now pps \<le> sd_read_at e now pps + n"
proof (cases "pps = 0")
  case True
  then have e': "e' = e \<lparr>sd_fullness := sat_add 64 (sd_fullness e) n\<rparr>" using assms by (simp add: sd_record_send_def)
  show ?thesis unfolding e' by (simp add: sd_read_at_def sat_add_def)
next
  case False
  then have "sd_fullness e' = sat_add 64 (sd_fullness e - points_in 64 (now - sd_anchor e) pps) n"
    using assms by (auto simp: sd_record_send_def Let_def split: option.splits)
  then show ?thesis using sd_read_le [of e' now pps] by (simp add: sat_add_def sd_read_at_def)
qed

text \<open>
  The rebase keeps the fraction of a point: the anchor advances by the time that the integer
  points represent, up to the rounding of one nanosecond.
\<close>

lemma consumed_duration:
  assumes "0 < pps" "pps \<le> 1000000000" "c < 2 ^ 51"
  obtains d where "from_secs_f64 (fdiv F64 (fof_int F64 (int c)) (fof_int F64 (int pps))) = Some d"
    "of_nat c / of_nat pps * 1000000000 \<le> of_nat d + (1 / 2 + of_nat c / of_nat pps * (1000000000 / 2 ^ 53) :: rat)"
proof -
  define x :: rat where "x = of_nat c / of_nat pps"
  define q where "q = rnd F64 x"
  have c: "fof_int F64 (int c) = Fin (of_nat c)" and p: "fof_int F64 (int pps) = Fin (of_nat pps)"
    using assms by (subst fof_int_exact; simp)+
  have p1: "(1 :: rat) \<le> of_nat pps" using assms(1) by (cases pps) simp_all
  have cb: "(of_nat c :: rat) \<le> 2 ^ 51" using assms(3) by (metis less_imp_le of_nat_le_iff of_nat_numeral of_nat_power)
  have x: "0 \<le> x" "x \<le> of_nat c" using p1 by (simp_all add: x_def divide_le_eq mult_le_cancel_left1)
  then have xb: "\<bar>x\<bar> \<le> 2 ^ 51" using cb by simp
  have fd: "fdiv F64 (Fin (of_nat c)) (Fin (of_nat pps)) = Fin q"
    using fround_Fin_pow2 [OF xb, of F64] assms(1) by (simp add: x_def q_def)
  have xz: "x = 0 \<or> 1 / 1000000000 \<le> x"
  proof (cases "c = 0")
    case False
    then have "(1 :: rat) \<le> of_nat c" by (cases c) simp_all
    moreover have "(of_nat pps :: rat) \<le> 1000000000"
      using assms(2) by (metis of_nat_le_iff of_nat_numeral)
    ultimately have "1 / 1000000000 \<le> x" unfolding x_def using p1 by (intro frac_le) simp_all
    then show ?thesis by simp
  qed (simp add: x_def)
  have qe: "\<bar>q - x\<bar> \<le> x / 2 ^ 53" unfolding q_def using xz by (rule rnd64_rel)
  have "x \<le> 2 ^ 51" using xb by linarith
  from rnd_mono [OF this, of F64] have q: "0 \<le> q" "q \<le> 2 ^ 51"
    unfolding q_def rnd_pow2 using rnd_nonneg [OF x(1)] by blast+
  define n where "n = rne (q * 1000000000)"
  have ne: "\<bar>of_int n - q * 1000000000\<bar> \<le> 1 / 2" unfolding n_def by (rule rne_err)
  have n0: "0 \<le> n" unfolding n_def using q(1) rne_mono [of 0 "q * 1000000000"] rne_int [of 0] by simp
  have "q * 1000000000 \<le> 2 ^ 51 * 1000000000" using q(2) by (rule mult_right_mono) simp
  then have "(of_int n :: rat) \<le> 2 ^ 51 * 1000000000 + 1 / 2" using ne by linarith
  also have "\<dots> < of_int (2 ^ 64 * 1000000000)" by simp
  finally have "(of_int n :: rat) < of_int (2 ^ 64 * 1000000000)" .
  then have "n < 2 ^ 64 * 1000000000" by (simp only: of_int_less_iff)
  then have some: "from_secs_f64 (Fin q) = Some (nat n)" using q(1) by (simp add: Let_def n_def)
  have "x - x / 2 ^ 53 \<le> q" using qe by (simp only: abs_le_iff) linarith
  then have "(x - x / 2 ^ 53) * 1000000000 \<le> q * 1000000000" by simp
  moreover have "(x - x / 2 ^ 53) * 1000000000 = x * 1000000000 - x * (1000000000 / 2 ^ 53)" by (simp add: left_diff_distrib)
  ultimately have "x * 1000000000 \<le> of_int n + (1 / 2 + x * (1000000000 / 2 ^ 53))" using ne by linarith
  moreover have "of_nat (nat n) = (of_int n :: rat)" using n0 by (simp add: of_nat_nat)
  ultimately show ?thesis using that [of "nat n"] some by (simp only: c p fd x_def)
qed

lemma sd_record_send_accurate:
  assumes "clock_ok now" "0 < pps" "pps < 1000000000" "(now - sd_anchor e) * pps div nanos_per_sec < 2 ^ 50"
    "sd_fullness e + n \<le> umax 64"
  obtains e' where "sd_record_send now n pps e = Some e'"
    "sd_read_at e' now pps \<le> sd_read_at e now pps + n" "sd_read_at e now pps + n \<le> sd_read_at e' now pps + 3"
proof -
  define el where "el = now - sd_anchor e"
  define c where "c = points_in 64 el pps"
  have ck: "el div nanos_per_sec < 2 ^ 53"
    using clock_ok_mono [OF _ assms(1), of el] by (simp add: el_def clock_ok_def)
  have acc: "c \<le> el * pps div nanos_per_sec + 1" "el * pps div nanos_per_sec \<le> c + 1"
    unfolding c_def using ck assms(3,4) by (intro points_in_accurate; simp add: el_def)+
  have c51: "c < 2 ^ 51" using acc(1) assms(4) by (simp add: el_def)
  obtain d where d: "from_secs_f64 (fdiv F64 (fof_int F64 (int c)) (fof_int F64 (int pps))) = Some d"
    "of_nat c / of_nat pps * 1000000000 \<le> of_nat d + (1 / 2 + of_nat c / of_nat pps * (1000000000 / 2 ^ 53) :: rat)"
    using consumed_duration [OF assms(2) less_imp_le [OF assms(3)] c51] by blast
  define e' where "e' = e \<lparr>sd_fullness := sat_add 64 (sd_fullness e - c) n, sd_anchor := sd_anchor e + d\<rparr>"
  have r: "sd_record_send now n pps e = Some e'"
    using assms(2) d(1) by (simp add: sd_record_send_def Let_def e'_def c_def el_def)
  have "points_in 64 (now - sd_anchor e') pps \<le> 3"
  proof -
    have el': "now - sd_anchor e' = el - d" by (simp add: e'_def el_def)
    have ck': "(el - d) div nanos_per_sec < 2 ^ 53" using ck div_le_mono le_less_trans by (meson diff_le_self)
    have "(el - d) * pps \<le> el * pps" by simp
    then have "(el - d) * pps div nanos_per_sec < 2 ^ 50" using assms(4) div_le_mono le_less_trans unfolding el_def by blast
    then have "points_in 64 (el - d) pps \<le> (el - d) * pps div nanos_per_sec + 1"
      using ck' assms(3) by (intro points_in_accurate) simp_all
    moreover have "(el - d) * pps < 3 * nanos_per_sec"
    proof -
      have p0: "(0 :: rat) < of_nat pps" using assms(2) by simp
      have "el * pps < (c + 2) * nanos_per_sec"
        using acc(2) div_less_iff_less_mult [of nanos_per_sec "el * pps" "c + 2"] by (simp add: nanos_per_sec_def)
      then have "(of_nat (el * pps) :: rat) < of_nat ((c + 2) * nanos_per_sec)" by (simp only: of_nat_less_iff)
      then have 1: "of_nat el * of_nat pps < (of_nat c + 2) * (1000000000 :: rat)"
        unfolding of_nat_mult of_nat_add nanos_per_sec_def by simp
      have "of_nat c / of_nat pps * 1000000000 * of_nat pps \<le>
          (of_nat d + (1 / 2 + of_nat c / of_nat pps * (1000000000 / 2 ^ 53)) :: rat) * of_nat pps"
        using d(2) p0 by (intro mult_right_mono) simp_all
      then have 2: "of_nat c * 1000000000 \<le> of_nat d * of_nat pps + (of_nat pps / 2 + of_nat c * (1000000000 / 2 ^ 53) :: rat)"
        using p0 by (simp add: algebra_simps)
      have "(of_nat c :: rat) \<le> of_nat (2 ^ 51)" "(of_nat pps :: rat) \<le> of_nat 1000000000"
        using c51 assms(3) by (simp_all only: of_nat_le_iff less_imp_le)
      then have 3: "of_nat c * (1000000000 / 2 ^ 53) \<le> (250000000 :: rat)" "of_nat pps / 2 \<le> (500000000 :: rat)" by simp_all
      have "of_nat el * of_nat pps < of_nat d * of_nat pps + (3000000000 :: rat)" using 1 2 3 by (simp add: algebra_simps)
      then have "of_nat (el * pps) < (of_nat (d * pps + 3000000000) :: rat)" by simp
      then have "el * pps < d * pps + 3000000000" by (simp only: of_nat_less_iff)
      then show ?thesis by (simp add: nanos_per_sec_def diff_mult_distrib)
    qed
    ultimately show ?thesis unfolding el' using less_mult_imp_div_less [of "(el - d) * pps" 3 nanos_per_sec] by linarith
  qed
  moreover have "sat_add 64 (sd_fullness e - c) n = sd_fullness e - c + n" using assms(5) by (simp add: sat_add_def)
  ultimately have "sd_read_at e now pps + n \<le> sd_read_at e' now pps + 3"
    by (simp add: sd_read_at_def e'_def c_def el_def) arith
  then show ?thesis by (rule that [OF r sd_record_send_upper [OF r]])
qed

subsection \<open>Status decay\<close>

record status_decay =
  st_fullness :: nat
  st_anchor :: "instant option"
  st_playing :: bool

definition st_new :: status_decay where
  "st_new = \<lparr>st_fullness = 0, st_anchor = None, st_playing = False\<rparr>"

definition st_reset :: "status_decay \<Rightarrow> status_decay" where
  "st_reset e = e \<lparr>st_fullness := 0, st_anchor := None, st_playing := False\<rparr>"

definition set_playing :: "bool \<Rightarrow> status_decay \<Rightarrow> status_decay" where
  "set_playing p e = e \<lparr>st_playing := p\<rparr>"

definition record_status :: "instant \<Rightarrow> nat \<Rightarrow> status_decay \<Rightarrow> status_decay" where
  "record_status now f e = e \<lparr>st_fullness := f, st_anchor := Some now\<rparr>"

definition st_read_at :: "status_decay \<Rightarrow> instant \<Rightarrow> nat \<Rightarrow> nat" where
  "st_read_at e now pps = (case st_anchor e of None \<Rightarrow> 0
     | Some t \<Rightarrow> if \<not> st_playing e then st_fullness e
                else st_fullness e - points_in 64 (now - t) pps)"

definition st_record_send :: "instant \<Rightarrow> nat \<Rightarrow> nat \<Rightarrow> status_decay \<Rightarrow> status_decay" where
  "st_record_send now n pps e =
     (let current = st_read_at e now pps
      in e \<lparr>st_fullness := sat_add 64 current n, st_anchor := Some now\<rparr>)"

interpretation st: buffer_estimator st_read_at "\<lambda>e pps. pps < 2 ^ 32"
  by unfold_locales
     (auto simp: st_read_at_def split: option.split intro!: diff_le_mono2 points_in_clock_mono)

lemma st_record_send_exact:
  assumes "st_read_at e now pps + n \<le> umax 64"
  shows "st_read_at (st_record_send now n pps e) now pps' = st_read_at e now pps + n"
  using assms by (simp add: st_record_send_def Let_def sat_add_def st_read_at_def  split: option.split)

subsection \<open>Runtime authority\<close>

record queue_depth =
  qd_queued :: nat
  qd_sample_rate :: nat

type_synonym runtime_authority = "queue_depth option"

definition ra_fullness :: "runtime_authority \<Rightarrow> instant \<Rightarrow> nat \<Rightarrow> nat" where
  "ra_fullness s now pps = (case s of None \<Rightarrow> 0
     | Some q \<Rightarrow> if qd_sample_rate q = 0 then qd_queued q
                else (qd_queued q * pps div qd_sample_rate q) mod 2 ^ 64)"

interpretation ra: buffer_estimator ra_fullness "\<lambda>e pps. True"
  by unfold_locales (simp add: ra_fullness_def)

subsection \<open>Dual track with acknowledgements\<close>

definition LATENCY_POINT_ADJUSTMENT :: nat where
  "LATENCY_POINT_ADJUSTMENT = 300"

definition STALE_ENTRY_TIMEOUT :: duration where
  "STALE_ENTRY_TIMEOUT = 10 * nanos_per_sec"

definition MIN_SENDABLE_POINTS :: nat where
  "MIN_SENDABLE_POINTS = 140"

record dual_track =
  dt_capacity :: nat
  dt_point_rate :: nat
  dt_sent_time :: "instant option"
  dt_sent_size :: nat
  dt_ack_time :: "instant option"
  dt_ack_fullness :: nat
  dt_message_times :: "u8 \<rightharpoonup> instant"

definition dt_new :: "nat \<Rightarrow> nat \<Rightarrow> dual_track" where
  "dt_new cap rate = \<lparr>dt_capacity = cap, dt_point_rate = rate, dt_sent_time = None, dt_sent_size = 0,
     dt_ack_time = None, dt_ack_fullness = 0, dt_message_times = Map.empty\<rparr>"

definition dt_set_point_rate :: "nat \<Rightarrow> dual_track \<Rightarrow> dual_track" where
  "dt_set_point_rate r e = e \<lparr>dt_point_rate := r\<rparr>"

definition dt_reset :: "dual_track \<Rightarrow> dual_track" where
  "dt_reset e = e \<lparr>dt_sent_time := None, dt_sent_size := 0, dt_ack_time := None,
     dt_ack_fullness := 0, dt_message_times := Map.empty\<rparr>"

definition estimate_fullness_by_time_sent :: "dual_track \<Rightarrow> instant \<Rightarrow> nat" where
  "estimate_fullness_by_time_sent e now = (case dt_sent_time e of None \<Rightarrow> 0
     | Some t \<Rightarrow> dt_sent_size e - points_in 16 (now - t) (dt_point_rate e))"

definition estimate_fullness_by_time_acked :: "dual_track \<Rightarrow> instant \<Rightarrow> nat" where
  "estimate_fullness_by_time_acked e now = (case dt_ack_time e of None \<Rightarrow> 0
     | Some t \<Rightarrow> dt_ack_fullness e - points_in 16 (now - t) (dt_point_rate e))"

definition estimated_buffer_fullness :: "dual_track \<Rightarrow> instant \<Rightarrow> nat" where
  "estimated_buffer_fullness e now =
     max (estimate_fullness_by_time_sent e now) (estimate_fullness_by_time_acked e now)"

definition max_points_to_add :: "dual_track \<Rightarrow> instant \<Rightarrow> nat" where
  "max_points_to_add e now = dt_capacity e - estimated_buffer_fullness e now - LATENCY_POINT_ADJUSTMENT"

definition can_send :: "dual_track \<Rightarrow> instant \<Rightarrow> bool" where
  "can_send e now \<longleftrightarrow> MIN_SENDABLE_POINTS \<le> max_points_to_add e now"

definition dt_record_send :: "instant \<Rightarrow> u8 \<Rightarrow> nat \<Rightarrow> dual_track \<Rightarrow> dual_track" where
  "dt_record_send now msg n e =
     (let current = estimated_buffer_fullness e now
      in e \<lparr>dt_sent_time := Some now, dt_sent_size := min (sat_add 16 current n) (dt_capacity e),
            dt_message_times := (dt_message_times e)(msg \<mapsto> now)\<rparr>)"

definition cleanup_stale_entries :: "instant \<Rightarrow> dual_track \<Rightarrow> dual_track" where
  "cleanup_stale_entries now e = e \<lparr>dt_message_times := (\<lambda>m. case dt_message_times e m of None \<Rightarrow> None
     | Some t \<Rightarrow> if now - t < STALE_ENTRY_TIMEOUT then Some t else None)\<rparr>"

definition dt_record_ack :: "instant \<Rightarrow> u8 \<Rightarrow> nat \<Rightarrow> dual_track \<Rightarrow> dual_track" where
  "dt_record_ack now msg free_space e =
     (let reported = dt_capacity e - free_space;
          e = (case dt_message_times e msg of None \<Rightarrow> e
               | Some sent \<Rightarrow>
                   (let e = (if (case dt_sent_time e of None \<Rightarrow> True | Some t \<Rightarrow> t \<le> sent)
                             then e \<lparr>dt_sent_time := Some sent, dt_sent_size := reported\<rparr> else e)
                    in e \<lparr>dt_message_times := (dt_message_times e)(msg := None)\<rparr>))
      in cleanup_stale_entries now (e \<lparr>dt_ack_time := Some now, dt_ack_fullness := reported\<rparr>))"

definition dt_fullness :: "dual_track \<Rightarrow> instant \<Rightarrow> nat \<Rightarrow> nat" where
  "dt_fullness e now pps = estimated_buffer_fullness e now"

interpretation dt: buffer_estimator dt_fullness "\<lambda>e pps. dt_point_rate e < 2 ^ 32"
proof unfold_locales
  fix t u :: instant and e :: dual_track and pps
  assume a: "t \<le> u" "clock_ok u" "dt_point_rate e < 2 ^ 32"
  then have p: "points_in 16 (t - s) (dt_point_rate e) \<le> points_in 16 (u - s) (dt_point_rate e)" for s
    by (intro points_in_clock_mono)
  then show "dt_fullness e u pps \<le> dt_fullness e t pps"
    unfolding dt_fullness_def estimated_buffer_fullness_def estimate_fullness_by_time_sent_def
      estimate_fullness_by_time_acked_def
    by (intro max.mono) (auto split: option.split intro: diff_le_mono2)
qed

definition dt_inv :: "dual_track \<Rightarrow> bool" where
  "dt_inv e \<longleftrightarrow> dt_sent_size e \<le> dt_capacity e \<and> dt_ack_fullness e \<le> dt_capacity e \<and> dt_capacity e \<le> umax 16"

lemma dt_inv_ops:
  "cap \<le> umax 16 \<Longrightarrow> dt_inv (dt_new cap r)" "dt_inv e \<Longrightarrow> dt_inv (dt_reset e)"
  "dt_inv e \<Longrightarrow> dt_inv (dt_set_point_rate r e)" "dt_inv e \<Longrightarrow> dt_inv (dt_record_send now m n e)"
  "dt_inv e \<Longrightarrow> dt_inv (dt_record_ack now m fs e)"
  by (auto simp: dt_inv_def dt_new_def dt_reset_def dt_set_point_rate_def dt_record_send_def dt_record_ack_def
      cleanup_stale_entries_def Let_def split: option.split)

lemma dt_fullness_le: "dt_inv e \<Longrightarrow> estimated_buffer_fullness e now \<le> dt_capacity e"
  by (auto simp: dt_inv_def estimated_buffer_fullness_def estimate_fullness_by_time_sent_def
      estimate_fullness_by_time_acked_def split: option.split)

lemma dt_send_exact:
  assumes "dt_inv e" "n \<le> max_points_to_add e now" "0 < n"
  shows "estimated_buffer_fullness (dt_record_send now m n e) now = estimated_buffer_fullness e now + n"
    "estimated_buffer_fullness e now + n + LATENCY_POINT_ADJUSTMENT \<le> dt_capacity e"
proof -
  let ?f = "estimated_buffer_fullness e now"
  show b: "?f + n + LATENCY_POINT_ADJUSTMENT \<le> dt_capacity e"
    using assms(2,3) by (simp add: max_points_to_add_def)
  then have s: "min (sat_add 16 ?f n) (dt_capacity e) = ?f + n"
    using assms(1) by (simp add: dt_inv_def sat_add_def)
  have "estimate_fullness_by_time_acked (dt_record_send now m n e) now = estimate_fullness_by_time_acked e now"
    by (simp add: dt_record_send_def Let_def estimate_fullness_by_time_acked_def split: option.split)
  moreover have "estimate_fullness_by_time_sent (dt_record_send now m n e) now = ?f + n"
    using s by (simp add: dt_record_send_def Let_def estimate_fullness_by_time_sent_def)
  ultimately show "estimated_buffer_fullness (dt_record_send now m n e) now = ?f + n"
    by (simp add: estimated_buffer_fullness_def)
qed

text \<open>
  Acknowledgements that arrive out of order cannot move the send anchor back in time, and an
  acknowledgement never makes the reported fullness exceed the capacity.
\<close>

lemma dt_ack_anchor_monotone:
  assumes "dt_sent_time e = Some t" "dt_sent_time (dt_record_ack now m fs e) = Some t'"
  shows "t \<le> t'"
  using assms by (auto simp: dt_record_ack_def cleanup_stale_entries_def Let_def split: option.splits if_splits)

lemma dt_message_times_fresh:
  assumes "dt_message_times (dt_record_ack now m fs e) k = Some t"
  shows "now - t < STALE_ENTRY_TIMEOUT" "k \<noteq> m"
  using assms by (auto simp: dt_record_ack_def cleanup_stale_entries_def Let_def split: option.splits if_splits)

subsection \<open>Properties\<close>

datatype dt_op = DtSend instant u8 nat | DtAck instant u8 nat | DtRate nat | DtReset

fun dt_apply :: "dt_op \<Rightarrow> dual_track \<Rightarrow> dual_track" where
  "dt_apply (DtSend now m n) = dt_record_send now m n"
| "dt_apply (DtAck now m fs) = dt_record_ack now m fs"
| "dt_apply (DtRate r) = dt_set_point_rate r"
| "dt_apply DtReset = dt_reset"

lemma dt_run_inv: "dt_inv e \<Longrightarrow> dt_inv (fold dt_apply ops e)"
proof (induction ops arbitrary: e)
  case (Cons op ops)
  have "dt_inv (dt_apply op e)" using Cons.prems by (cases op) (simp_all add: dt_inv_ops)
  with Cons.IH show ?case by simp
qed simp

lemma dt_run_capacity: "dt_capacity (fold dt_apply ops e) = dt_capacity e"
proof (induction ops arbitrary: e)
  case (Cons op ops)
  have "dt_capacity (dt_apply op e) = dt_capacity e"
    by (cases op) (auto simp: dt_record_send_def dt_record_ack_def cleanup_stale_entries_def dt_set_point_rate_def
        dt_reset_def Let_def split: option.split)
  with Cons.IH show ?case by simp
qed simp



text \<open>
  C30 (estimators decay): for the software, the status-driven and the dual-track estimator, waiting
  never makes the estimated fullness grow, in the \<open>f64\<close> arithmetic of the source; a status-driven
  estimate is frozen while the device is not playing; a send is added exactly by the status-driven
  estimator; and the software estimator, which rebases its anchor by the time of the integer
  points consumed, does not panic and loses at most three points to rounding, never gaining any.
\<close>

theorem estimators_decay:
  assumes "t \<le> u" "clock_ok u" "pps < 2 ^ 32"
  shows "sd_read_at s u pps \<le> sd_read_at s t pps \<and> st_read_at x u pps \<le> st_read_at x t pps \<and>
    (dt_point_rate d < 2 ^ 32 \<longrightarrow> dt_fullness d u pps \<le> dt_fullness d t pps) \<and>
    (\<not> st_playing x \<longrightarrow> st_read_at x u pps = st_read_at x t pps) \<and>
    (st_read_at x t pps + n \<le> umax 64 \<longrightarrow>
       st_read_at (st_record_send t n pps x) t pps = st_read_at x t pps + n) \<and>
    (0 < pps \<longrightarrow> pps < 1000000000 \<longrightarrow> (t - sd_anchor s) * pps div nanos_per_sec < 2 ^ 50 \<longrightarrow>
       sd_fullness s + n \<le> umax 64 \<longrightarrow>
       (\<exists>s'. sd_record_send t n pps s = Some s' \<and> sd_read_at s' t pps \<le> sd_read_at s t pps + n \<and>
         sd_read_at s t pps + n \<le> sd_read_at s' t pps + 3))"
proof -
  have "clock_ok t" using assms(1,2) by (rule clock_ok_mono)
  then have "0 < pps \<Longrightarrow> pps < 1000000000 \<Longrightarrow> (t - sd_anchor s) * pps div nanos_per_sec < 2 ^ 50 \<Longrightarrow>
      sd_fullness s + n \<le> umax 64 \<Longrightarrow>
      \<exists>s'. sd_record_send t n pps s = Some s' \<and> sd_read_at s' t pps \<le> sd_read_at s t pps + n \<and>
        sd_read_at s t pps + n \<le> sd_read_at s' t pps + 3"
    using sd_record_send_accurate [of t pps s n] by metis
  moreover
  have "\<not> st_playing x \<longrightarrow> st_read_at x u pps = st_read_at x t pps" by (simp add: st_read_at_def split: option.split)
  ultimately show ?thesis
    using sd.fullness_decays [OF assms(1,2)] st.fullness_decays [OF assms(1,2)] dt.fullness_decays [OF assms(1,2)]
      assms(3) st_record_send_exact [of x t pps n pps] by blast
qed

theorem estimators_decay_witness:
  "sd_read_at (sd_new 0) 7 30000 \<le> sd_read_at (sd_new 0) 5 30000 \<and>
   (\<exists>s'. sd_record_send 5 100 30000 (sd_new 0) = Some s' \<and> 100 \<le> sd_read_at s' 5 30000 + 3)"
  using estimators_decay [of 5 7 30000 "sd_new 0" st_new "dt_new 0 0" 100]
  by (auto simp: clock_ok_def nanos_per_sec_def sd_new_def umax_def)

end
