(* ===== verification/Resample.thy ===== *)
theory Resample
  imports Time_Model
begin

text \<open>
  \<^verbatim>\<open>src/resample.rs\<close>: the Catmull-Rom spline and \<open>StreamingResampler\<close>, which converts a
  point stream from one rate to another across chunk boundaries. The element type and its
  \<open>CatmullInterp::catmull\<close> are arguments, as the source has them; both instances of the file
  are given. Index and overflow panics are \<^const>\<open>None\<close>. The resampler is shown to refine a
  stateless reference that reads the whole input history.
\<close>

subsection \<open>The spline\<close>

definition catmull_rom :: "fp \<Rightarrow> fp \<Rightarrow> fp \<Rightarrow> fp \<Rightarrow> fp \<Rightarrow> fp" where
  "catmull_rom s0 s1 s2 s3 t =
     (let c1 = fmul F32 (Fin (1 / 2)) (fsub F32 s2 s0);
          c2 = fsub F32 (fadd F32 (fsub F32 s0 (fmul F32 (Fin (5 / 2)) s1)) (fmul F32 (Fin 2) s2))
                 (fmul F32 (Fin (1 / 2)) s3);
          c3 = fadd F32 (fmul F32 (Fin (1 / 2)) (fsub F32 s3 s0)) (fmul F32 (Fin (3 / 2)) (fsub F32 s1 s2))
      in fadd F32 (fmul F32 (fadd F32 (fmul F32 (fadd F32 (fmul F32 c3 t) c2) t) c1) t) s1)"

text \<open>A type of \<open>CatmullInterp\<close> is given by its interpolation function.\<close>

type_synonym 'a catmull = "'a \<Rightarrow> 'a \<Rightarrow> 'a \<Rightarrow> 'a \<Rightarrow> fp \<Rightarrow> 'a"

definition catmull_f32 :: "fp catmull" where
  "catmull_f32 s0 s1 s2 s3 t = catmull_rom s0 s1 s2 s3 t"

definition catmull_stereo :: "(fp \<times> fp) catmull" where
  "catmull_stereo s0 s1 s2 s3 t =
     (catmull_rom (fst s0) (fst s1) (fst s2) (fst s3) t, catmull_rom (snd s0) (snd s1) (snd s2) (snd s3) t)"

subsection \<open>The resampler\<close>

record 'a resampler =
  rs_from_rate :: nat
  rs_to_rate :: nat
  rs_buf :: "'a list"
  rs_buf_start :: nat
  rs_n_in :: nat
  rs_n_out :: nat

definition rs_new :: "nat \<Rightarrow> nat \<Rightarrow> 'a resampler option" where
  "rs_new from_rate to_rate =
     (if 0 < from_rate \<and> 0 < to_rate
      then Some \<lparr>rs_from_rate = from_rate, rs_to_rate = to_rate, rs_buf = [], rs_buf_start = 0, rs_n_in = 0, rs_n_out = 0\<rparr>
      else None)"

definition rs_reset :: "'a resampler \<Rightarrow> 'a resampler" where
  "rs_reset r = r\<lparr>rs_buf := [], rs_buf_start := 0, rs_n_in := 0, rs_n_out := 0\<rparr>"

definition set_rates :: "nat \<Rightarrow> nat \<Rightarrow> 'a resampler \<Rightarrow> 'a resampler option" where
  "set_rates from_rate to_rate r =
     (if \<not> (0 < from_rate \<and> 0 < to_rate) then None
      else if from_rate \<noteq> rs_from_rate r \<or> to_rate \<noteq> rs_to_rate r
      then Some (rs_reset (r\<lparr>rs_from_rate := from_rate, rs_to_rate := to_rate\<rparr>))
      else Some r)"

definition total_emittable :: "'a resampler \<Rightarrow> nat \<Rightarrow> nat option" where
  "total_emittable r n_in =
     (if n_in = 0 then Some 0
      else Option.bind (ck 64 ((n_in - 1) * rs_to_rate r)) (\<lambda>p. ck 64 (p div rs_from_rate r + 1)))"

definition pending_output_count :: "'a resampler \<Rightarrow> nat \<Rightarrow> nat option" where
  "pending_output_count r input_len =
     Option.bind (ck 64 (rs_n_in r + input_len)) (\<lambda>n. Option.bind (total_emittable r n)
       (\<lambda>k. if k < rs_n_out r then None else Some (k - rs_n_out r)))"

text \<open>\<open>as i64\<close> reinterprets the upper half of \<open>u64\<close> as negative numbers.\<close>

definition as_i64 :: "nat \<Rightarrow> int" where
  "as_i64 n = (if n < 2 ^ 63 then int n else int n - 2 ^ 64)"

definition sample_at :: "'a resampler \<Rightarrow> int \<Rightarrow> nat \<Rightarrow> 'a option" where
  "sample_at r ab lst =
     (if as_i64 lst < 0 then None
      else let clamped = nat (max 0 (min ab (as_i64 lst)))
      in if clamped < rs_buf_start r then None
         else if clamped - rs_buf_start r < length (rs_buf r) then Some (rs_buf r ! (clamped - rs_buf_start r))
         else None)"

function prune_loop :: "nat \<Rightarrow> 'a resampler \<Rightarrow> 'a resampler" where
  "prune_loop target_start r =
     (if rs_buf_start r < target_start \<and> 1 < length (rs_buf r)
      then prune_loop target_start (r\<lparr>rs_buf := tl (rs_buf r), rs_buf_start := rs_buf_start r + 1\<rparr>)
      else r)"
  by pat_completeness auto
termination by (relation "measure (\<lambda>(t, r). length (rs_buf r))") auto

definition prune :: "'a resampler \<Rightarrow> 'a resampler option" where
  "prune r = Option.bind (ck 64 (rs_n_out r * rs_from_rate r))
     (\<lambda>p. Some (prune_loop (p div rs_to_rate r - 1) r))"

definition emit_sample :: "'a catmull \<Rightarrow> nat \<Rightarrow> 'a resampler \<Rightarrow> 'a option" where
  "emit_sample cat lst r = Option.bind (ck 64 (rs_n_out r * rs_from_rate r)) (\<lambda>p.
     let idx = as_i64 (p div rs_to_rate r);
         t = fdiv F32 (fof_int F32 (int (p mod rs_to_rate r))) (fof_int F32 (int (rs_to_rate r)))
     in Option.bind (sample_at r (idx - 1) lst) (\<lambda>s0. Option.bind (sample_at r idx lst) (\<lambda>s1.
        Option.bind (sample_at r (idx + 1) lst) (\<lambda>s2. Option.bind (sample_at r (idx + 2) lst) (\<lambda>s3.
        Some (cat s0 s1 s2 s3 t))))))"

function emit_loop :: "'a catmull \<Rightarrow> nat \<Rightarrow> nat \<Rightarrow> 'a resampler \<Rightarrow> ('a list \<times> 'a resampler) option" where
  "emit_loop cat lst target r =
     (if rs_n_out r < target
      then Option.bind (emit_sample cat lst r) (\<lambda>y.
        Option.bind (emit_loop cat lst target (r\<lparr>rs_n_out := rs_n_out r + 1\<rparr>)) (\<lambda>(ys, r'). Some (y # ys, r')))
      else Some ([], r))"
  by pat_completeness auto
termination by (relation "measure (\<lambda>(c, l, t, r). t - rs_n_out r)") auto

definition rs_process :: "'a catmull \<Rightarrow> 'a list \<Rightarrow> 'a resampler \<Rightarrow> ('a list \<times> 'a resampler) option" where
  "rs_process cat input r = Option.bind (ck 64 (rs_n_in r + length input)) (\<lambda>n_in.
     let r = r\<lparr>rs_buf := rs_buf r @ input, rs_n_in := n_in\<rparr>
     in if n_in = 0 then Some ([], r)
        else Option.bind (total_emittable r n_in) (\<lambda>target.
          Option.bind (emit_loop cat (n_in - 1) target r) (\<lambda>(ys, r).
          Option.bind (prune r) (\<lambda>r. Some (ys, r)))))"

declare prune_loop.simps [simp del] emit_loop.simps [simp del]

text \<open>A stream is a sequence of \<open>process\<close> calls; the outputs are kept per call.\<close>

fun rs_run :: "'a catmull \<Rightarrow> 'a list list \<Rightarrow> 'a resampler \<Rightarrow> ('a list list \<times> 'a resampler) option" where
  "rs_run cat [] r = Some ([], r)"
| "rs_run cat (c # cs) r = Option.bind (rs_process cat c r) (\<lambda>(ys, r).
     Option.bind (rs_run cat cs r) (\<lambda>(yss, r). Some (ys # yss, r)))"

subsection \<open>The reference\<close>

text \<open>
  Output \<open>n\<close> reads the input history \<open>xs\<close> at source position \<open>n * from / to\<close>, with the four
  context samples clamped to the history.
\<close>

definition ref_count :: "nat \<Rightarrow> nat \<Rightarrow> nat \<Rightarrow> nat" where
  "ref_count from_rate to_rate n_in = (if n_in = 0 then 0 else (n_in - 1) * to_rate div from_rate + 1)"

definition ref_sample :: "'a catmull \<Rightarrow> nat \<Rightarrow> nat \<Rightarrow> 'a list \<Rightarrow> nat \<Rightarrow> 'a" where
  "ref_sample cat from_rate to_rate xs n =
     (let idx = n * from_rate div to_rate; lst = length xs - 1
      in cat (xs ! min (idx - 1) lst) (xs ! min idx lst) (xs ! min (idx + 1) lst) (xs ! min (idx + 2) lst)
           (fdiv F32 (fof_int F32 (int (n * from_rate mod to_rate))) (fof_int F32 (int to_rate))))"

text \<open>The outputs of each chunk, given the history \<open>xs\<close> before it.\<close>

fun ref_run :: "'a catmull \<Rightarrow> nat \<Rightarrow> nat \<Rightarrow> 'a list \<Rightarrow> 'a list list \<Rightarrow> 'a list list" where
  "ref_run cat f t xs [] = []"
| "ref_run cat f t xs (c # cs) =
     map (ref_sample cat f t (xs @ c)) [ref_count f t (length xs) ..< ref_count f t (length xs + length c)]
       # ref_run cat f t (xs @ c) cs"

subsection \<open>The resampler refines the reference\<close>

text \<open>
  \<open>rs_inv xs r\<close>: the resampler has consumed the history \<open>xs\<close>, has emitted all it can, and its
  buffer is a suffix of the history that starts no later than the context of the next output.
\<close>

definition rs_inv :: "'a list \<Rightarrow> 'a resampler \<Rightarrow> bool" where
  "rs_inv xs r \<longleftrightarrow> 0 < rs_from_rate r \<and> 0 < rs_to_rate r \<and> rs_n_in r = length xs \<and>
     rs_n_out r = ref_count (rs_from_rate r) (rs_to_rate r) (length xs) \<and>
     rs_buf r = drop (rs_buf_start r) xs \<and> (xs = [] \<or> rs_buf_start r < length xs) \<and>
     rs_buf_start r \<le> rs_n_out r * rs_from_rate r div rs_to_rate r - 1"

definition rs_fits :: "nat \<Rightarrow> nat \<Rightarrow> nat \<Rightarrow> bool" where
  "rs_fits from_rate to_rate n \<longleftrightarrow> n * to_rate + from_rate < 2 ^ 63"

lemma ref_count_mono: "m \<le> n \<Longrightarrow> ref_count f t m \<le> ref_count f t n"
  by (auto simp: ref_count_def intro!: div_le_mono)

lemma ref_count_times: "0 < f \<Longrightarrow> ref_count f t n * f \<le> n * t + f"
proof -
  have "(n - 1) * t div f * f \<le> (n - 1) * t" by simp
  also have "\<dots> \<le> n * t" by (rule mult_le_mono1) simp
  finally show ?thesis by (simp add: ref_count_def)
qed

lemma rs_fits_ck:
  assumes "rs_fits f t n" "0 < f" "0 < t"
  shows "n \<le> umax 64" "n < 2 ^ 63" "(n - 1) * t \<le> umax 64" "(n - 1) * t div f + 1 \<le> umax 64"
    "k \<le> ref_count f t n \<Longrightarrow> k * f \<le> umax 64" "k \<le> ref_count f t n \<Longrightarrow> k * f div t < 2 ^ 63"
proof -
  have nt: "n * t + f < 2 ^ 63" using assms(1) by (simp add: rs_fits_def)
  moreover have "n \<le> n * t" using assms(3) by simp
  ultimately show n: "n < 2 ^ 63" by linarith
  then show "n \<le> umax 64" by (simp add: umax_def)
  have a: "(n - 1) * t \<le> n * t" by (rule mult_le_mono1) simp
  have lim: "(2 :: nat) ^ 63 \<le> umax 64" by (simp add: umax_def)
  from a nt show "(n - 1) * t \<le> umax 64" using lim by linarith
  have "(n - 1) * t div f \<le> (n - 1) * t" by (rule div_le_dividend)
  with a nt assms(2) show "(n - 1) * t div f + 1 \<le> umax 64" using lim by linarith
  have kf: "k * f < 2 ^ 63" if "k \<le> ref_count f t n"
    using mult_le_mono1 [OF that, of f] ref_count_times [OF assms(2), of t n] nt by linarith
  then show "k * f \<le> umax 64" if "k \<le> ref_count f t n" using that lim by fastforce
  show "k * f div t < 2 ^ 63" if "k \<le> ref_count f t n"
    using kf [OF that] div_le_dividend [of "k * f" t] by linarith
qed

lemma sample_at_drop:
  assumes "rs_buf r = drop (rs_buf_start r) xs" "xs \<noteq> []" "length xs < 2 ^ 63"
    "rs_buf_start r \<le> min i (length xs - 1)" "max 0 ab = int i"
  shows "sample_at r ab (length xs - 1) = Some (xs ! min i (length xs - 1))"
proof -
  define l where "l = length xs - 1"
  have "l < length xs" using assms(2) by (cases xs) (auto simp: l_def)
  moreover have "as_i64 l = int l" using assms(3) by (simp add: as_i64_def l_def)
  moreover have "nat (max 0 (min ab (int l))) = min i l" using assms(5) by linarith
  ultimately show ?thesis using assms(1,4) unfolding l_def [symmetric] by (auto simp: sample_at_def Let_def)
qed

lemma emit_sample_ref:
  assumes "rs_buf r = drop (rs_buf_start r) xs" "rs_buf_start r < length xs" "rs_fits (rs_from_rate r) (rs_to_rate r) (length xs)"
    "0 < rs_from_rate r" "0 < rs_to_rate r" "rs_n_out r \<le> ref_count (rs_from_rate r) (rs_to_rate r) (length xs)"
    "rs_buf_start r \<le> rs_n_out r * rs_from_rate r div rs_to_rate r - 1"
  shows "emit_sample cat (length xs - 1) r = Some (ref_sample cat (rs_from_rate r) (rs_to_rate r) xs (rs_n_out r))"
proof -
  define idx where "idx = rs_n_out r * rs_from_rate r div rs_to_rate r"
  note fit = rs_fits_ck [OF assms(3-5)]
  have i: "as_i64 idx = int idx" using fit(6) [OF assms(6)] by (simp add: as_i64_def idx_def)
  have b: "rs_buf_start r \<le> min j (length xs - 1)" if "idx - 1 \<le> j" for j
    using that assms(2,7) by (simp add: idx_def)
  have "xs \<noteq> []" using assms(2) by auto
  note at = sample_at_drop [OF assms(1) this fit(2) b]
  have "sample_at r (int idx - 1) (length xs - 1) = Some (xs ! min (idx - 1) (length xs - 1))"
    "sample_at r (int idx) (length xs - 1) = Some (xs ! min idx (length xs - 1))"
    "sample_at r (int idx + 1) (length xs - 1) = Some (xs ! min (idx + 1) (length xs - 1))"
    "sample_at r (int idx + 2) (length xs - 1) = Some (xs ! min (idx + 2) (length xs - 1))"
    by (rule at; simp)+
  then show ?thesis
    by (simp add: emit_sample_def fit(5) [OF assms(6)] ref_sample_def Let_def i flip: idx_def)
qed

lemma emit_loop_ref:
  assumes "rs_buf r = drop (rs_buf_start r) xs" "rs_buf_start r < length xs" "rs_fits (rs_from_rate r) (rs_to_rate r) (length xs)"
    "0 < rs_from_rate r" "0 < rs_to_rate r" "rs_n_out r \<le> target" "target = ref_count (rs_from_rate r) (rs_to_rate r) (length xs)"
    "rs_buf_start r \<le> rs_n_out r * rs_from_rate r div rs_to_rate r - 1"
  shows "emit_loop cat (length xs - 1) target r =
    Some (map (ref_sample cat (rs_from_rate r) (rs_to_rate r) xs) [rs_n_out r ..< target], r\<lparr>rs_n_out := target\<rparr>)"
  using assms
proof (induction "target - rs_n_out r" arbitrary: r)
  case 0
  then have "rs_n_out r = target" by simp
  then show ?case by (subst emit_loop.simps) simp
next
  case (Suc k)
  let ?r = "r\<lparr>rs_n_out := rs_n_out r + 1\<rparr>"
  have lt: "rs_n_out r < target" using Suc.hyps(2) by simp
  have "rs_n_out r * rs_from_rate r div rs_to_rate r \<le> rs_n_out ?r * rs_from_rate r div rs_to_rate r"
    by (rule div_le_mono) simp
  then have "emit_loop cat (length xs - 1) target ?r =
    Some (map (ref_sample cat (rs_from_rate r) (rs_to_rate r) xs) [rs_n_out ?r ..< target], ?r\<lparr>rs_n_out := target\<rparr>)"
    using Suc.hyps(1) [of ?r] Suc.hyps(2) Suc.prems lt by simp
  moreover have "emit_sample cat (length xs - 1) r = Some (ref_sample cat (rs_from_rate r) (rs_to_rate r) xs (rs_n_out r))"
    by (rule emit_sample_ref) (use Suc.prems lt in simp_all)
  ultimately show ?case using lt by (subst emit_loop.simps) (simp add: upt_conv_Cons)
qed

lemma prune_loop_drop:
  assumes "rs_buf r = drop (rs_buf_start r) xs" "rs_buf_start r < length xs"
  shows "prune_loop tgt r = (let s = max (rs_buf_start r) (min tgt (length xs - 1))
    in r\<lparr>rs_buf := drop s xs, rs_buf_start := s\<rparr>)"
  using assms
proof (induction tgt r rule: prune_loop.induct)
  case (1 tgt r)
  show ?case
  proof (cases "rs_buf_start r < tgt \<and> 1 < length (rs_buf r)")
    case True
    let ?r = "r\<lparr>rs_buf := tl (rs_buf r), rs_buf_start := rs_buf_start r + 1\<rparr>"
    have "rs_buf ?r = drop (rs_buf_start ?r) xs" "rs_buf_start ?r < length xs"
      using True "1.prems" by (auto simp: tl_drop drop_Suc)
    note IH = "1.IH" [OF True this]
    have "max (rs_buf_start r + 1) (min tgt (length xs - 1)) = max (rs_buf_start r) (min tgt (length xs - 1))"
      using True "1.prems" by auto
    then show ?thesis using True IH by (subst prune_loop.simps) (simp add: Let_def)
  next
    case False
    then have "max (rs_buf_start r) (min tgt (length xs - 1)) = rs_buf_start r" using "1.prems" by auto
    moreover have "prune_loop tgt r = r" using False by (subst prune_loop.simps) auto
    ultimately show ?thesis by (simp add: Let_def "1.prems"(1) [symmetric])
  qed
qed

lemma rs_process_ref:
  assumes "rs_inv xs r" "rs_fits (rs_from_rate r) (rs_to_rate r) (length xs + length c)"
  shows "\<exists>r'. rs_process cat c r = Some (map (ref_sample cat (rs_from_rate r) (rs_to_rate r) (xs @ c))
      [ref_count (rs_from_rate r) (rs_to_rate r) (length xs) ..< ref_count (rs_from_rate r) (rs_to_rate r) (length xs + length c)], r') \<and>
    rs_inv (xs @ c) r' \<and> rs_from_rate r' = rs_from_rate r \<and> rs_to_rate r' = rs_to_rate r"
proof (cases "xs @ c = []")
  case True
  then show ?thesis using assms by (auto simp: rs_process_def rs_inv_def umax_def ref_count_def)
next
  case False
  let ?f = "rs_from_rate r" and ?t = "rs_to_rate r" and ?ys = "xs @ c"
  define r1 where "r1 = r\<lparr>rs_buf := rs_buf r @ c, rs_n_in := length ?ys\<rparr>"
  define target where "target = ref_count ?f ?t (length ?ys)"
  define s where "s = max (rs_buf_start r) (min (target * ?f div ?t - 1) (length ?ys - 1))"
  define r2 where "r2 = r1\<lparr>rs_n_out := target, rs_buf := drop s ?ys, rs_buf_start := s\<rparr>"
  note inv = assms(1) [unfolded rs_inv_def]
  have fit: "rs_fits ?f ?t (length ?ys)" using assms(2) by simp
  note ck = rs_fits_ck [OF fit conjunct1 [OF inv] conjunct1 [OF conjunct2 [OF inv]]]
  have le: "rs_n_out r \<le> target" unfolding target_def using inv ref_count_mono [of "length xs" "length ?ys"] by simp
  have st: "rs_buf_start r < length ?ys"
  proof (cases "xs = []")
    case True
    then have "rs_n_out r = 0" using inv by (simp add: ref_count_def)
    then have "rs_buf_start r = 0" using inv by auto
    then show ?thesis using False by (cases ?ys) auto
  qed (use inv in auto)
  have buf: "rs_buf r1 = drop (rs_buf_start r1) ?ys"
    using inv st by (cases "xs = []") (auto simp: r1_def ref_count_def)
  have r1s: "rs_from_rate r1 = ?f" "rs_to_rate r1 = ?t" "rs_buf_start r1 = rs_buf_start r" "rs_n_out r1 = rs_n_out r"
    by (simp_all add: r1_def)
  have "emit_loop cat (length ?ys - 1) target r1 =
    Some (map (ref_sample cat ?f ?t ?ys) [rs_n_out r ..< target], r1\<lparr>rs_n_out := target\<rparr>)"
  proof (rule emit_loop_ref [of r1 ?ys target cat, unfolded r1s])
    show "rs_buf_start r \<le> rs_n_out r * ?f div ?t - 1" using inv by blast
  qed (use buf st inv le fit in \<open>simp_all add: r1s target_def\<close>)
  moreover have "total_emittable r1 (length ?ys) = Some target"
    using ck(3,4) False by (auto simp: total_emittable_def target_def ref_count_def r1_def)
  moreover have "prune (r1\<lparr>rs_n_out := target\<rparr>) = Some r2"
    using prune_loop_drop [of "r1\<lparr>rs_n_out := target\<rparr>" ?ys] buf st ck(5) [of target]
    by (simp add: prune_def r2_def s_def r1_def target_def Let_def)
  ultimately have "rs_process cat c r = Some (map (ref_sample cat ?f ?t ?ys) [rs_n_out r ..< target], r2)"
    using ck(1) False inv by (auto simp: rs_process_def r1_def)
  moreover have "rs_inv ?ys r2"
  proof -
    have "rs_buf_start r \<le> target * ?f div ?t - 1"
      using inv div_le_mono [OF mult_le_mono1 [OF le, of ?f], of ?t] by linarith
    then have "s \<le> target * ?f div ?t - 1" by (simp add: s_def)
    moreover have "s < length ?ys" unfolding s_def using st by linarith
    ultimately show ?thesis using inv by (simp add: rs_inv_def r2_def r1_def target_def)
  qed
  ultimately show ?thesis using inv by (auto simp: r2_def r1_def target_def)
qed

lemma rs_new_inv: "rs_new f t = Some r \<Longrightarrow> rs_inv [] r \<and> rs_from_rate r = f \<and> rs_to_rate r = t"
  by (auto simp: rs_new_def rs_inv_def ref_count_def split: if_splits)

lemma rs_run_ref:
  assumes "rs_inv xs r" "rs_fits (rs_from_rate r) (rs_to_rate r) (length xs + length (concat cs))"
  shows "\<exists>r'. rs_run cat cs r = Some (ref_run cat (rs_from_rate r) (rs_to_rate r) xs cs, r') \<and>
    rs_inv (xs @ concat cs) r' \<and> rs_from_rate r' = rs_from_rate r \<and> rs_to_rate r' = rs_to_rate r"
  using assms
proof (induction cs arbitrary: xs r)
  case (Cons c cs)
  have "rs_fits (rs_from_rate r) (rs_to_rate r) (length xs + length c)"
    using Cons.prems(2) by (auto simp: rs_fits_def algebra_simps)
  from rs_process_ref [OF Cons.prems(1) this, of cat] obtain r' where r':
    "rs_process cat c r = Some (map (ref_sample cat (rs_from_rate r) (rs_to_rate r) (xs @ c))
      [ref_count (rs_from_rate r) (rs_to_rate r) (length xs) ..< ref_count (rs_from_rate r) (rs_to_rate r) (length xs + length c)], r')"
    "rs_inv (xs @ c) r'" "rs_from_rate r' = rs_from_rate r" "rs_to_rate r' = rs_to_rate r" by blast
  moreover have "rs_fits (rs_from_rate r') (rs_to_rate r') (length (xs @ c) + length (concat cs))"
    using Cons.prems(2) r'(3,4) by (simp add: add.assoc)
  ultimately show ?case using Cons.IH [of "xs @ c" r'] by auto
qed auto

lemma ref_run_length:
  "length (concat (ref_run cat f t xs cs)) = ref_count f t (length xs + length (concat cs)) - ref_count f t (length xs)"
proof (induction cs arbitrary: xs)
  case (Cons c cs)
  have "ref_count f t (length xs) \<le> ref_count f t (length xs + length c)"
    "ref_count f t (length xs + length c) \<le> ref_count f t (length xs + length c + length (concat cs))"
    by (rule ref_count_mono; simp)+
  then show ?case using Cons [of "xs @ c"] by (simp add: add.assoc)
qed simp

lemma ref_run_nth:
  assumes "ref_count f t (length (xs @ concat as)) \<le> n" "n < ref_count f t (length (xs @ concat as @ c))"
  shows "concat (ref_run cat f t xs (as @ c # bs)) ! (n - ref_count f t (length xs)) = ref_sample cat f t (xs @ concat as @ c) n"
  using assms
proof (induction as arbitrary: xs)
  case Nil
  then show ?case by (simp add: nth_append diff_less_mono)
next
  case (Cons a as)
  have "ref_count f t (length xs) \<le> ref_count f t (length (xs @ a))"
    "ref_count f t (length (xs @ a)) \<le> ref_count f t (length (xs @ concat (a # as)))"
    by (rule ref_count_mono; simp)+
  then show ?case using Cons.IH [of "xs @ a"] Cons.prems
    by (simp add: nth_append add.assoc, intro impI, linarith)
qed

lemma nth_clamped_append:
  assumes "i < length xs"
  shows "(xs @ ys) ! min i (length (xs @ ys) - 1) = xs ! min i (length xs - 1)"
proof -
  have "min i (length (xs @ ys) - 1) = i" "min i (length xs - 1) = i" using assms by auto
  with assms show ?thesis by (simp add: nth_append)
qed

lemma ref_sample_stable:
  assumes "n * f div t + 2 < length xs"
  shows "ref_sample cat f t (xs @ ys) n = ref_sample cat f t xs n"
proof -
  define i where "i = n * f div t"
  have "i - 1 < length xs" "i < length xs" "i + 1 < length xs" "i + 2 < length xs" using assms by (auto simp: i_def)
  from this [THEN nth_clamped_append, of ys] show ?thesis
    unfolding ref_sample_def Let_def i_def [symmetric] by simp
qed

text \<open>
  C22 (\<open>StreamingResampler\<close> is phase-continuous): for any nonzero rates, any interpolation and any
  split of the input into chunks, the resampler never panics; it has emitted exactly
  \<open>(N - 1) * to / from + 1\<close> samples after \<open>N > 0\<close> inputs; every sample is the stateless
  reference read of the input history at the global position \<open>n * from / to\<close>, so interpolation
  spans chunk boundaries; and a sample whose look-ahead has arrived is the one that resampling
  the whole stream at once gives.
\<close>

theorem resampler_phase_continuous:
  fixes cat :: "'a catmull"
  assumes "0 < f" "0 < t" "rs_fits f t (length (concat (as @ c # bs)))"
  shows "\<exists>r0 r out. rs_new f t = Some r0 \<and> rs_run cat (as @ c # bs) r0 = Some (out, r) \<and>
    length (concat out) = ref_count f t (length (concat (as @ c # bs))) \<and>
    (\<forall>n. ref_count f t (length (concat as)) \<le> n \<longrightarrow> n < ref_count f t (length (concat (as @ [c]))) \<longrightarrow>
      concat out ! n = ref_sample cat f t (concat (as @ [c])) n \<and>
      (n * f div t + 2 < length (concat (as @ [c])) \<longrightarrow>
        concat out ! n = ref_sample cat f t (concat (as @ c # bs)) n))"
proof -
  let ?cs = "as @ c # bs"
  obtain r0 :: "'a resampler" where r0: "rs_new f t = Some r0" using assms(1,2) by (simp add: rs_new_def)
  note inv = rs_new_inv [OF r0]
  then obtain r where "rs_run cat ?cs r0 = Some (ref_run cat f t [] ?cs, r)"
    using rs_run_ref [of "[]" r0 ?cs cat] assms(3) by auto
  moreover have "length (concat (ref_run cat f t [] ?cs)) = ref_count f t (length (concat ?cs))"
    using ref_run_length [of cat f t "[]" ?cs] by (simp add: ref_count_def)
  moreover have n: "concat (ref_run cat f t [] ?cs) ! n = ref_sample cat f t (concat (as @ [c])) n"
    if "ref_count f t (length (concat as)) \<le> n" "n < ref_count f t (length (concat (as @ [c])))" for n
    using ref_run_nth [of f t "[]" as n c cat bs] that by (simp add: ref_count_def)
  moreover have "ref_sample cat f t (concat ?cs) n = ref_sample cat f t (concat (as @ [c])) n"
    if "n * f div t + 2 < length (concat (as @ [c]))" for n
    using ref_sample_stable [OF that, of cat "concat bs"] by simp
  ultimately show ?thesis using r0 by metis
qed

theorem resampler_phase_continuous_witness:
  "\<exists>r0 r out. rs_new 30000 48000 = Some r0 \<and>
    rs_run catmull_f32 ([[Fin 0], [Fin 1, Fin 0]] @ [Fin 1] # []) r0 = Some (out, r) \<and> length (concat out) = 5"
proof -
  have "rs_fits 30000 48000 (length (concat ([[Fin 0], [Fin 1, Fin 0]] @ [Fin 1] # [])))" by (simp add: rs_fits_def)
  moreover have "ref_count 30000 48000 (length (concat ([[Fin 0], [Fin 1, Fin 0]] @ [Fin 1] # []))) = 5"
    by (simp add: ref_count_def)
  ultimately show ?thesis
    using resampler_phase_continuous [of 30000 48000 "[[Fin 0], [Fin 1, Fin 0]]" "[Fin 1]" "[]" catmull_f32] by auto
qed

text \<open>
  C34 (\<open>pending_output_count\<close> is exact): after any chunks, the capacity a backend reserves for the
  next chunk is the number of samples \<open>process\<close> then emits.
\<close>

theorem resampler_reserves_exactly:
  fixes cat :: "'a catmull"
  assumes "rs_new f t = Some r0" "rs_run cat cs r0 = Some (out, r)" "rs_fits f t (length (concat cs) + length c)"
  shows "\<exists>ys r'. rs_process cat c r = Some (ys, r') \<and> pending_output_count r (length c) = Some (length ys)"
proof -
  note inv0 = rs_new_inv [OF assms(1)]
  have "rs_fits f t (length (concat cs))" using assms(3) by (auto simp: rs_fits_def algebra_simps)
  then have inv: "rs_inv (concat cs) r" "rs_from_rate r = f" "rs_to_rate r = t"
    using rs_run_ref [of "[]" r0 cs cat] inv0 assms(2) by auto
  note rates = inv(1) [unfolded rs_inv_def inv(2,3)]
  obtain r' where "rs_process cat c r = Some (map (ref_sample cat f t (concat cs @ c))
      [ref_count f t (length (concat cs)) ..< ref_count f t (length (concat cs) + length c)], r')"
    using rs_process_ref [OF inv(1), of c cat] inv assms(3) by auto
  moreover have "pending_output_count r (length c) =
      Some (ref_count f t (length (concat cs) + length c) - ref_count f t (length (concat cs)))"
  proof -
    have fr: "0 < f" "0 < t" "rs_n_in r = length (concat cs)" "rs_n_out r = ref_count f t (length (concat cs))"
      using rates by blast+
    note ck = rs_fits_ck [OF assms(3) fr(1,2)]
    have "total_emittable r (length (concat cs) + length c) = Some (ref_count f t (length (concat cs) + length c))"
      using ck(3,4) inv by (simp add: total_emittable_def ref_count_def)
    moreover have "\<not> ref_count f t (length (concat cs) + length c) < ref_count f t (length (concat cs))"
      by (simp add: ref_count_mono not_less)
    ultimately show ?thesis using ck(1) by (simp add: pending_output_count_def fr)
  qed
  ultimately show ?thesis by simp
qed

theorem resampler_reserves_exactly_witness:
  "\<exists>r0 r ys r'. rs_new 2 3 = Some r0 \<and> rs_run catmull_f32 [] r0 = Some ([], r) \<and>
    rs_process catmull_f32 [Fin 1, Fin 2] r = Some (ys, r') \<and>
    pending_output_count r (length [Fin 1, Fin 2]) = Some (length ys)"
proof -
  obtain r0 :: "fp resampler" where r0: "rs_new 2 3 = Some r0" by (simp add: rs_new_def)
  have "rs_run catmull_f32 [] r0 = Some ([], r0)" by simp
  from resampler_reserves_exactly [OF r0 this, of "[Fin 1, Fin 2]"] show ?thesis
    using r0 by (auto simp: rs_fits_def)
qed

subsection \<open>Equal rates\<close>

text \<open>Finite values of magnitude at most \<open>n\<close>.\<close>

definition fbd :: "int \<Rightarrow> fp \<Rightarrow> bool" where
  "fbd n v \<longleftrightarrow> (\<exists>x. v = Fin x \<and> \<bar>x\<bar> \<le> of_int n)"

lemma fbd_Fin [simp]: "fbd n (Fin x) \<longleftrightarrow> \<bar>x\<bar> \<le> of_int n"
  by (simp add: fbd_def)

lemma fround_fbd: "\<bar>x\<bar> \<le> of_int n \<Longrightarrow> n \<le> 16777216 \<Longrightarrow> fbd n (fround F32 x)"
proof -
  assume a: "\<bar>x\<bar> \<le> of_int n" "n \<le> 16777216"
  then have "(0 :: rat) \<le> of_int n" by linarith
  then have n: "\<bar>n\<bar> \<le> 2 ^ fprec F32" using a(2) by simp
  show ?thesis using fround_Fin [OF n a(1)] rnd_abs_le_int [OF n a(1)] by (simp add: fbd_def)
qed

lemma fbd_add: "fbd a u \<Longrightarrow> fbd b v \<Longrightarrow> a + b \<le> 16777216 \<Longrightarrow> fbd (a + b) (fadd F32 u v)"
  by (auto simp: fbd_def [of a] fbd_def [of b] intro!: fround_fbd)

lemma fbd_sub: "fbd a u \<Longrightarrow> fbd b v \<Longrightarrow> a + b \<le> 16777216 \<Longrightarrow> fbd (a + b) (fsub F32 u v)"
  by (auto simp: fsub_def fbd_def [of a] fbd_def [of b] intro!: fround_fbd)

lemma fbd_mul: "fbd a u \<Longrightarrow> fbd b v \<Longrightarrow> a * b \<le> 16777216 \<Longrightarrow> fbd (a * b) (fmul F32 u v)"
proof -
  assume a: "fbd a u" "fbd b v" "a * b \<le> 16777216"
  then obtain x y where xy: "u = Fin x" "\<bar>x\<bar> \<le> of_int a" "v = Fin y" "\<bar>y\<bar> \<le> of_int b" by (auto simp: fbd_def)
  then have "\<bar>x\<bar> * \<bar>y\<bar> \<le> of_int a * of_int b" by (intro mult_mono) auto
  then show ?thesis using a(3) xy(1,3) by (simp add: abs_mult fround_fbd)
qed

lemma fbd_horner_0: "fbd a u \<Longrightarrow> fbd b v \<Longrightarrow> b \<le> 16777216 \<Longrightarrow> fbd b (fadd F32 (fmul F32 u (Fin 0)) v)"
proof -
  assume a: "fbd a u" "fbd b v" "b \<le> 16777216"
  then obtain x y where xy: "u = Fin x" "v = Fin y" "\<bar>y\<bar> \<le> of_int b" by (auto simp: fbd_def)
  then show ?thesis using fround_fbd [OF xy(3) a(3)] by (simp add: fround_def [of F32 0])
qed

lemma catmull_rom_knot:
  assumes "fbd 65536 s0" "fbd 65536 (Fin x)" "fbd 65536 s2" "fbd 65536 s3" "rnd F32 x = x"
  shows "catmull_rom s0 (Fin x) s2 s3 (Fin 0) = Fin x"
proof -
  have k: "fbd 1 (Fin (1 / 2))" "fbd 3 (Fin (5 / 2))" "fbd 2 (Fin 2)" "fbd 2 (Fin (3 / 2))" by simp_all
  note s = assms(1-4)
  note c1 = fbd_mul [OF k(1) fbd_sub [OF s(3,1)]]
  note c2 = fbd_sub [OF fbd_add [OF fbd_sub [OF s(1) fbd_mul [OF k(2) s(2)]] fbd_mul [OF k(3) s(3)]] fbd_mul [OF k(1) s(4)]]
  note c3 = fbd_add [OF fbd_mul [OF k(1) fbd_sub [OF s(4,1)]] fbd_mul [OF k(4) fbd_sub [OF s(2,3)]]]
  have h2: "fbd 458752 (fadd F32 (fmul F32 (fadd F32 (fmul F32 (Fin (1 / 2)) (fsub F32 s3 s0))
      (fmul F32 (Fin (3 / 2)) (fsub F32 (Fin x) s2))) (Fin 0))
      (fsub F32 (fadd F32 (fsub F32 s0 (fmul F32 (Fin (5 / 2)) (Fin x))) (fmul F32 (Fin 2) s2)) (fmul F32 (Fin (1 / 2)) s3)))"
    using fbd_horner_0 [OF c3 c2] by simp
  obtain y where y: "fadd F32 (fmul F32 (fadd F32 (fmul F32 (fadd F32 (fmul F32 (Fin (1 / 2)) (fsub F32 s3 s0))
      (fmul F32 (Fin (3 / 2)) (fsub F32 (Fin x) s2))) (Fin 0))
      (fsub F32 (fadd F32 (fsub F32 s0 (fmul F32 (Fin (5 / 2)) (Fin x))) (fmul F32 (Fin 2) s2)) (fmul F32 (Fin (1 / 2)) s3)))
      (Fin 0)) (fmul F32 (Fin (1 / 2)) (fsub F32 s2 s0)) = Fin y"
    using fbd_horner_0 [OF h2 c1] by (auto simp: fbd_def)
  have "fround F32 x = Fin x" using fround_Fin [of 65536 F32 x] assms(2,5) by simp
  then show ?thesis unfolding catmull_rom_def Let_def y by (simp add: fround_def [of F32 0])
qed

definition f32_coord :: "fp \<Rightarrow> bool" where
  "f32_coord v = (case v of Fin x \<Rightarrow> rnd F32 x = x \<and> \<bar>x\<bar> \<le> 65536 | _ \<Rightarrow> False)"

lemma f32_coord_fbd: "f32_coord v \<Longrightarrow> fbd 65536 v \<and> (\<exists>x. v = Fin x \<and> rnd F32 x = x)"
  by (cases v) (auto simp: f32_coord_def)

lemma frac_zero:
  assumes "0 < f" "f < 2 ^ 32"
  shows "fdiv F32 (fof_int F32 0) (fof_int F32 (int f)) = Fin 0"
proof -
  have "int f \<le> 2 ^ 32" using assms(2) by (simp add: zle_int flip: of_nat_le_iff)
  then have "\<bar>rat_of_int (int f)\<bar> \<le> 2 ^ 32" by (metis abs_of_nat of_int_abs of_int_le_iff of_int_numeral of_int_power)
  then have "fround F32 (of_int (int f)) = Fin (rnd F32 (of_int (int f)))" by (rule fround_Fin_pow2) simp
  moreover have "of_int 1 \<le> rnd F32 (of_int (int f))" by (rule rnd_ge_int) (use assms(1) in simp_all)
  ultimately show ?thesis by (auto simp: fof_int_def fround_def [of F32 0])
qed

lemma ref_sample_equal_rates:
  assumes "0 < f" "f < 2 ^ 32" "\<forall>v\<in>set zs. f32_coord v" "n < length zs"
  shows "ref_sample catmull_f32 f f zs n = zs ! n"
proof -
  have in_set: "f32_coord (zs ! min i (length zs - 1))" for i using assms(3,4) by (intro bspec [OF assms(3)] nth_mem) auto
  have n: "min n (length zs - 1) = n" using assms(4) by auto
  obtain x where x: "zs ! n = Fin x" "rnd F32 x = x" using f32_coord_fbd in_set [of n] n by metis
  have "fbd 65536 (zs ! min i (length zs - 1))" for i using f32_coord_fbd in_set by blast
  note kn = catmull_rom_knot [OF this _ this this x(2), of "n - 1" "n + 1" "n + 2"]
  have "fbd 65536 (Fin x)" using f32_coord_fbd in_set [of n] n x(1) by metis
  then show ?thesis using kn assms(1) frac_zero [OF assms(1,2)]
    by (simp only: ref_sample_def catmull_f32_def Let_def n x(1) mod_mult_self2_is_0 nonzero_mult_div_cancel_right int_ops TrueI)
qed

lemma ref_run_equal_rates:
  assumes "0 < f" "f < 2 ^ 32" "\<forall>v\<in>set (xs @ concat cs). f32_coord v"
  shows "ref_run catmull_f32 f f xs cs = cs"
  using assms(3)
proof (induction cs arbitrary: xs)
  case (Cons c cs)
  have c: "ref_count f f n = n" for n using assms(1) by (simp add: ref_count_def)
  have "\<forall>v\<in>set (xs @ c). f32_coord v" using Cons.prems by auto
  then have "map (ref_sample catmull_f32 f f (xs @ c)) [length xs ..< length xs + length c] =
      map (\<lambda>n. (xs @ c) ! n) [length xs ..< length xs + length c]"
    by (intro map_cong refl ref_sample_equal_rates [OF assms(1,2)]) auto
  also have "\<dots> = c" by (rule nth_equalityI) (simp_all add: nth_append)
  finally show ?case using Cons by (simp add: c)
qed simp



end
