(* ===== verification/Wire.thy ===== *)
theory Wire
  imports Prelude
begin

text \<open>
  The contract of a fixed-size wire format: a reader accepts exactly the bytes its writer
  produces, and fails with end-of-input exactly on input that is too short. The lemmas lift the
  contract from one value to a run of values, as the protocols send points.
\<close>

subsection \<open>Inverting readers\<close>

lemma le16_of_le16: "le16 (of_le16 a b) = [a, b]"
proof -
  have "ucast (of_le16 a b) = a" "ucast (drop_bit 8 (of_le16 a b)) = b"
    by (rule bit_word_eqI, (auto simp: of_le16_def bit_simps dest: bit_imp_le_length) [1])+
  then show ?thesis by (simp add: le16_def)
qed

lemma le32_of_le32: "le32 (of_le32 a b c d) = [a, b, c, d]"
proof -
  have "ucast (of_le32 a b c d) = a" "ucast (drop_bit 8 (of_le32 a b c d)) = b"
    "ucast (drop_bit 16 (of_le32 a b c d)) = c" "ucast (drop_bit 24 (of_le32 a b c d)) = d"
    by (rule bit_word_eqI, (auto simp: of_le32_def bit_simps dest: bit_imp_le_length) [1])+
  then show ?thesis by (simp add: le32_def)
qed

named_theorems read_inverts \<open>when a reader succeeds, and when it fails\<close>

lemma read_u8_inverts [read_inverts]:
  "read_u8 bs = Inr (a, r) \<longleftrightarrow> bs = a # r"
  "read_u8 bs = Inl e \<longleftrightarrow> e = UnexpectedEof \<and> length bs < 1"
  by (cases bs; auto)+

lemma read_u16_inverts [read_inverts]:
  "read_u16 bs = Inr (a, r) \<longleftrightarrow> bs = le16 a @ r"
  "read_u16 bs = Inl e \<longleftrightarrow> e = UnexpectedEof \<and> length bs < 2"
proof -
  show "read_u16 bs = Inr (a, r) \<longleftrightarrow> bs = le16 a @ r"
  proof
    show "read_u16 bs = Inr (a, r) \<Longrightarrow> bs = le16 a @ r"
      by (cases bs rule: read_u16.cases) (auto simp: le16_of_le16)
  qed (simp add: read_le)
  show "read_u16 bs = Inl e \<longleftrightarrow> e = UnexpectedEof \<and> length bs < 2"
    by (cases bs rule: read_u16.cases) auto
qed

lemma read_u32_inverts [read_inverts]:
  "read_u32 bs = Inr (a, r) \<longleftrightarrow> bs = le32 a @ r"
  "read_u32 bs = Inl e \<longleftrightarrow> e = UnexpectedEof \<and> length bs < 4"
proof -
  show "read_u32 bs = Inr (a, r) \<longleftrightarrow> bs = le32 a @ r"
  proof
    show "read_u32 bs = Inr (a, r) \<Longrightarrow> bs = le32 a @ r"
      by (cases bs rule: read_u32.cases) (auto simp: le32_of_le32)
  qed (simp add: read_le)
  show "read_u32 bs = Inl e \<longleftrightarrow> e = UnexpectedEof \<and> length bs < 4"
    by (cases bs rule: read_u32.cases) auto
qed

lemma rbind_inverts [read_inverts]:
  "rbind m f bs = Inr (b, s) \<longleftrightarrow> (\<exists>a r. m bs = Inr (a, r) \<and> f a r = Inr (b, s))"
  "rbind m f bs = Inl e \<longleftrightarrow> m bs = Inl e \<or> (\<exists>a r. m bs = Inr (a, r) \<and> f a r = Inl e)"
  by (auto simp: rbind_def split: sum.split)

lemma rreturn_inverts [read_inverts]:
  "rreturn a bs = Inr (b, r) \<longleftrightarrow> a = b \<and> bs = r"
  "rreturn a bs \<noteq> Inl e"
  by (auto simp: rreturn_def)

lemma rfail_inverts [read_inverts]: "rfail e bs \<noteq> Inr p" "rfail e bs = Inl e' \<longleftrightarrow> e' = e"
  by (auto simp: rfail_def)

subsection \<open>The contract\<close>

fun read_n :: "'a reader \<Rightarrow> nat \<Rightarrow> 'a list reader" where
  "read_n rd 0 = rreturn []"
| "read_n rd (Suc n) = rbind rd (\<lambda>a. rbind (read_n rd n) (\<lambda>as. rreturn (a # as)))"

locale wire_codec =
  fixes wr :: "'a \<Rightarrow> u8 list" and rd :: "'a reader" and sz :: nat
  assumes read_iff: "rd bs = Inr (a, r) \<longleftrightarrow> bs = wr a @ r"
    and size_bytes: "length (wr a) = sz"
    and short: "rd bs = Inl e \<Longrightarrow> e = UnexpectedEof \<and> length bs < sz"
begin

lemma roundtrip: "rd (wr a @ r) = Inr (a, r)"
  by (simp add: read_iff)

lemma truncated: "length bs < sz \<Longrightarrow> rd bs = Inl UnexpectedEof"
proof (cases "rd bs")
  case (Inr p)
  assume "length bs < sz"
  moreover have "bs = wr (fst p) @ snd p" using Inr read_iff [of bs "fst p" "snd p"] by simp
  ultimately show ?thesis using size_bytes [of "fst p"] by (metis le_add1 length_append not_le)
qed (use short in simp)

lemma accepts: "sz \<le> length bs \<Longrightarrow> \<exists>a r. rd bs = Inr (a, r)"
  using short [of bs] by (cases "rd bs") auto

lemma wr_inject: "wr a @ r = wr b @ s \<longleftrightarrow> a = b \<and> r = s"
  by (metis read_iff Inr_inject Pair_inject)

lemma read_n_iff: "read_n rd n bs = Inr (as, r) \<longleftrightarrow> length as = n \<and> bs = concat (map wr as) @ r"
proof (induction n arbitrary: as bs)
  case (Suc n)
  then show ?case by (cases as) (auto simp: read_inverts read_iff)
qed (auto simp: read_inverts)

lemma read_n_short: "read_n rd n bs = Inl e \<Longrightarrow> e = UnexpectedEof \<and> length bs < n * sz"
proof (induction n arbitrary: bs)
  case (Suc n)
  then show ?case by (auto simp: read_inverts read_iff size_bytes dest!: short Suc.IH)
qed (simp add: read_inverts)

lemma run_size: "length (concat (map wr as)) = length as * sz"
  by (induction as) (simp_all add: size_bytes)

end

end
