(* ===== verification/Ether_Dream_Protocol.thy ===== *)
theory Ether_Dream_Protocol
  imports Wire Laser_Point
begin

text \<open>
  \<^verbatim>\<open>src/protocols/ether_dream/protocol.rs\<close>: the wire types of the Ether Dream protocol, their
  little-endian writers and readers, the command start bytes and the conversion of points.
  A reader consumes a prefix of the bytes; \<open>io::Error\<close> keeps its kind. The fixed-size types
  satisfy the contract \<open>wire_codec\<close>.
\<close>

subsection \<open>Data types\<close>

record dac_status =
  ds_protocol :: u8
  light_engine_state :: u8
  playback_state :: u8
  ds_source :: u8
  light_engine_flags :: u16
  playback_flags :: u16
  source_flags :: u16
  buffer_fullness :: u16
  ds_point_rate :: u32
  point_count :: u32

record dac_broadcast =
  mac_address :: "u8 \<times> u8 \<times> u8 \<times> u8 \<times> u8 \<times> u8"
  hw_revision :: u16
  sw_revision :: u16
  buffer_capacity :: u16
  max_point_rate :: u32
  br_dac_status :: dac_status

record dac_point =
  dp_control :: u16
  dp_x :: i16
  dp_y :: i16
  dp_r :: u16
  dp_g :: u16
  dp_b :: u16
  dp_i :: u16
  dp_u1 :: u16
  dp_u2 :: u16

record dac_response =
  resp_response :: u8
  resp_command :: u8
  resp_dac_status :: dac_status

definition LIGHT_ENGINE_READY :: u8 where "LIGHT_ENGINE_READY = 0"
definition LIGHT_ENGINE_EMERGENCY_STOP :: u8 where "LIGHT_ENGINE_EMERGENCY_STOP = 3"
definition PLAYBACK_IDLE :: u8 where "PLAYBACK_IDLE = 0"
definition PLAYBACK_PREPARED :: u8 where "PLAYBACK_PREPARED = 1"
definition PLAYBACK_PLAYING :: u8 where "PLAYBACK_PLAYING = 2"
definition RESP_ACK :: u8 where "RESP_ACK = 0x61"
definition RESP_NAK_FULL :: u8 where "RESP_NAK_FULL = 0x46"
definition RESP_NAK_INVALID :: u8 where "RESP_NAK_INVALID = 0x49"
definition RESP_NAK_STOP_CONDITION :: u8 where "RESP_NAK_STOP_CONDITION = 0x21"

subsection \<open>Writers\<close>

definition write_dac_status :: "dac_status \<Rightarrow> u8 list" where
  "write_dac_status s = [ds_protocol s] @ [light_engine_state s] @ [playback_state s] @ [ds_source s] @
     le16 (light_engine_flags s) @ le16 (playback_flags s) @ le16 (source_flags s) @ le16 (buffer_fullness s) @
     le32 (ds_point_rate s) @ le32 (point_count s)"

definition write_mac :: "u8 \<times> u8 \<times> u8 \<times> u8 \<times> u8 \<times> u8 \<Rightarrow> u8 list" where
  "write_mac m = (case m of (m0, m1, m2, m3, m4, m5) \<Rightarrow> [m0, m1, m2, m3, m4, m5])"

definition write_dac_broadcast :: "dac_broadcast \<Rightarrow> u8 list" where
  "write_dac_broadcast b = write_mac (mac_address b) @ le16 (hw_revision b) @ le16 (sw_revision b) @
     le16 (buffer_capacity b) @ le32 (max_point_rate b) @ write_dac_status (br_dac_status b)"

definition write_dac_point :: "dac_point \<Rightarrow> u8 list" where
  "write_dac_point p = le16 (dp_control p) @ le16 (dp_x p) @ le16 (dp_y p) @ le16 (dp_r p) @ le16 (dp_g p) @
     le16 (dp_b p) @ le16 (dp_i p) @ le16 (dp_u1 p) @ le16 (dp_u2 p)"

definition write_dac_response :: "dac_response \<Rightarrow> u8 list" where
  "write_dac_response r = [resp_response r] @ [resp_command r] @ write_dac_status (resp_dac_status r)"

subsection \<open>Readers\<close>

definition read_dac_status :: "dac_status reader" where
  "read_dac_status =
     rbind read_u8 (\<lambda>protocol. rbind read_u8 (\<lambda>le_state. rbind read_u8 (\<lambda>pb_state. rbind read_u8 (\<lambda>src.
     rbind read_u16 (\<lambda>le_flags. rbind read_u16 (\<lambda>pb_flags. rbind read_u16 (\<lambda>src_flags. rbind read_u16 (\<lambda>fullness.
     rbind read_u32 (\<lambda>rate. rbind read_u32 (\<lambda>count.
       rreturn \<lparr>ds_protocol = protocol, light_engine_state = le_state, playback_state = pb_state, ds_source = src,
         light_engine_flags = le_flags, playback_flags = pb_flags, source_flags = src_flags,
         buffer_fullness = fullness, ds_point_rate = rate, point_count = count\<rparr>))))))))))"

definition read_dac_broadcast :: "dac_broadcast reader" where
  "read_dac_broadcast =
     rbind read_u8 (\<lambda>m0. rbind read_u8 (\<lambda>m1. rbind read_u8 (\<lambda>m2. rbind read_u8 (\<lambda>m3. rbind read_u8 (\<lambda>m4. rbind read_u8 (\<lambda>m5.
     rbind read_u16 (\<lambda>hw. rbind read_u16 (\<lambda>sw. rbind read_u16 (\<lambda>cap. rbind read_u32 (\<lambda>rate. rbind read_dac_status (\<lambda>st.
       rreturn \<lparr>mac_address = (m0, m1, m2, m3, m4, m5), hw_revision = hw, sw_revision = sw, buffer_capacity = cap,
         max_point_rate = rate, br_dac_status = st\<rparr>)))))))))))"

definition read_dac_point :: "dac_point reader" where
  "read_dac_point =
     rbind read_u16 (\<lambda>control. rbind read_u16 (\<lambda>x. rbind read_u16 (\<lambda>y. rbind read_u16 (\<lambda>r. rbind read_u16 (\<lambda>g.
     rbind read_u16 (\<lambda>b. rbind read_u16 (\<lambda>i. rbind read_u16 (\<lambda>u1. rbind read_u16 (\<lambda>u2.
       rreturn \<lparr>dp_control = control, dp_x = x, dp_y = y, dp_r = r, dp_g = g, dp_b = b, dp_i = i, dp_u1 = u1, dp_u2 = u2\<rparr>)))))))))"

definition read_dac_response :: "dac_response reader" where
  "read_dac_response =
     rbind read_u8 (\<lambda>response. rbind read_u8 (\<lambda>command. rbind read_dac_status (\<lambda>st.
       rreturn \<lparr>resp_response = response, resp_command = command, resp_dac_status = st\<rparr>)))"

definition DAC_STATUS_SIZE :: nat where "DAC_STATUS_SIZE = 20"
definition DAC_BROADCAST_SIZE :: nat where "DAC_BROADCAST_SIZE = DAC_STATUS_SIZE + 16"
definition DAC_POINT_SIZE :: nat where "DAC_POINT_SIZE = 18"
definition DAC_RESPONSE_SIZE :: nat where "DAC_RESPONSE_SIZE = DAC_STATUS_SIZE + 2"

definition dac_point_from :: "laser_point \<Rightarrow> dac_point" where
  "dac_point_from p = \<lparr>dp_control = 0, dp_x = coord_to_i16_inverted (lp_x p), dp_y = coord_to_i16_inverted (lp_y p),
     dp_r = lp_r p, dp_g = lp_g p, dp_b = lp_b p, dp_i = lp_intensity p, dp_u1 = 0, dp_u2 = 0\<rparr>"

subsection \<open>Commands\<close>

datatype ed_command =
    PrepareStream
  | Begin (begin_low_water_mark: u16) (begin_point_rate: u32)
  | Update (update_low_water_mark: u16) (update_point_rate: u32)
  | PointRate u32
  | Data (data_points: "dac_point list")
  | Stop
  | EmergencyStop
  | EmergencyStopAlt
  | ClearEmergencyStop
  | Ping
  | Version

fun start_byte :: "ed_command \<Rightarrow> u8" where
  "start_byte PrepareStream = 0x70"
| "start_byte (Begin _ _) = 0x62"
| "start_byte (Update _ _) = 0x75"
| "start_byte (PointRate _) = 0x71"
| "start_byte (Data _) = 0x64"
| "start_byte Stop = 0x73"
| "start_byte EmergencyStop = 0x00"
| "start_byte EmergencyStopAlt = 0xff"
| "start_byte ClearEmergencyStop = 0x63"
| "start_byte Ping = 0x3f"
| "start_byte Version = 0x76"

definition write_data :: "dac_point list \<Rightarrow> io_error + u8 list" where
  "write_data points =
     (if umax 16 < length points then Inl InvalidData
      else Inr ([start_byte (Data points)] @ le16 (of_nat (length points)) @ concat (map write_dac_point points)))"

fun write_command :: "ed_command \<Rightarrow> io_error + u8 list" where
  "write_command (Begin lwm rate) = Inr ([start_byte (Begin lwm rate)] @ le16 lwm @ le32 rate)"
| "write_command (Update lwm rate) = Inr ([start_byte (Update lwm rate)] @ le16 lwm @ le32 rate)"
| "write_command (PointRate rate) = Inr ([start_byte (PointRate rate)] @ le32 rate)"
| "write_command (Data points) = write_data points"
| "write_command unit_command = Inr [start_byte unit_command]"

text \<open>
  Every reader of a command checks its start byte and then reads the fields. A unit command reads
  its start byte only.
\<close>

definition expect_start :: "u8 \<Rightarrow> 'a reader \<Rightarrow> 'a reader" where
  "expect_start b rest = rbind read_u8 (\<lambda>c. if c \<noteq> b then rfail InvalidData else rest)"

definition read_unit_command :: "ed_command \<Rightarrow> ed_command reader" where
  "read_unit_command cmd = expect_start (start_byte cmd) (rreturn cmd)"

definition begin_read_fields :: "ed_command reader" where
  "begin_read_fields = rbind read_u16 (\<lambda>lwm. rbind read_u32 (\<lambda>rate. rreturn (Begin lwm rate)))"

definition read_begin :: "ed_command reader" where
  "read_begin = expect_start 0x62 begin_read_fields"

definition update_read_fields :: "ed_command reader" where
  "update_read_fields = rbind read_u16 (\<lambda>lwm. rbind read_u32 (\<lambda>rate. rreturn (Update lwm rate)))"

definition read_update :: "ed_command reader" where
  "read_update = expect_start 0x75 update_read_fields"

definition point_rate_read_fields :: "ed_command reader" where
  "point_rate_read_fields = rbind read_u32 (\<lambda>rate. rreturn (PointRate rate))"

definition read_point_rate :: "ed_command reader" where
  "read_point_rate = expect_start 0x71 point_rate_read_fields"

definition read_points :: "u16 \<Rightarrow> dac_point list reader" where
  "read_points n_points = read_n read_dac_point (unat n_points)"

definition data_read_fields :: "ed_command reader" where
  "data_read_fields = rbind read_u16 (\<lambda>n_points. rbind (read_points n_points) (\<lambda>points. rreturn (Data points)))"

definition read_data :: "ed_command reader" where
  "read_data = expect_start 0x64 data_read_fields"

definition read_emergency_stop :: "ed_command reader" where
  "read_emergency_stop = rbind read_u8 (\<lambda>c.
     if c \<noteq> start_byte EmergencyStop \<and> c \<noteq> start_byte EmergencyStopAlt then rfail InvalidData else rreturn EmergencyStop)"

text \<open>The part of \<open>Version::decode_response\<close> before the text decoding: the bytes up to the NUL.\<close>

definition version_bytes :: "u8 list \<Rightarrow> u8 list" where
  "version_bytes raw = takeWhile (\<lambda>b. b \<noteq> 0) raw"

subsection \<open>The fixed-size types are codecs\<close>

interpretation ed_status: wire_codec write_dac_status read_dac_status DAC_STATUS_SIZE
proof
  show "read_dac_status bs = Inr (s, r) \<longleftrightarrow> bs = write_dac_status s @ r" for bs s r
    by (cases s) (auto simp: read_dac_status_def write_dac_status_def read_inverts)
  show "read_dac_status bs = Inl e \<Longrightarrow> e = UnexpectedEof \<and> length bs < DAC_STATUS_SIZE" for bs e
    by (auto simp: read_dac_status_def DAC_STATUS_SIZE_def read_inverts)
qed (simp add: write_dac_status_def DAC_STATUS_SIZE_def)

interpretation ed_broadcast: wire_codec write_dac_broadcast read_dac_broadcast DAC_BROADCAST_SIZE
proof
  show "read_dac_broadcast bs = Inr (s, r) \<longleftrightarrow> bs = write_dac_broadcast s @ r" for bs s r
    by (cases s) (auto simp: read_dac_broadcast_def write_dac_broadcast_def write_mac_def read_inverts ed_status.read_iff)
  show "read_dac_broadcast bs = Inl e \<Longrightarrow> e = UnexpectedEof \<and> length bs < DAC_BROADCAST_SIZE" for bs e
    by (auto simp: read_dac_broadcast_def DAC_BROADCAST_SIZE_def read_inverts ed_status.read_iff dest!: ed_status.short)
qed (simp add: write_dac_broadcast_def DAC_BROADCAST_SIZE_def write_mac_def ed_status.size_bytes split: prod.split)

interpretation ed_point: wire_codec write_dac_point read_dac_point DAC_POINT_SIZE
proof
  show "read_dac_point bs = Inr (s, r) \<longleftrightarrow> bs = write_dac_point s @ r" for bs s r
    by (cases s) (auto simp: read_dac_point_def write_dac_point_def read_inverts)
  show "read_dac_point bs = Inl e \<Longrightarrow> e = UnexpectedEof \<and> length bs < DAC_POINT_SIZE" for bs e
    by (auto simp: read_dac_point_def DAC_POINT_SIZE_def read_inverts)
qed (simp add: write_dac_point_def DAC_POINT_SIZE_def)

interpretation ed_response: wire_codec write_dac_response read_dac_response DAC_RESPONSE_SIZE
proof
  show "read_dac_response bs = Inr (s, r) \<longleftrightarrow> bs = write_dac_response s @ r" for bs s r
    by (cases s) (auto simp: read_dac_response_def write_dac_response_def read_inverts ed_status.read_iff)
  show "read_dac_response bs = Inl e \<Longrightarrow> e = UnexpectedEof \<and> length bs < DAC_RESPONSE_SIZE" for bs e
    by (auto simp: read_dac_response_def DAC_RESPONSE_SIZE_def read_inverts ed_status.read_iff dest!: ed_status.short)
qed (simp add: write_dac_response_def DAC_RESPONSE_SIZE_def ed_status.size_bytes)

text \<open>
  C15 (Ether Dream wire types): for status, broadcast, point and response, the reader accepts
  exactly the bytes the writer produces, whatever follows them, and fails with end of input
  exactly when fewer bytes than the type's declared size arrive.
\<close>

theorem ether_dream_wire_types:
  "(read_dac_status bs = Inr (s, r) \<longleftrightarrow> bs = write_dac_status s @ r) \<and>
   (read_dac_broadcast bs = Inr (b, r) \<longleftrightarrow> bs = write_dac_broadcast b @ r) \<and>
   (read_dac_point bs = Inr (p, r) \<longleftrightarrow> bs = write_dac_point p @ r) \<and>
   (read_dac_response bs = Inr (a, r) \<longleftrightarrow> bs = write_dac_response a @ r) \<and>
   (read_dac_status bs = Inl e \<longleftrightarrow> e = UnexpectedEof \<and> length bs < 20) \<and>
   (read_dac_broadcast bs = Inl e \<longleftrightarrow> e = UnexpectedEof \<and> length bs < 36) \<and>
   (read_dac_point bs = Inl e \<longleftrightarrow> e = UnexpectedEof \<and> length bs < 18) \<and>
   (read_dac_response bs = Inl e \<longleftrightarrow> e = UnexpectedEof \<and> length bs < 22)"
  using ed_status.short [of bs e] ed_status.truncated [of bs] ed_broadcast.short [of bs e] ed_broadcast.truncated [of bs]
    ed_point.short [of bs e] ed_point.truncated [of bs] ed_response.short [of bs e] ed_response.truncated [of bs]
  by (auto simp: ed_status.read_iff ed_broadcast.read_iff ed_point.read_iff ed_response.read_iff
      DAC_STATUS_SIZE_def DAC_BROADCAST_SIZE_def DAC_POINT_SIZE_def DAC_RESPONSE_SIZE_def)

subsection \<open>Commands\<close>

text \<open>The \<open>ReadFromBytes\<close> instance of each command type; \<open>EmergencyStopAlt\<close> has none of its own and
  is read as an \<open>EmergencyStop\<close>.\<close>

fun command_reader :: "ed_command \<Rightarrow> ed_command reader" where
  "command_reader (Begin _ _) = read_begin"
| "command_reader (Update _ _) = read_update"
| "command_reader (PointRate _) = read_point_rate"
| "command_reader (Data _) = read_data"
| "command_reader EmergencyStop = read_emergency_stop"
| "command_reader EmergencyStopAlt = read_emergency_stop"
| "command_reader unit_command = read_unit_command unit_command"

lemmas command_reader_defs = read_begin_def read_update_def read_point_rate_def read_data_def read_emergency_stop_def
  read_unit_command_def expect_start_def

lemma write_starts_with: "write_command c = Inr w \<Longrightarrow> \<exists>t. w = start_byte c # t"
  by (cases c) (auto simp: write_data_def split: if_splits)

lemma command_reader_rejects:
  "b \<noteq> start_byte d \<Longrightarrow> {b, start_byte d} \<noteq> {0x00, 0xff} \<Longrightarrow> command_reader d (b # t) = Inl InvalidData"
  by (cases d) (auto simp: command_reader_defs rbind_def rfail_def insert_commute)

lemma data_roundtrip:
  assumes "write_data ps = Inr w"
  shows "read_data (w @ r) = Inr (Data ps, r)"
proof -
  have n: "length ps \<le> umax 16" and w: "w = [0x64] @ le16 (of_nat (length ps)) @ concat (map write_dac_point ps)"
    using assms by (auto simp: write_data_def split: if_splits)
  have "unat (of_nat (length ps) :: u16) = length ps"
    using n by (simp add: unat_of_nat umax_def)
  then have "read_points (of_nat (length ps)) (concat (map write_dac_point ps) @ r) = Inr (ps, r)"
    by (simp add: read_points_def ed_point.read_n_iff)
  then show ?thesis
    unfolding w by (simp add: read_data_def expect_start_def data_read_fields_def codec_simps)
qed

lemma command_roundtrip:
  assumes "write_command c = Inr w"
  shows "command_reader c (w @ r) = Inr (if c = EmergencyStopAlt then EmergencyStop else c, r)"
proof (cases c)
  case (Data ps)
  then show ?thesis using assms data_roundtrip by simp
qed (use assms in \<open>auto simp: command_reader_defs begin_read_fields_def update_read_fields_def
      point_rate_read_fields_def codec_simps\<close>)

text \<open>
  C16 (Ether Dream commands): a command is written unless it is a \<open>Data\<close> command of more than 65535
  points, and its own reader recovers it and leaves the bytes that follow; the reader of any
  other command type rejects it as invalid, except that the two emergency stop bytes are
  interchangeable.
\<close>

theorem ether_dream_commands:
  "(write_command c = Inl e \<longleftrightarrow> e = InvalidData \<and> (\<exists>ps. c = Data ps \<and> 65535 < length ps)) \<and>
   (\<forall>w. write_command c = Inr w \<longrightarrow>
     command_reader c (w @ r) = Inr (if c = EmergencyStopAlt then EmergencyStop else c, r) \<and>
     (\<forall>d. start_byte d \<noteq> start_byte c \<longrightarrow> {start_byte c, start_byte d} \<noteq> {0x00, 0xff} \<longrightarrow>
       command_reader d (w @ r) = Inl InvalidData))"
proof (intro conjI allI impI)
  show "write_command c = Inl e \<longleftrightarrow> e = InvalidData \<and> (\<exists>ps. c = Data ps \<and> 65535 < length ps)"
    by (cases c) (auto simp: write_data_def umax_def)
  fix w assume w: "write_command c = Inr w"
  show "command_reader c (w @ r) = Inr (if c = EmergencyStopAlt then EmergencyStop else c, r)"
    by (rule command_roundtrip [OF w])
  fix d assume "start_byte d \<noteq> start_byte c" "{start_byte c, start_byte d} \<noteq> {0x00, 0xff}"
  moreover obtain t where "w = start_byte c # t" using write_starts_with [OF w] by blast
  ultimately show "command_reader d (w @ r) = Inl InvalidData" by (simp add: command_reader_rejects)
qed

theorem ether_dream_commands_witness:
  "command_reader (Data []) (([0x64] @ le16 0) @ [7]) = Inr (Data [], [7]) \<and>
   command_reader Stop (([0x64] @ le16 0) @ [7]) = Inl InvalidData"
proof -
  have w: "write_command (Data []) = Inr ([0x64] @ le16 0)" by (simp add: write_data_def)
  note t = ether_dream_commands [of "Data []" InvalidData "[7]", THEN conjunct2, rule_format, OF w]
  show ?thesis using t [THEN conjunct1] t [THEN conjunct2, THEN spec [of _ Stop]] by (simp add: doubleton_eq_iff)
qed

end
