(* ===== verification/Ether_Dream_Profile.thy ===== *)
theory Ether_Dream_Profile
  imports Ether_Dream_Protocol
begin

text \<open>
  \<^verbatim>\<open>src/protocols/ether_dream/profile.rs\<close>: what an Ether Dream firmware advertises and how it
  behaves, and the four presets. The free-form \<open>notes\<close> of a profile are left out: no code reads
  them.
\<close>

datatype provenance = HardwareVerified | FirmwareSource | Unverified

record firmware_profile =
  fw_name :: string
  fw_provenance :: provenance
  fw_mac_address :: "u8 \<times> u8 \<times> u8 \<times> u8 \<times> u8 \<times> u8"
  fw_hw_revision :: u16
  fw_sw_revision :: u16
  fw_buffer_capacity :: u16
  fw_max_point_rate :: u32
  version_string :: "string option"
  always_set_playback_flags :: u16
  ring_points :: u16
  naks_full :: bool
  begin_while_idle_acked :: bool
  stop_while_idle_naks :: bool
  stale_fullness_until_prepare :: bool
  estop_clear_immediate :: bool
  unknown_command_resets_tcp :: bool
  data_partial_write_then_nak_invalid :: bool
  data_while_idle_nak_invalid :: bool
  enforce_single_client :: bool
  rate_nak_consumes_one_byte :: bool
  zero_rate_hangs :: bool
  close_stops_playback :: bool
  light_engine_flags_mirror_state :: bool

definition ed1_j4cdac :: firmware_profile where
  "ed1_j4cdac = \<lparr>
     fw_name = ''ed1-j4cdac'',
     fw_provenance = FirmwareSource,
     fw_mac_address = (0x02, 0xed, 0x00, 0x00, 0x00, 0x01),
     fw_hw_revision = 0,
     fw_sw_revision = 2,
     fw_buffer_capacity = 1799,
     fw_max_point_rate = 100000,
     version_string = Some ''sim-ed1-j4cdac'',
     always_set_playback_flags = 0,
     ring_points = 1799,
     naks_full = False,
     begin_while_idle_acked = True,
     stop_while_idle_naks = True,
     stale_fullness_until_prepare = True,
     estop_clear_immediate = True,
     unknown_command_resets_tcp = True,
     data_partial_write_then_nak_invalid = True,
     data_while_idle_nak_invalid = True,
     enforce_single_client = False,
     rate_nak_consumes_one_byte = True,
     zero_rate_hangs = True,
     close_stops_playback = False,
     light_engine_flags_mirror_state = True\<rparr>"

definition ed2_r331 :: firmware_profile where
  "ed2_r331 = \<lparr>
     fw_name = ''ed2-r331'',
     fw_provenance = HardwareVerified,
     fw_mac_address = (0x02, 0xed, 0x00, 0x00, 0x00, 0x02),
     fw_hw_revision = 10,
     fw_sw_revision = 2,
     fw_buffer_capacity = 3899,
     fw_max_point_rate = 100000,
     version_string = Some ''r331-ed4bef5'',
     always_set_playback_flags = 0x5f31,
     ring_points = 3899,
     naks_full = False,
     begin_while_idle_acked = True,
     stop_while_idle_naks = True,
     stale_fullness_until_prepare = True,
     estop_clear_immediate = True,
     unknown_command_resets_tcp = True,
     data_partial_write_then_nak_invalid = True,
     data_while_idle_nak_invalid = True,
     enforce_single_client = False,
     rate_nak_consumes_one_byte = True,
     zero_rate_hangs = True,
     close_stops_playback = True,
     light_engine_flags_mirror_state = True\<rparr>"

definition ed3 :: firmware_profile where
  "ed3 = ed2_r331\<lparr>fw_name := ''ed3'', fw_provenance := Unverified,
     fw_mac_address := (0x02, 0xed, 0x00, 0x00, 0x00, 0x03),
     fw_buffer_capacity := 4095, ring_points := 4095, version_string := Some ''sim-ed3''\<rparr>"

definition ed4 :: firmware_profile where
  "ed4 = ed2_r331\<lparr>fw_name := ''ed4'', fw_provenance := Unverified,
     fw_mac_address := (0x02, 0xed, 0x00, 0x00, 0x00, 0x04),
     fw_buffer_capacity := 8191, ring_points := 8191, version_string := Some ''sim-ed4''\<rparr>"

definition all_profiles :: "firmware_profile list" where
  "all_profiles = [ed1_j4cdac, ed2_r331, ed3, ed4]"

definition identify :: "string \<Rightarrow> firmware_profile option" where
  "identify version = find (\<lambda>p. version_string p = Some version) all_profiles"

lemma preset_versions [simp]:
  "version_string ed1_j4cdac = Some ''sim-ed1-j4cdac''" "version_string ed2_r331 = Some ''r331-ed4bef5''"
  "version_string ed3 = Some ''sim-ed3''" "version_string ed4 = Some ''sim-ed4''"
  by (simp_all add: ed1_j4cdac_def ed2_r331_def ed3_def ed4_def)

lemma preset_versions_distinct: "distinct (map version_string all_profiles)"
  by (simp add: all_profiles_def)

definition profile_ok :: "firmware_profile \<Rightarrow> bool" where
  "profile_ok q \<longleftrightarrow> fw_buffer_capacity q \<le> ring_points q \<and> 0 < fw_buffer_capacity q \<and>
     0 < fw_max_point_rate q \<and> length (the (version_string q)) \<le> 32"

lemma presets_ok: "profile_ok ed1_j4cdac" "profile_ok ed2_r331" "profile_ok ed3" "profile_ok ed4"
  by (simp_all add: profile_ok_def) (simp_all add: ed1_j4cdac_def ed2_r331_def ed3_def ed4_def)

lemma find_distinct:
  "distinct (map f xs) \<Longrightarrow> find (\<lambda>p. f p = k) xs = Some p \<longleftrightarrow> p \<in> set xs \<and> f p = k"
  by (induction xs) (auto simp: image_iff)

text \<open>
  Firmware presets: a build string identifies exactly the preset that answers it, and every
  preset holds at least the capacity it advertises, can be driven at some nonzero rate, and has
  a build string that fits the 32-byte reply.
\<close>

theorem presets_identified:
  "(identify v = Some p \<longleftrightarrow> p \<in> set all_profiles \<and> version_string p = Some v) \<and>
   (identify v = None \<longleftrightarrow> Some v \<notin> version_string ` set all_profiles) \<and>
   list_all profile_ok all_profiles"
proof (intro conjI)
  show "identify v = Some p \<longleftrightarrow> p \<in> set all_profiles \<and> version_string p = Some v"
    unfolding identify_def by (rule find_distinct [OF preset_versions_distinct])
  show "identify v = None \<longleftrightarrow> Some v \<notin> version_string ` set all_profiles"
    unfolding identify_def find_None_iff by (auto simp: image_iff)
  show "list_all profile_ok all_profiles" by (simp add: all_profiles_def presets_ok)
qed

end
