(* ===== verification/Ether_Dream_Sim.thy ===== *)
theory Ether_Dream_Sim
  imports Ether_Dream_Profile Time_Model
begin

text \<open>
  \<^verbatim>\<open>src/protocols/ether_dream/sim/model.rs\<close>: the transport-free, clock-injected state machine of
  an Ether Dream DAC that the crate tests its backend against. Commands arrive as raw bytes and
  are answered with replies; playback advances with the injected clock. Time is in nanoseconds.
  A panic of the source (an \<open>expect\<close> or a slice out of range) is a value, and is shown never to
  occur.
\<close>

subsection \<open>State\<close>

definition PBF_SHUTTER :: u16 where "PBF_SHUTTER = 0x1"
definition PBF_UNDERFLOW :: u16 where "PBF_UNDERFLOW = 0x2"
definition PBF_ESTOP :: u16 where "PBF_ESTOP = 0x4"
definition CONTROL_CHANGE_RATE :: u16 where "CONTROL_CHANGE_RATE = 0x8000"
definition RATE_QUEUE_LEN :: nat where "RATE_QUEUE_LEN = 200"
definition WARMUP :: duration where "WARMUP = 100000000"
definition LIGHT_ENGINE_WARMUP :: u8 where "LIGHT_ENGINE_WARMUP = 1"

datatype reply =
    RespReply dac_response
  | VersionReply "u8 list"
  | ResetReply
  | HangReply

fun reply_to_bytes :: "reply \<Rightarrow> u8 list" where
  "reply_to_bytes (RespReply r) = write_dac_response r"
| "reply_to_bytes (VersionReply b) = b"
| "reply_to_bytes ResetReply = []"
| "reply_to_bytes HangReply = []"

record ed_model =
  em_profile :: firmware_profile
  em_now :: duration
  em_input :: "u8 list"
  em_light_engine :: u8
  em_warmup_until :: "duration option"
  em_interlock_ok :: bool
  em_playback :: u8
  em_sticky :: u16
  em_ring :: "dac_point list"
  em_point_count :: u32
  em_rate_queue :: "u32 list"
  em_seg_start :: duration
  em_seg_rate :: u32
  em_seg_played :: nat
  em_hung :: bool
  em_accepted_total :: nat
  em_played_total :: nat
  em_underflows :: nat
  em_overfull_writes :: nat
  em_nak_replies :: nat
  em_record_output :: bool
  em_output :: "dac_point list"
  em_record_input :: bool
  em_commands :: "u8 list"
  em_received_points :: "dac_point list"
  em_inject :: "(u8 \<times> u8 list) option"
  em_reply_override :: "(u8 \<times> u8) option"

definition em_new :: "firmware_profile \<Rightarrow> ed_model" where
  "em_new profile = \<lparr>
     em_profile = profile, em_now = 0, em_input = [],
     em_light_engine = LIGHT_ENGINE_READY, em_warmup_until = None, em_interlock_ok = True,
     em_playback = PLAYBACK_IDLE, em_sticky = 0, em_ring = [], em_point_count = 0, em_rate_queue = [],
     em_seg_start = 0, em_seg_rate = 0, em_seg_played = 0, em_hung = False,
     em_accepted_total = 0, em_played_total = 0, em_underflows = 0, em_overfull_writes = 0, em_nak_replies = 0,
     em_record_output = False, em_output = [], em_record_input = False, em_commands = [],
     em_received_points = [], em_inject = None, em_reply_override = None\<rparr>"

definition em_set_record_output :: "bool \<Rightarrow> ed_model \<Rightarrow> ed_model" where
  "em_set_record_output on m = m\<lparr>em_record_output := on\<rparr>"

definition take_output :: "ed_model \<Rightarrow> dac_point list \<times> ed_model" where
  "take_output m = (em_output m, m\<lparr>em_output := []\<rparr>)"

definition em_set_record_input :: "bool \<Rightarrow> ed_model \<Rightarrow> ed_model" where
  "em_set_record_input on m = m\<lparr>em_record_input := on\<rparr>"

definition inject_before :: "u8 \<Rightarrow> u8 list \<Rightarrow> ed_model \<Rightarrow> ed_model" where
  "inject_before opcode bytes m = m\<lparr>em_inject := Some (opcode, bytes)\<rparr>"

definition override_reply_code :: "u8 \<Rightarrow> u8 \<Rightarrow> ed_model \<Rightarrow> ed_model" where
  "override_reply_code opcode code m = m\<lparr>em_reply_override := Some (opcode, code)\<rparr>"

subsection \<open>Playback\<close>

definition start_segment :: "duration \<Rightarrow> u32 \<Rightarrow> ed_model \<Rightarrow> ed_model" where
  "start_segment start rate m = m\<lparr>em_seg_start := start, em_seg_rate := rate, em_seg_played := 0\<rparr>"

definition point_time :: "ed_model \<Rightarrow> nat \<Rightarrow> duration" where
  "point_time m k = em_seg_start m + div_ceil (k * nanos_per_sec) (unat (max (em_seg_rate m) 1)) mod 2 ^ 64"

definition em_underflow :: "ed_model \<Rightarrow> ed_model" where
  "em_underflow m = m\<lparr>em_underflows := em_underflows m + 1, em_playback := PLAYBACK_IDLE,
     em_sticky := em_sticky m OR PBF_UNDERFLOW, em_seg_rate := 0, em_point_count := 0, em_rate_queue := []\<rparr>"

definition estop :: "ed_model \<Rightarrow> ed_model" where
  "estop m = m\<lparr>em_light_engine := LIGHT_ENGINE_EMERGENCY_STOP, em_warmup_until := None, em_playback := PLAYBACK_IDLE,
     em_sticky := em_sticky m OR PBF_ESTOP, em_seg_rate := 0, em_rate_queue := [],
     em_ring := (if \<not> stale_fullness_until_prepare (em_profile m) then [] else em_ring m)\<rparr>"

definition due_points :: "duration \<Rightarrow> ed_model \<Rightarrow> nat" where
  "due_points now m = ((now - em_seg_start m) * unat (em_seg_rate m) div nanos_per_sec) mod 2 ^ 64"

definition play_point :: "dac_point \<Rightarrow> dac_point list \<Rightarrow> ed_model \<Rightarrow> ed_model" where
  "play_point point rest m =
     (let m = m\<lparr>em_ring := rest, em_seg_played := em_seg_played m + 1, em_played_total := em_played_total m + 1,
                em_point_count := em_point_count m + 1,
                em_output := (if em_record_output m then em_output m @ [point] else em_output m)\<rparr>
      in if dp_control point AND CONTROL_CHANGE_RATE \<noteq> 0
         then (case em_rate_queue m of
                 [] \<Rightarrow> m
               | rate # q \<Rightarrow> let m = m\<lparr>em_rate_queue := q\<rparr> in start_segment (point_time m (em_seg_played m)) rate m)
         else m)"

lemma play_point_ring [simp]: "em_ring (play_point point rest m) = rest"
  by (simp add: play_point_def Let_def start_segment_def split: list.split)

function play_loop :: "duration \<Rightarrow> ed_model \<Rightarrow> ed_model" where
  "play_loop now m =
     (if em_playback m \<noteq> PLAYBACK_PLAYING then m
      else if due_points now m \<le> em_seg_played m then m
      else case em_ring m of
             [] \<Rightarrow> em_underflow m
           | point # rest \<Rightarrow> play_loop now (play_point point rest m))"
  by pat_completeness auto
termination by (relation "measure (\<lambda>(now, m). length (em_ring m))") auto

declare play_loop.simps [simp del]

definition advance_to :: "duration \<Rightarrow> ed_model \<Rightarrow> ed_model" where
  "advance_to now m =
     (if now \<le> em_now m then m
      else let m = m\<lparr>em_now := now\<rparr>;
               m = (case em_warmup_until m of
                      None \<Rightarrow> m
                    | Some until \<Rightarrow> if until \<le> now
                        then m\<lparr>em_warmup_until := None, em_light_engine := LIGHT_ENGINE_READY\<rparr> else m)
           in play_loop now m)"

definition set_interlock :: "bool \<Rightarrow> ed_model \<Rightarrow> ed_model" where
  "set_interlock ok m =
     (let m = (if em_interlock_ok m \<and> \<not> ok then estop m else m) in m\<lparr>em_interlock_ok := ok\<rparr>)"

definition trigger_estop :: "duration \<Rightarrow> ed_model \<Rightarrow> ed_model" where
  "trigger_estop now m = estop (advance_to now m)"

definition connection_closed :: "duration \<Rightarrow> ed_model \<Rightarrow> ed_model" where
  "connection_closed now m =
     (let m = advance_to now m
      in if \<not> close_stops_playback (em_profile m) \<or> em_playback m \<noteq> PLAYBACK_PLAYING then m
         else m\<lparr>em_playback := PLAYBACK_IDLE, em_seg_rate := 0, em_point_count := 0, em_rate_queue := [],
                em_ring := (if \<not> stale_fullness_until_prepare (em_profile m) then [] else em_ring m)\<rparr>)"

subsection \<open>Reports\<close>

definition em_status :: "ed_model \<Rightarrow> dac_status" where
  "em_status m =
     (let playing = (em_playback m = PLAYBACK_PLAYING);
          lef = (if em_light_engine m = LIGHT_ENGINE_EMERGENCY_STOP
                 then if light_engine_flags_mirror_state (em_profile m) then 0x3 else 0x1 else 0)
      in \<lparr>ds_protocol = 0, light_engine_state = em_light_engine m, playback_state = em_playback m, ds_source = 0,
          light_engine_flags = lef,
          playback_flags = always_set_playback_flags (em_profile m) OR em_sticky m OR (if playing then PBF_SHUTTER else 0),
          source_flags = 0,
          buffer_fullness = of_nat (min (length (em_ring m)) (umax 16)),
          ds_point_rate = (if playing then em_seg_rate m else 0),
          point_count = (if playing then em_point_count m else 0)\<rparr>)"

definition respond :: "ed_model \<Rightarrow> u8 \<Rightarrow> u8 \<Rightarrow> dac_response" where
  "respond m code command = \<lparr>resp_response = code, resp_command = command, resp_dac_status = em_status m\<rparr>"

definition em_hello :: "ed_model \<Rightarrow> dac_response" where
  "em_hello m = respond m RESP_ACK 0x3f"

definition em_broadcast :: "ed_model \<Rightarrow> dac_broadcast" where
  "em_broadcast m = \<lparr>mac_address = fw_mac_address (em_profile m), hw_revision = fw_hw_revision (em_profile m),
     sw_revision = fw_sw_revision (em_profile m), buffer_capacity = fw_buffer_capacity (em_profile m),
     max_point_rate = fw_max_point_rate (em_profile m), br_dac_status = em_status m\<rparr>"

subsection \<open>Commands\<close>

text \<open>
  \<open>step\<close> answers one command: it needs more input, or it consumed some bytes and replied. The
  handlers below are the arms of its match, in the order of the source.
\<close>

datatype step_result = Incomplete | Stepped nat reply ed_model | StepPanic

definition ack :: "ed_model \<Rightarrow> u8 \<Rightarrow> reply" where
  "ack m cmd = RespReply (respond m RESP_ACK cmd)"

definition nak_i :: "ed_model \<Rightarrow> u8 \<Rightarrow> reply" where
  "nak_i m cmd = RespReply (respond m RESP_NAK_INVALID cmd)"

definition check_rate :: "ed_model \<Rightarrow> u8 \<Rightarrow> u32 \<Rightarrow> nat \<Rightarrow> step_result option" where
  "check_rate m cmd rate full_len =
     (if rate = 0 \<and> zero_rate_hangs (em_profile m) then Some (Stepped full_len HangReply (m\<lparr>em_hung := True\<rparr>))
      else if rate = 0 \<or> fw_max_point_rate (em_profile m) < rate
      then Some (Stepped (if rate_nak_consumes_one_byte (em_profile m) then 1 else full_len) (nak_i m cmd) m)
      else None)"

definition step_prepare :: "ed_model \<Rightarrow> u8 \<Rightarrow> step_result" where
  "step_prepare m cmd =
     (if em_playback m \<noteq> PLAYBACK_IDLE \<or> em_light_engine m \<noteq> LIGHT_ENGINE_READY then Stepped 1 (nak_i m cmd) m
      else let m = m\<lparr>em_playback := PLAYBACK_PREPARED, em_ring := [], em_point_count := 0, em_rate_queue := [],
                      em_sticky := 0\<rparr>
           in Stepped 1 (ack m cmd) m)"

definition step_begin_update :: "ed_model \<Rightarrow> u8 \<Rightarrow> u8 list \<Rightarrow> step_result" where
  "step_begin_update m cmd input =
     (if length input < 7 then Incomplete
      else let rate = of_le32 (input ! 3) (input ! 4) (input ! 5) (input ! 6)
      in case check_rate m cmd rate 7 of
           Some r \<Rightarrow> r
         | None \<Rightarrow>
           if cmd = 0x75 \<or> em_playback m = PLAYBACK_PLAYING
           then let m = (if em_playback m = PLAYBACK_PLAYING then start_segment (em_now m) rate m else m)
                in Stepped 7 (ack m cmd) m
           else if em_playback m = PLAYBACK_PREPARED
           then let m = (start_segment (em_now m) rate (m\<lparr>em_playback := PLAYBACK_PLAYING\<rparr>))\<lparr>em_point_count := 0\<rparr>
                in Stepped 7 (ack m cmd) m
           else if begin_while_idle_acked (em_profile m) then Stepped 7 (ack m cmd) m
           else Stepped 7 (nak_i m cmd) m)"

definition step_queue_rate :: "ed_model \<Rightarrow> u8 \<Rightarrow> u8 list \<Rightarrow> step_result" where
  "step_queue_rate m cmd input =
     (if length input < 5 then Incomplete
      else let rate = of_le32 (input ! 1) (input ! 2) (input ! 3) (input ! 4)
      in case check_rate m cmd rate 5 of
           Some r \<Rightarrow> r
         | None \<Rightarrow>
           let m = (if em_playback m \<noteq> PLAYBACK_IDLE \<and> length (em_rate_queue m) < RATE_QUEUE_LEN - 1
                    then m\<lparr>em_rate_queue := em_rate_queue m @ [rate]\<rparr> else m)
           in Stepped 5 (ack m cmd) m)"

definition data_outcome :: "firmware_profile \<Rightarrow> nat \<Rightarrow> nat \<Rightarrow> nat \<times> u8" where
  "data_outcome p n space =
     (if n \<le> space then (n, RESP_ACK)
      else if naks_full p then (0, RESP_NAK_FULL)
      else if data_partial_write_then_nak_invalid p then (space, RESP_NAK_INVALID)
      else (0, RESP_NAK_INVALID))"

definition data_count :: "u8 list \<Rightarrow> nat" where
  "data_count input = unat (of_le16 (input ! 1) (input ! 2))"

definition data_total :: "u8 list \<Rightarrow> nat" where
  "data_total input = 3 + data_count input * DAC_POINT_SIZE"

definition write_ring :: "ed_model \<Rightarrow> u8 \<Rightarrow> u8 list \<Rightarrow> step_result" where
  "write_ring m cmd input =
     (let n = data_count input;
          space = unat (ring_points (em_profile m)) - length (em_ring m);
          m = (if space < n then m\<lparr>em_overfull_writes := em_overfull_writes m + 1\<rparr> else m);
          (tk, code) = data_outcome (em_profile m) n space
      in case read_n read_dac_point tk (take (tk * DAC_POINT_SIZE) (drop 3 input)) of
           Inl e \<Rightarrow> StepPanic
         | Inr (points, rest) \<Rightarrow>
           let m = m\<lparr>em_ring := em_ring m @ points, em_accepted_total := em_accepted_total m + tk\<rparr>
           in Stepped (data_total input) (RespReply (respond m code cmd)) m)"

definition step_data :: "ed_model \<Rightarrow> u8 \<Rightarrow> u8 list \<Rightarrow> step_result" where
  "step_data m cmd input =
     (if length input < 3 then Incomplete
      else if length input < data_total input then Incomplete
      else if data_count input = 0 then Stepped (data_total input) (ack m cmd) m
      else if em_playback m = PLAYBACK_IDLE
      then Stepped (data_total input) (if data_while_idle_nak_invalid (em_profile m) then nak_i m cmd else ack m cmd) m
      else write_ring m cmd input)"

definition step_stop :: "ed_model \<Rightarrow> u8 \<Rightarrow> step_result" where
  "step_stop m cmd =
     (if em_playback m = PLAYBACK_IDLE
      then Stepped 1 (if stop_while_idle_naks (em_profile m) then nak_i m cmd else ack m cmd) m
      else let m = m\<lparr>em_playback := PLAYBACK_IDLE, em_seg_rate := 0, em_rate_queue := [],
                      em_ring := (if \<not> stale_fullness_until_prepare (em_profile m) then [] else em_ring m)\<rparr>
           in Stepped 1 (ack m cmd) m)"

definition step_clear :: "ed_model \<Rightarrow> u8 \<Rightarrow> step_result" where
  "step_clear m cmd =
     (if \<not> em_interlock_ok m then Stepped 1 (RespReply (respond m RESP_NAK_STOP_CONDITION cmd)) m
      else let m = (if em_light_engine m = LIGHT_ENGINE_EMERGENCY_STOP
                    then if estop_clear_immediate (em_profile m) then m\<lparr>em_light_engine := LIGHT_ENGINE_READY\<rparr>
                         else m\<lparr>em_light_engine := LIGHT_ENGINE_WARMUP, em_warmup_until := Some (em_now m + WARMUP)\<rparr>
                    else m)
           in if em_light_engine m \<noteq> LIGHT_ENGINE_READY
              then Stepped 1 (RespReply (respond m RESP_NAK_STOP_CONDITION cmd)) m
              else Stepped 1 (ack m cmd) m)"

definition version_raw :: "string \<Rightarrow> u8 list" where
  "version_raw s = (let b = map of_char s; n = min (length b) 32 in take n b @ replicate (32 - n) 0)"

definition em_step :: "ed_model \<Rightarrow> u8 list \<Rightarrow> step_result" where
  "em_step m input =
     (case input of
        [] \<Rightarrow> Incomplete
      | cmd # _ \<Rightarrow>
        if cmd = 0x70 then step_prepare m cmd
        else if cmd = 0x62 \<or> cmd = 0x75 then step_begin_update m cmd input
        else if cmd = 0x71 then step_queue_rate m cmd input
        else if cmd = 0x64 then step_data m cmd input
        else if cmd = 0x73 then step_stop m cmd
        else if cmd = 0x00 \<or> cmd = 0xff then (let m = estop m in Stepped 1 (ack m cmd) m)
        else if cmd = 0x63 then step_clear m cmd
        else if cmd = 0x3f then Stepped 1 (ack m cmd) m
        else (case (if cmd = 0x76 then version_string (em_profile m) else None) of
                Some s \<Rightarrow> Stepped 1 (VersionReply (version_raw s)) m
              | None \<Rightarrow>
                if unknown_command_resets_tcp (em_profile m) then Stepped (length input) ResetReply m
                else Stepped 1 (nak_i m cmd) m))"

definition command_complete :: "u8 list \<Rightarrow> bool" where
  "command_complete input =
     (case input of
        [] \<Rightarrow> False
      | cmd # _ \<Rightarrow>
        if cmd = 0x62 \<or> cmd = 0x75 then 7 \<le> length input
        else if cmd = 0x71 then 5 \<le> length input
        else if cmd = 0x64
        then 3 \<le> length input \<and> data_total input \<le> length input
        else True)"

subsection \<open>One command never panics and consumes what it reads\<close>

lemma em_step_rule:
  assumes "c = 0x70 \<Longrightarrow> P (step_prepare m c)"
    and "c = 0x62 \<or> c = 0x75 \<Longrightarrow> P (step_begin_update m c (c # t))"
    and "c = 0x71 \<Longrightarrow> P (step_queue_rate m c (c # t))"
    and "c = 0x64 \<Longrightarrow> P (step_data m c (c # t))"
    and "c = 0x73 \<Longrightarrow> P (step_stop m c)"
    and "c = 0x00 \<or> c = 0xff \<Longrightarrow> P (Stepped 1 (ack (estop m) c) (estop m))"
    and "c = 0x63 \<Longrightarrow> P (step_clear m c)"
    and "c = 0x3f \<Longrightarrow> P (Stepped 1 (ack m c) m)"
    and "\<And>s. c = 0x76 \<Longrightarrow> version_string (em_profile m) = Some s \<Longrightarrow> P (Stepped 1 (VersionReply (version_raw s)) m)"
    and "c \<noteq> 0x62 \<Longrightarrow> c \<noteq> 0x75 \<Longrightarrow> c \<noteq> 0x71 \<Longrightarrow> c \<noteq> 0x64 \<Longrightarrow> P (Stepped (Suc (length t)) ResetReply m)"
    and "c \<noteq> 0x62 \<Longrightarrow> c \<noteq> 0x75 \<Longrightarrow> c \<noteq> 0x71 \<Longrightarrow> c \<noteq> 0x64 \<Longrightarrow> P (Stepped 1 (nak_i m c) m)"
  shows "P (em_step m (c # t))"
  unfolding em_step_def Let_def using assms by (auto split: option.split)

lemma data_outcome_le: "data_outcome p n space = (tk, code) \<Longrightarrow> tk \<le> n \<and> tk \<le> space"
  by (auto simp: data_outcome_def split: if_splits)

lemma decode_run:
  assumes "tk \<le> data_count input" "data_total input \<le> length input"
  shows "\<exists>ps. length ps = tk \<and> read_n read_dac_point tk (take (tk * DAC_POINT_SIZE) (drop 3 input)) = Inr (ps, [])"
proof -
  let ?bs = "take (tk * DAC_POINT_SIZE) (drop 3 input)"
  have "tk * DAC_POINT_SIZE \<le> data_count input * DAC_POINT_SIZE" using assms(1) by (rule mult_le_mono1)
  then have "tk * DAC_POINT_SIZE \<le> length input - 3" using assms(2) unfolding data_total_def by linarith
  then have len: "length ?bs = tk * DAC_POINT_SIZE" by (simp add: min_absorb2)
  show ?thesis
  proof (cases "read_n read_dac_point tk ?bs")
    case (Inl e)
    then show ?thesis using ed_point.read_n_short [of tk ?bs e] len by simp
  next
    case (Inr p)
    then have p: "length (fst p) = tk" "?bs = concat (map write_dac_point (fst p)) @ snd p"
      using ed_point.read_n_iff [of tk ?bs "fst p" "snd p"] by simp_all
    then have "snd p = []" using len ed_point.run_size [of "fst p"] by (metis add_cancel_right_right length_0_conv length_append)
    with Inr p(1) show ?thesis by (metis prod.collapse)
  qed
qed

lemma write_ring_eq:
  assumes "data_total input \<le> length input"
  obtains ps code over where "length ps \<le> unat (ring_points (em_profile m)) - length (em_ring m)"
    "write_ring m cmd input = (let m = m\<lparr>em_overfull_writes := over, em_ring := em_ring m @ ps,
       em_accepted_total := em_accepted_total m + length ps\<rparr> in Stepped (data_total input) (RespReply (respond m code cmd)) m)"
proof -
  define space where "space = unat (ring_points (em_profile m)) - length (em_ring m)"
  define over where "over = (if space < data_count input then em_overfull_writes m + 1 else em_overfull_writes m)"
  obtain tk code where out: "data_outcome (em_profile m) (data_count input) space = (tk, code)" by fastforce
  from data_outcome_le [OF out] have "tk \<le> data_count input" "tk \<le> space" by auto
  moreover from decode_run [OF this(1) assms] obtain ps where ps:
    "length ps = tk" "read_n read_dac_point tk (take (tk * DAC_POINT_SIZE) (drop 3 input)) = Inr (ps, [])" by blast
  moreover have "write_ring m cmd input = (let m = m\<lparr>em_overfull_writes := over, em_ring := em_ring m @ ps,
       em_accepted_total := em_accepted_total m + length ps\<rparr> in Stepped (data_total input) (RespReply (respond m code cmd)) m)"
    using ps out by (simp add: write_ring_def Let_def over_def flip: space_def)
  ultimately show thesis using that [of ps over code] unfolding space_def by simp
qed

definition step_wf :: "u8 list \<Rightarrow> step_result \<Rightarrow> bool" where
  "step_wf input r = (case r of Incomplete \<Rightarrow> True | StepPanic \<Rightarrow> False | Stepped n _ _ \<Rightarrow> 0 < n \<and> n \<le> length input)"

lemma step_data_wf: "step_wf input (step_data m cmd input)"
proof (cases "length input < 3 \<or> length input < data_total input \<or> data_count input = 0 \<or> em_playback m = PLAYBACK_IDLE")
  case True
  then show ?thesis by (auto simp: step_data_def step_wf_def data_total_def)
next
  case False
  then have t: "data_total input \<le> length input" by auto
  then obtain r m' where "write_ring m cmd input = Stepped (data_total input) r m'"
    by (rule write_ring_eq [of input m cmd]) (simp add: Let_def)
  then show ?thesis using False t by (simp add: step_data_def step_wf_def data_total_def)
qed

lemma check_rate_wf: "check_rate m cmd rate k = Some r \<Longrightarrow> 0 < k \<Longrightarrow> k \<le> length input \<Longrightarrow> step_wf input r"
  by (auto simp: check_rate_def step_wf_def split: if_splits)

lemma step_handlers_wf:
  "input \<noteq> [] \<Longrightarrow> step_wf input (step_prepare m cmd)"
  "step_wf input (step_begin_update m cmd input)"
  "step_wf input (step_queue_rate m cmd input)"
  "input \<noteq> [] \<Longrightarrow> step_wf input (step_stop m cmd)"
  "input \<noteq> [] \<Longrightarrow> step_wf input (step_clear m cmd)"
  "input \<noteq> [] \<Longrightarrow> step_wf input (Stepped 1 r m)"
proof -
  show p: "step_wf input (Stepped 1 r m)" if "input \<noteq> []" for r m using that by (cases input) (auto simp: step_wf_def)
  show "input \<noteq> [] \<Longrightarrow> step_wf input (step_prepare m cmd)" "input \<noteq> [] \<Longrightarrow> step_wf input (step_stop m cmd)"
    "input \<noteq> [] \<Longrightarrow> step_wf input (step_clear m cmd)"
    by (simp_all add: step_prepare_def step_stop_def step_clear_def Let_def p del: One_nat_def)
  have wf: "step_wf input Incomplete" "step_wf input (Stepped k r m) \<longleftrightarrow> 0 < k \<and> k \<le> length input" for k r m
    by (simp_all add: step_wf_def)
  show "step_wf input (step_begin_update m cmd input)"
  proof (cases "length input < 7")
    case False
    then have "7 \<le> length input" by simp
    note cr = check_rate_wf [OF _ _ this]
    show ?thesis using False unfolding step_begin_update_def Let_def by (simp add: wf cr split: option.split)
  qed (simp add: step_begin_update_def wf)
  show "step_wf input (step_queue_rate m cmd input)"
  proof (cases "length input < 5")
    case False
    then have "5 \<le> length input" by simp
    note cr = check_rate_wf [OF _ _ this]
    show ?thesis using False unfolding step_queue_rate_def Let_def by (simp add: wf cr split: option.split)
  qed (simp add: step_queue_rate_def wf)
qed

lemma em_step_wf: "step_wf input (em_step m input)"
proof (cases input)
  case (Cons c t)
  show ?thesis unfolding Cons
  proof (rule em_step_rule [where P = "step_wf (c # t)"])
    show "step_wf (c # t) (Stepped (Suc (length t)) ResetReply m)" by (simp add: step_wf_def)
  qed (rule step_handlers_wf step_data_wf; simp)+
qed (simp add: em_step_def step_wf_def)

lemma em_step_not_panic [simp]: "em_step m input \<noteq> StepPanic"
  using em_step_wf [of input m] by (auto simp: step_wf_def)

lemma em_step_consumes: "em_step m input = Stepped n r m' \<Longrightarrow> 0 < n \<and> n \<le> length input"
  using em_step_wf [of input m] by (simp add: step_wf_def)

subsection \<open>Processing a connection\<close>

text \<open>The injected commands of another client run until one is incomplete.\<close>

function inject_loop :: "u8 list \<Rightarrow> ed_model \<Rightarrow> ed_model option" where
  "inject_loop other m =
     (case em_step m other of
        Incomplete \<Rightarrow> Some m
      | StepPanic \<Rightarrow> None
      | Stepped n r m' \<Rightarrow> inject_loop (drop n other) m')"
  by pat_completeness auto
termination
  by (relation "measure (\<lambda>(other, m). length other)") (auto dest!: em_step_consumes)

declare inject_loop.simps [simp del]

text \<open>Whether the injection fired, and the model after it.\<close>

definition run_injection :: "u8 list \<Rightarrow> ed_model \<Rightarrow> (bool \<times> ed_model) option" where
  "run_injection input m =
     (case (input, em_inject m) of
        (op # _, Some (want, other)) \<Rightarrow>
          if op = want \<and> command_complete input
          then map_option (Pair True) (inject_loop other (m\<lparr>em_inject := None\<rparr>)) else Some (False, m)
      | _ \<Rightarrow> Some (False, m))"

definition finish_reply :: "reply \<Rightarrow> ed_model \<Rightarrow> reply \<times> ed_model" where
  "finish_reply reply m =
     (case reply of
        RespReply r \<Rightarrow>
          let (r, m) = (case em_reply_override m of
                          Some (op, code) \<Rightarrow> if op = resp_command r then (r\<lparr>resp_response := code\<rparr>, m\<lparr>em_reply_override := None\<rparr>) else (r, m)
                        | None \<Rightarrow> (r, m))
          in (RespReply r, if resp_response r \<noteq> RESP_ACK then m\<lparr>em_nak_replies := em_nak_replies m + 1\<rparr> else m)
      | _ \<Rightarrow> (reply, m))"

function read_run :: "u8 list \<Rightarrow> dac_point list option" where
  "read_run rest =
     (if length rest < DAC_POINT_SIZE then Some []
      else case read_dac_point rest of
             Inl e \<Rightarrow> None
           | Inr (p, rest') \<Rightarrow> map_option (\<lambda>ps. p # ps) (read_run rest'))"
  by pat_completeness auto
termination
  by (relation "measure length") (auto simp: ed_point.read_iff ed_point.size_bytes DAC_POINT_SIZE_def)

declare read_run.simps [simp del]

definition em_record :: "u8 list \<Rightarrow> ed_model \<Rightarrow> ed_model option" where
  "em_record bytes m =
     (case bytes of
        [] \<Rightarrow> Some m
      | op # _ \<Rightarrow>
        let m = m\<lparr>em_commands := em_commands m @ [op]\<rparr>
        in if op = 0x64 \<and> 3 \<le> length bytes
           then map_option (\<lambda>ps. m\<lparr>em_received_points := em_received_points m @ ps\<rparr>) (read_run (drop 3 bytes))
           else Some m)"

definition first_byte :: "u8 list \<Rightarrow> u8 option" where
  "first_byte input = (case input of [] \<Rightarrow> None | b # _ \<Rightarrow> Some b)"

text \<open>The loop of \<open>process_with\<close>; \<open>budget\<close> is \<open>max_commands - handled\<close>.\<close>

function process_loop :: "u8 option \<Rightarrow> nat \<Rightarrow> u8 list \<Rightarrow> ed_model \<Rightarrow> (reply list \<times> u8 list \<times> ed_model) option" where
  "process_loop stop_before budget input m =
     (if budget = 0 then Some ([], input, m)
      else if stop_before \<noteq> None \<and> first_byte input = stop_before then Some ([], input, m)
      else Option.bind (run_injection input m) (\<lambda>(fired, m1).
        if fired \<and> em_hung m1 then Some ([], [], m1)
        else case em_step m1 input of
               Incomplete \<Rightarrow> Some ([], input, m1)
             | StepPanic \<Rightarrow> None
             | Stepped consumed reply m2 \<Rightarrow>
               let (reply, m3) = finish_reply reply m2
               in Option.bind (if em_record_input m3 then em_record (take consumed input) m3 else Some m3) (\<lambda>m4.
                 if reply = ResetReply \<or> reply = HangReply then Some ([reply], [], m4)
                 else Option.bind (process_loop stop_before (budget - 1) (drop consumed input) m4)
                        (\<lambda>(replies, input, m). Some (reply # replies, input, m)))))"
  by pat_completeness auto
termination by (relation "measure (\<lambda>(s, b, i, m). b)") auto

declare process_loop.simps [simp del]

definition process_with :: "duration \<Rightarrow> u8 list \<Rightarrow> u8 option \<Rightarrow> nat \<Rightarrow> ed_model \<Rightarrow> (reply list \<times> u8 list \<times> ed_model) option" where
  "process_with now input stop_before max_commands m =
     (let m = advance_to now m
      in if em_hung m then Some ([], [], m) else process_loop stop_before max_commands input m)"

definition em_process :: "duration \<Rightarrow> u8 list \<Rightarrow> ed_model \<Rightarrow> (reply list \<times> u8 list \<times> ed_model) option" where
  "em_process now input m = process_with now input None (umax 64) m"

definition process_before :: "duration \<Rightarrow> u8 list \<Rightarrow> u8 \<Rightarrow> ed_model \<Rightarrow> (reply list \<times> u8 list \<times> ed_model) option" where
  "process_before now input opcode m = process_with now input (Some opcode) (umax 64) m"

definition process_one :: "duration \<Rightarrow> u8 list \<Rightarrow> ed_model \<Rightarrow> (reply list \<times> u8 list \<times> ed_model) option" where
  "process_one now input m = process_with now input None 1 m"

definition feed :: "duration \<Rightarrow> u8 list \<Rightarrow> ed_model \<Rightarrow> (reply list \<times> ed_model) option" where
  "feed now bytes m = map_option (\<lambda>(replies, input, m). (replies, m\<lparr>em_input := input\<rparr>))
     (em_process now (em_input m @ bytes) (m\<lparr>em_input := []\<rparr>))"

subsection \<open>Command encoders\<close>

definition cmd_prepare :: "u8 list" where "cmd_prepare = [0x70]"

definition rate_cmd :: "u8 \<Rightarrow> u16 \<Rightarrow> u32 \<Rightarrow> u8 list" where
  "rate_cmd op low_water rate = [op] @ le16 low_water @ le32 rate"

definition cmd_begin :: "u32 \<Rightarrow> u8 list" where "cmd_begin rate = rate_cmd 0x62 0 rate"

definition cmd_update :: "u32 \<Rightarrow> u8 list" where "cmd_update rate = rate_cmd 0x75 0 rate"

definition cmd_queue_rate :: "u32 \<Rightarrow> u8 list" where "cmd_queue_rate rate = [0x71] @ le32 rate"

definition cmd_data :: "dac_point list \<Rightarrow> u8 list option" where
  "cmd_data points = (if umax 16 < length points then None
     else Some ([0x64] @ le16 (of_nat (length points)) @ concat (map write_dac_point points)))"

definition cmd_blank :: dac_point where
  "cmd_blank = \<lparr>dp_control = 0, dp_x = 0, dp_y = 0, dp_r = 0, dp_g = 0, dp_b = 0, dp_i = 0, dp_u1 = 0, dp_u2 = 0\<rparr>"

definition cmd_blank_data :: "nat \<Rightarrow> u8 list option" where
  "cmd_blank_data n = cmd_data (replicate n cmd_blank)"

end
