(* ===== verification/Ether_Dream_Sim_Inv.thy ===== *)
theory Ether_Dream_Sim_Inv
  imports Ether_Dream_Sim
begin

text \<open>
  Safety of the simulated Ether Dream: an invariant of every reachable model, and with it that
  processing any bytes of a connection returns and that every response on the wire is one a
  safe DAC may send.
\<close>

subsection \<open>The invariant\<close>

text \<open>
  Of every reachable model: the ring and the rate queue are bounded, every rate in use or queued
  is one the firmware accepts, the DAC prepares and plays only with a ready light engine, a
  warmup always has an end, rates are queued only for a stream, and no more points are played
  or held than were accepted.
\<close>

definition rate_ok :: "firmware_profile \<Rightarrow> u32 \<Rightarrow> bool" where
  "rate_ok p r \<longleftrightarrow> 0 < r \<and> r \<le> fw_max_point_rate p"

definition em_inv :: "ed_model \<Rightarrow> bool" where
  "em_inv m \<longleftrightarrow>
     em_playback m \<in> {PLAYBACK_IDLE, PLAYBACK_PREPARED, PLAYBACK_PLAYING} \<and>
     em_light_engine m \<in> {LIGHT_ENGINE_READY, LIGHT_ENGINE_WARMUP, LIGHT_ENGINE_EMERGENCY_STOP} \<and>
     (em_warmup_until m = None \<longleftrightarrow> em_light_engine m \<noteq> LIGHT_ENGINE_WARMUP) \<and>
     (em_playback m \<noteq> PLAYBACK_IDLE \<longrightarrow> em_light_engine m = LIGHT_ENGINE_READY) \<and>
     length (em_ring m) \<le> unat (ring_points (em_profile m)) \<and>
     length (em_rate_queue m) < RATE_QUEUE_LEN \<and> list_all (rate_ok (em_profile m)) (em_rate_queue m) \<and>
     (em_playback m = PLAYBACK_IDLE \<longrightarrow> em_rate_queue m = []) \<and>
     (em_playback m = PLAYBACK_PLAYING \<longrightarrow> rate_ok (em_profile m) (em_seg_rate m)) \<and>
     em_played_total m + length (em_ring m) \<le> em_accepted_total m"

lemmas state_consts = PLAYBACK_IDLE_def PLAYBACK_PREPARED_def PLAYBACK_PLAYING_def LIGHT_ENGINE_READY_def
  LIGHT_ENGINE_WARMUP_def LIGHT_ENGINE_EMERGENCY_STOP_def RATE_QUEUE_LEN_def

lemma em_inv_bookkeeping [simp]:
  "em_inv (m\<lparr>em_nak_replies := n\<rparr>) = em_inv m" "em_inv (m\<lparr>em_reply_override := ov\<rparr>) = em_inv m"
  "em_inv (m\<lparr>em_inject := ij\<rparr>) = em_inv m" "em_inv (m\<lparr>em_commands := cs\<rparr>) = em_inv m"
  "em_inv (m\<lparr>em_received_points := ps\<rparr>) = em_inv m" "em_inv (m\<lparr>em_input := i\<rparr>) = em_inv m"
  "em_inv (m\<lparr>em_record_input := b\<rparr>) = em_inv m" "em_inv (m\<lparr>em_record_output := b\<rparr>) = em_inv m"
  "em_inv (m\<lparr>em_output := ps\<rparr>) = em_inv m" "em_inv (m\<lparr>em_interlock_ok := b\<rparr>) = em_inv m"
  "em_inv (m\<lparr>em_hung := b\<rparr>) = em_inv m"
  by (simp_all add: em_inv_def)

lemma em_new_inv: "em_inv (em_new p)"
  by (simp add: em_inv_def em_new_def state_consts)

lemma estop_inv: "em_inv m \<Longrightarrow> em_inv (estop m)"
  by (auto simp: em_inv_def estop_def state_consts)

lemma em_underflow_inv: "em_inv m \<Longrightarrow> em_inv (em_underflow m)"
  by (auto simp: em_inv_def em_underflow_def state_consts)

lemma play_point_inv:
  assumes "em_inv m" "em_playback m = PLAYBACK_PLAYING" "em_ring m = point # rest"
  shows "em_inv (play_point point rest m)"
proof (cases "dp_control point AND CONTROL_CHANGE_RATE \<noteq> 0 \<and> em_rate_queue m \<noteq> []")
  case True
  then obtain r q where "em_rate_queue m = r # q" by (cases "em_rate_queue m") auto
  with True assms show ?thesis by (simp add: play_point_def em_inv_def Let_def start_segment_def state_consts)
next
  case False
  then show ?thesis using assms by (cases "em_rate_queue m") (auto simp: play_point_def em_inv_def Let_def state_consts)
qed

text \<open>A property kept by an underflow and by one point is kept by playback.\<close>

lemma play_loop_preserves:
  assumes "P m" "\<And>m. P m \<Longrightarrow> em_playback m = PLAYBACK_PLAYING \<Longrightarrow> P (em_underflow m)"
    and "\<And>m point rest. P m \<Longrightarrow> em_playback m = PLAYBACK_PLAYING \<Longrightarrow> em_ring m = point # rest \<Longrightarrow> P (play_point point rest m)"
  shows "P (play_loop now m)"
  using assms(1)
proof (induction now m rule: play_loop.induct)
  case (1 now m)
  show ?case
  proof (cases "em_playback m = PLAYBACK_PLAYING \<and> \<not> due_points now m \<le> em_seg_played m")
    case True
    then show ?thesis
    proof (cases "em_ring m")
      case Nil
      then show ?thesis using True assms(2) [OF 1(2)] by (subst play_loop.simps) simp
    next
      case (Cons point rest)
      then show ?thesis using True "1.IH" [OF _ _ Cons] assms(3) [OF 1(2) _ Cons] by (subst play_loop.simps) simp
    qed
  next
    case False
    then have "play_loop now m = m" by (subst play_loop.simps) auto
    then show ?thesis using 1(2) by simp
  qed
qed

lemma play_loop_inv: "em_inv m \<Longrightarrow> em_inv (play_loop now m)"
  by (rule play_loop_preserves) (auto intro: em_underflow_inv play_point_inv)

lemma play_loop_profile: "em_profile (play_loop now m) = em_profile m"
  by (rule play_loop_preserves [where P = "\<lambda>m'. em_profile m' = em_profile m"])
     (auto simp: em_underflow_def play_point_def Let_def start_segment_def split: list.split)

definition warm_to :: "duration \<Rightarrow> ed_model \<Rightarrow> ed_model" where
  "warm_to now m = (case em_warmup_until m of
     None \<Rightarrow> m\<lparr>em_now := now\<rparr>
   | Some until \<Rightarrow> if until \<le> now
       then m\<lparr>em_now := now, em_warmup_until := None, em_light_engine := LIGHT_ENGINE_READY\<rparr> else m\<lparr>em_now := now\<rparr>)"

lemma advance_to_eq: "advance_to now m = (if now \<le> em_now m then m else play_loop now (warm_to now m))"
  by (simp add: advance_to_def warm_to_def Let_def split: option.split)

lemma warm_to_inv: "em_inv m \<Longrightarrow> em_inv (warm_to now m)"
  by (auto simp: warm_to_def em_inv_def state_consts split: option.split)

lemma advance_to_inv: "em_inv m \<Longrightarrow> em_inv (advance_to now m)"
  by (simp add: advance_to_eq play_loop_inv warm_to_inv)

text \<open>What a status frame of a reachable model says, and so every response.\<close>

definition status_ok :: "firmware_profile \<Rightarrow> dac_status \<Rightarrow> bool" where
  "status_ok p s \<longleftrightarrow> buffer_fullness s \<le> ring_points p \<and>
     (playback_state s \<noteq> PLAYBACK_IDLE \<longrightarrow> light_engine_state s = LIGHT_ENGINE_READY) \<and>
     (playback_state s = PLAYBACK_PLAYING \<longrightarrow> rate_ok p (ds_point_rate s)) \<and>
     (playback_state s \<noteq> PLAYBACK_PLAYING \<longrightarrow> ds_point_rate s = 0)"

definition reply_ok :: "firmware_profile \<Rightarrow> reply \<Rightarrow> bool" where
  "reply_ok p r = (case r of RespReply a \<Rightarrow> status_ok p (resp_dac_status a) | VersionReply b \<Rightarrow> length b = 32 | _ \<Rightarrow> True)"

definition step_ok :: "firmware_profile \<Rightarrow> step_result \<Rightarrow> bool" where
  "step_ok p r = (case r of Stepped _ reply m \<Rightarrow> em_inv m \<and> em_profile m = p \<and> reply_ok p reply | _ \<Rightarrow> True)"

lemma em_status_ok: "em_inv m \<Longrightarrow> status_ok (em_profile m) (em_status m)"
proof -
  assume i: "em_inv m"
  have n: "length (em_ring m) \<le> unat (ring_points (em_profile m))" using i by (simp add: em_inv_def)
  also have "\<dots> \<le> umax 16" using unat_word_le_umax [of "ring_points (em_profile m)"] by simp
  finally have le: "length (em_ring m) \<le> umax 16" .
  then have "min (length (em_ring m)) (umax 16) = length (em_ring m)" by simp
  moreover have "unat (of_nat (length (em_ring m)) :: u16) = length (em_ring m)"
    using le by (simp add: unat_of_nat umax_def)
  ultimately have "buffer_fullness (em_status m) \<le> ring_points (em_profile m)"
    using n by (simp add: em_status_def Let_def word_le_nat_alt)
  moreover have "playback_state (em_status m) = em_playback m" "light_engine_state (em_status m) = em_light_engine m"
    "ds_point_rate (em_status m) = (if em_playback m = PLAYBACK_PLAYING then em_seg_rate m else 0)"
    by (simp_all add: em_status_def Let_def)
  ultimately show ?thesis using i unfolding status_ok_def em_inv_def by (metis (no_types, lifting))
qed

lemma respond_ok: "em_inv m \<Longrightarrow> reply_ok (em_profile m) (RespReply (respond m code cmd))"
  by (simp add: reply_ok_def respond_def em_status_ok)

lemma ack_nak_ok: "em_inv m \<Longrightarrow> reply_ok (em_profile m) (ack m cmd)" "em_inv m \<Longrightarrow> reply_ok (em_profile m) (nak_i m cmd)"
  by (simp_all add: ack_def nak_i_def respond_ok)

lemma Stepped_ok:
  assumes "em_inv m" "em_profile m = p"
  shows "step_ok p (Stepped k (ack m cmd) m)" "step_ok p (Stepped k (nak_i m cmd) m)"
    "step_ok p (Stepped k (RespReply (respond m code cmd)) m)"
  using assms ack_nak_ok respond_ok by (auto simp: step_ok_def)

lemma start_segment_inv:
  "em_inv m \<Longrightarrow> rate_ok (em_profile m) rate \<Longrightarrow> em_inv (start_segment now rate m)"
  by (auto simp: em_inv_def start_segment_def)

lemma check_rate_None: "check_rate m cmd rate k = None \<longleftrightarrow> rate_ok (em_profile m) rate"
  by (auto simp: check_rate_def rate_ok_def word_gt_0 not_less)

lemma check_rate_ok:
  assumes "em_inv m" "em_profile m = p" "check_rate m cmd rate k = Some r"
  shows "step_ok p r"
proof -
  show ?thesis using assms Stepped_ok [OF assms(1,2)]
    by (auto simp: check_rate_def step_ok_def reply_ok_def split: if_splits)
qed

lemma step_prepare_ok: "em_inv m \<Longrightarrow> em_profile m = p \<Longrightarrow> step_ok p (step_prepare m cmd)"
  unfolding step_prepare_def Let_def
  by (auto intro!: Stepped_ok simp: em_inv_def state_consts)

lemma step_begin_update_ok:
  assumes "em_inv m" "em_profile m = p"
  shows "step_ok p (step_begin_update m cmd input)"
proof (cases "check_rate m cmd (of_le32 (input ! 3) (input ! 4) (input ! 5) (input ! 6)) 7")
  case None
  define rate where "rate = of_le32 (input ! 3) (input ! 4) (input ! 5) (input ! 6)"
  have rate: "rate_ok (em_profile m) rate" using None by (simp add: check_rate_None rate_def)
  have "em_inv (start_segment (em_now m) rate m)" using assms(1) rate by (rule start_segment_inv)
  moreover have "em_inv ((start_segment (em_now m) rate (m\<lparr>em_playback := PLAYBACK_PLAYING\<rparr>))\<lparr>em_point_count := 0\<rparr>)"
    if "em_playback m = PLAYBACK_PREPARED"
    using that assms(1) rate by (auto simp: em_inv_def start_segment_def state_consts)
  ultimately show ?thesis using None assms unfolding step_begin_update_def rate_def [symmetric] Let_def
    by (auto intro!: Stepped_ok simp: start_segment_def step_ok_def [of _ Incomplete])
next
  case (Some r)
  then show ?thesis using check_rate_ok [OF assms Some] by (simp add: step_begin_update_def step_ok_def [of _ Incomplete])
qed

lemma step_queue_rate_ok:
  assumes "em_inv m" "em_profile m = p"
  shows "step_ok p (step_queue_rate m cmd input)"
proof (cases "check_rate m cmd (of_le32 (input ! 1) (input ! 2) (input ! 3) (input ! 4)) 5")
  case None
  define rate where "rate = of_le32 (input ! 1) (input ! 2) (input ! 3) (input ! 4)"
  have "rate_ok (em_profile m) rate" using None by (simp only: check_rate_None rate_def)
  then have "em_inv (m\<lparr>em_rate_queue := em_rate_queue m @ [rate]\<rparr>)"
    if "em_playback m \<noteq> PLAYBACK_IDLE" "length (em_rate_queue m) < RATE_QUEUE_LEN - 1"
    using that assms(1) by (auto simp: em_inv_def)
  then show ?thesis using None assms unfolding step_queue_rate_def rate_def [symmetric] Let_def
    by (auto intro!: Stepped_ok simp: step_ok_def [of _ Incomplete])
next
  case (Some r)
  then show ?thesis using check_rate_ok [OF assms Some]
    by (simp add: step_queue_rate_def Let_def step_ok_def [of _ Incomplete] del: One_nat_def)
qed

lemma step_data_ok:
  assumes "em_inv m" "em_profile m = p"
  shows "step_ok p (step_data m cmd input)"
proof (cases "length input < 3 \<or> length input < data_total input \<or> data_count input = 0 \<or> em_playback m = PLAYBACK_IDLE")
  case True
  then show ?thesis using Stepped_ok [OF assms] by (auto simp: step_data_def step_ok_def [of _ Incomplete])
next
  case False
  then have "data_total input \<le> length input" by auto
  then obtain ps over code where w: "length ps \<le> unat (ring_points (em_profile m)) - length (em_ring m)"
    "write_ring m cmd input = (let m = m\<lparr>em_overfull_writes := over, em_ring := em_ring m @ ps,
       em_accepted_total := em_accepted_total m + length ps\<rparr> in Stepped (data_total input) (RespReply (respond m code cmd)) m)"
    by (rule write_ring_eq [of input m cmd])
  let ?m = "m\<lparr>em_overfull_writes := over, em_ring := em_ring m @ ps, em_accepted_total := em_accepted_total m + length ps\<rparr>"
  have "length (em_ring m) + length ps \<le> unat (ring_points (em_profile m))"
    using assms(1) w(1) unfolding em_inv_def by linarith
  then have "em_inv ?m" using assms(1) by (simp add: em_inv_def)
  from Stepped_ok(3) [OF this, of p] show ?thesis using False w(2) assms(2) by (simp add: step_data_def Let_def)
qed

lemma step_stop_ok:
  assumes "em_inv m" "em_profile m = p"
  shows "step_ok p (step_stop m cmd)"
proof -
  let ?m = "m\<lparr>em_playback := PLAYBACK_IDLE, em_seg_rate := 0, em_rate_queue := [],
    em_ring := (if \<not> stale_fullness_until_prepare (em_profile m) then [] else em_ring m)\<rparr>"
  have "em_inv ?m" "em_profile ?m = p" using assms by (auto simp: em_inv_def state_consts)
  then show ?thesis using Stepped_ok [OF assms] Stepped_ok(1) [of ?m p] by (simp add: step_stop_def Let_def)
qed

lemma step_clear_ok:
  assumes "em_inv m" "em_profile m = p"
  shows "step_ok p (step_clear m cmd)"
proof -
  let ?r = "m\<lparr>em_light_engine := LIGHT_ENGINE_READY\<rparr>"
  let ?w = "m\<lparr>em_light_engine := LIGHT_ENGINE_WARMUP, em_warmup_until := Some (em_now m + WARMUP)\<rparr>"
  have i: "em_inv ?r" "em_inv ?w" if "em_light_engine m = LIGHT_ENGINE_EMERGENCY_STOP"
    using that assms(1) by (auto simp: em_inv_def state_consts)
  define m' where "m' = (if em_light_engine m = LIGHT_ENGINE_EMERGENCY_STOP
    then if estop_clear_immediate (em_profile m) then ?r else ?w else m)"
  have "em_inv m'" "em_profile m' = p" using i assms by (auto simp: m'_def)
  from Stepped_ok [OF this] show ?thesis
    using Stepped_ok [OF assms] unfolding step_clear_def Let_def m'_def [symmetric] by simp
qed

lemma version_raw_length: "length (version_raw s) = 32"
  by (simp add: version_raw_def Let_def)

lemma em_step_ok:
  assumes "em_inv m" "em_profile m = p"
  shows "step_ok p (em_step m input)"
proof (cases input)
  case (Cons c t)
  have e: "em_inv (estop m)" "em_profile (estop m) = p" using estop_inv [OF assms(1)] assms(2) by (simp_all add: estop_def)
  show ?thesis unfolding Cons
  proof (rule em_step_rule [where P = "step_ok p"])
    show "step_ok p (Stepped (Suc (length t)) ResetReply m)" using assms by (simp add: step_ok_def reply_ok_def)
    show "step_ok p (Stepped 1 (VersionReply (version_raw s)) m)" for s
      using assms by (simp add: step_ok_def reply_ok_def version_raw_length)
  qed (use assms e in \<open>simp_all only: step_prepare_ok step_begin_update_ok step_queue_rate_ok step_data_ok step_stop_ok
         step_clear_ok Stepped_ok\<close>)
qed (simp add: em_step_def step_ok_def)

lemma inject_loop_ok:
  "em_inv m \<Longrightarrow> em_profile m = p \<Longrightarrow> \<exists>m'. inject_loop other m = Some m' \<and> em_inv m' \<and> em_profile m' = p"
proof (induction other m rule: inject_loop.induct)
  case (1 other m)
  show ?case
  proof (cases "em_step m other")
    case (Stepped n r m')
    then show ?thesis using "1.IH" [OF Stepped] em_step_ok [OF 1(2,3), of other] by (subst inject_loop.simps) (simp add: step_ok_def)
  qed (use 1(2,3) in \<open>simp_all add: inject_loop.simps\<close>)
qed

lemma run_injection_ok:
  assumes "em_inv m" "em_profile m = p"
  shows "\<exists>b m'. run_injection input m = Some (b, m') \<and> em_inv m' \<and> em_profile m' = p"
proof -
  have "em_inv (m\<lparr>em_inject := None\<rparr>)" "em_profile (m\<lparr>em_inject := None\<rparr>) = p" using assms by simp_all
  note il = inject_loop_ok [OF this]
  show ?thesis
  proof (cases "input \<noteq> [] \<and> (\<exists>other. em_inject m = Some (hd input, other)) \<and> command_complete input")
    case True
    then obtain op t other where "input = op # t" "em_inject m = Some (op, other)" by (cases input) auto
    then show ?thesis using True il [of other] by (auto simp: run_injection_def)
  next
    case False
    then have "run_injection input m = Some (False, m)" by (auto simp: run_injection_def split: list.split option.split)
    then show ?thesis using assms by blast
  qed
qed

lemma finish_reply_ok:
  assumes "finish_reply reply m = (reply', m')" "reply_ok p reply" "em_inv m" "em_profile m = p"
  shows "reply_ok p reply' \<and> em_inv m' \<and> em_profile m' = p"
  using assms
  by (auto simp: finish_reply_def reply_ok_def Let_def split: reply.splits option.splits if_splits prod.splits)

lemma read_run_total: "\<exists>ps. read_run bs = Some ps"
proof (induction bs rule: read_run.induct)
  case (1 rest)
  show ?case
  proof (cases "length rest < DAC_POINT_SIZE")
    case False
    then obtain p r where "read_dac_point rest = Inr (p, r)" using ed_point.accepts [of rest] by auto
    moreover from 1 [OF False this refl] obtain ps where "read_run r = Some ps" by blast
    ultimately show ?thesis using False by (simp add: read_run.simps [of rest])
  qed (simp add: read_run.simps [of rest])
qed

lemma em_record_ok:
  assumes "em_inv m" "em_profile m = p"
  shows "\<exists>m'. em_record bytes m = Some m' \<and> em_inv m' \<and> em_profile m' = p"
proof (cases bytes)
  case (Cons op t)
  obtain ps where "read_run (drop 3 bytes) = Some ps" using read_run_total by blast
  then show ?thesis using assms Cons by (simp add: em_record_def Let_def)
qed (use assms in \<open>simp add: em_record_def\<close>)

definition run_ok :: "firmware_profile \<Rightarrow> u8 list \<Rightarrow> (reply list \<times> u8 list \<times> ed_model) option \<Rightarrow> bool" where
  "run_ok p input res \<longleftrightarrow> (\<exists>replies rest m. res = Some (replies, rest, m) \<and> em_inv m \<and> em_profile m = p \<and>
     list_all (reply_ok p) replies \<and> (\<exists>pre. input = pre @ rest))"

lemma run_ok_Cons:
  assumes "run_ok p (drop k input) res" "reply_ok p r"
  shows "run_ok p input (Option.bind res (\<lambda>(replies, input, m). Some (r # replies, input, m)))"
proof -
  obtain replies rest m pre where r: "res = Some (replies, rest, m)" "em_inv m" "em_profile m = p"
    "list_all (reply_ok p) replies" "drop k input = pre @ rest" using assms(1) unfolding run_ok_def by blast
  have "input = (take k input @ pre) @ rest" using r(5) by (metis append_assoc append_take_drop_id)
  then have "\<exists>pre. input = pre @ rest" by (rule exI)
  then show ?thesis using r assms(2) by (simp add: run_ok_def)
qed

lemma process_loop_ok:
  "em_inv m \<Longrightarrow> em_profile m = p \<Longrightarrow> run_ok p input (process_loop stop budget input m)"
proof (induction stop budget input m rule: process_loop.induct)
  case (1 stop budget input m)
  have stay: "run_ok p input (Some ([], input, m'))" "run_ok p input (Some ([], [], m'))" if "em_inv m'" "em_profile m' = p" for m'
    using that by (simp_all add: run_ok_def)
  show ?case
  proof (cases "budget = 0 \<or> stop \<noteq> None \<and> first_byte input = stop")
    case True
    then have "process_loop stop budget input m = Some ([], input, m)" by (subst process_loop.simps) auto
    then show ?thesis using stay(1) [OF 1(2,3)] by simp
  next
    case False
    obtain b m1 where m1: "run_injection input m = Some (b, m1)" "em_inv m1" "em_profile m1 = p"
      using run_injection_ok [OF 1(2,3)] by blast
    show ?thesis
    proof (cases "em_step m1 input")
      case Incomplete
      then show ?thesis using False m1 stay [OF m1(2,3)] by (subst process_loop.simps) auto
    next
      case (Stepped k reply m2)
      obtain reply' m3 where m3: "finish_reply reply m2 = (reply', m3)" by fastforce
      have ok: "reply_ok p reply' \<and> em_inv m3 \<and> em_profile m3 = p"
        using em_step_ok [OF m1(2,3), of input] Stepped finish_reply_ok [OF m3, of p] by (simp add: step_ok_def)
      then have "\<exists>m4. (if em_record_input m3 then em_record (take k input) m3 else Some m3) = Some m4 \<and>
        em_inv m4 \<and> em_profile m4 = p" using em_record_ok [of m3 p "take k input"] by (cases "em_record_input m3") auto
      then obtain m4 where m4: "(if em_record_input m3 then em_record (take k input) m3 else Some m3) = Some m4"
        "em_inv m4" "em_profile m4 = p" by blast
      show ?thesis
      proof (cases "b \<and> em_hung m1 \<or> reply' = ResetReply \<or> reply' = HangReply")
        case True
        then have "process_loop stop budget input m = Some ([], [], m1) \<or> process_loop stop budget input m = Some ([reply'], [], m4)"
          using False m1(1) Stepped m3 m4(1) by (subst (1 2) process_loop.simps) auto
        then show ?thesis using stay(2) [OF m1(2,3)] ok m4(2,3) by (auto simp: run_ok_def)
      next
        case no: False
        then have "process_loop stop budget input m = Option.bind (process_loop stop (budget - 1) (drop k input) m4)
            (\<lambda>(replies, input, m). Some (reply' # replies, input, m))"
          using False m1(1) Stepped m3 m4(1) by (subst process_loop.simps) auto
        moreover have "run_ok p (drop k input) (process_loop stop (budget - 1) (drop k input) m4)"
          using "1.IH" [OF _ _ m1(1) refl _ Stepped m3 [symmetric] refl m4(1)] False no m4(2,3) by auto
        ultimately show ?thesis using run_ok_Cons ok by metis
      qed
    qed simp
  qed
qed

lemma advance_to_profile [simp]: "em_profile (advance_to now m) = em_profile m"
  by (simp add: advance_to_eq play_loop_profile warm_to_def split: option.split)

lemma process_with_ok:
  assumes "em_inv m" "em_profile m = p"
  shows "run_ok p input (process_with now input stop k m)"
proof -
  have a: "em_inv (advance_to now m)" "em_profile (advance_to now m) = p" using assms advance_to_inv by simp_all
  show ?thesis using process_loop_ok [OF a] a by (simp add: process_with_def Let_def run_ok_def)
qed

subsection \<open>Reachable models\<close>

inductive em_reach :: "firmware_profile \<Rightarrow> ed_model \<Rightarrow> bool" for p where
  boot: "em_reach p (em_new p)"
| clock: "em_reach p m \<Longrightarrow> em_reach p (advance_to now m)"
| interlock: "em_reach p m \<Longrightarrow> em_reach p (set_interlock ok m)"
| button: "em_reach p m \<Longrightarrow> em_reach p (trigger_estop now m)"
| close: "em_reach p m \<Longrightarrow> em_reach p (connection_closed now m)"
| process: "em_reach p m \<Longrightarrow> process_with now input stop k m = Some (replies, rest, m') \<Longrightarrow> em_reach p m'"
| fed: "em_reach p m \<Longrightarrow> feed now bytes m = Some (replies, m') \<Longrightarrow> em_reach p m'"
| inject: "em_reach p m \<Longrightarrow> em_reach p (inject_before opcode bytes m)"
| override: "em_reach p m \<Longrightarrow> em_reach p (override_reply_code opcode code m)"
| rec_out: "em_reach p m \<Longrightarrow> em_reach p (em_set_record_output on m)"
| rec_in: "em_reach p m \<Longrightarrow> em_reach p (em_set_record_input on m)"
| drained: "em_reach p m \<Longrightarrow> take_output m = (out, m') \<Longrightarrow> em_reach p m'"

lemma connection_closed_inv: "em_inv m \<Longrightarrow> em_inv (connection_closed now m)"
proof -
  assume "em_inv m"
  then have "em_inv (advance_to now m)" by (rule advance_to_inv)
  then show ?thesis by (auto simp: connection_closed_def Let_def em_inv_def state_consts)
qed

lemma em_reach_inv: "em_reach p m \<Longrightarrow> em_inv m \<and> em_profile m = p"
proof (induction rule: em_reach.induct)
  case boot
  then show ?case by (simp add: em_new_inv) (simp add: em_new_def)
next
  case (interlock m ok)
  then show ?case using estop_inv [of m] by (simp add: set_interlock_def Let_def) (simp add: estop_def)
next
  case (button m now)
  then show ?case using estop_inv [OF advance_to_inv, of m now] by (simp add: trigger_estop_def) (simp add: estop_def)
next
  case (close m now)
  then show ?case using connection_closed_inv [of m now] by (simp add: connection_closed_def Let_def)
next
  case (process m now input stop k replies rest m')
  then show ?case using process_with_ok [of m p input now stop k] by (auto simp: run_ok_def)
next
  case (fed m now bytes replies m')
  then show ?case using process_with_ok [of "m\<lparr>em_input := []\<rparr>" p "em_input m @ bytes" now None "umax 64"]
    by (auto simp: feed_def em_process_def run_ok_def)
qed (auto simp: advance_to_inv inject_before_def override_reply_code_def em_set_record_output_def em_set_record_input_def
    take_output_def)

text \<open>
  C10 (the simulated Ether Dream is safe): whatever commands, clock readings, interlock changes,
  stops, connection losses and test injections a DAC of any firmware profile has seen, its ring
  and rate queue are within their bounds and it prepares or plays only while its light engine
  is ready, at a rate within its limits; and processing any further bytes returns, consumes a
  prefix of them, keeps all this, and answers only with responses whose status says so.
\<close>

theorem ether_dream_sim_safe:
  assumes "em_reach p m"
  shows "em_inv m \<and> em_profile m = p \<and>
    (\<exists>replies rest m'. process_with now input stop k m = Some (replies, rest, m') \<and> em_reach p m' \<and>
      list_all (reply_ok p) replies \<and> (\<exists>pre. input = pre @ rest))"
proof -
  note i = em_reach_inv [OF assms]
  then have "run_ok p input (process_with now input stop k m)" using process_with_ok by blast
  then obtain replies rest m' where "process_with now input stop k m = Some (replies, rest, m')"
    "list_all (reply_ok p) replies" "\<exists>pre. input = pre @ rest" unfolding run_ok_def by blast
  moreover from em_reach.process [OF assms this(1)] have "em_reach p m'" .
  ultimately show ?thesis using i by blast
qed

theorem ether_dream_sim_safe_witness:
  "\<exists>replies rest m'. process_with 0 (cmd_prepare @ cmd_begin 30000) None 2 (em_new ed2_r331) = Some (replies, rest, m') \<and>
     list_all (reply_ok ed2_r331) replies"
  using ether_dream_sim_safe [OF em_reach.boot, of ed2_r331 0 "cmd_prepare @ cmd_begin 30000" None 2] by blast

end
