(* ===== verification/Ether_Dream_Sim_Stream.thy ===== *)
theory Ether_Dream_Sim_Stream
  imports Ether_Dream_Sim_Inv
begin

text \<open>
  Behaviour of the simulated Ether Dream over time: how often the clock is advanced does not
  matter, a stream plays at its rate until the ring runs out, and how the bytes of a connection
  are split into reads does not matter.
\<close>

subsection \<open>The clock\<close>

text \<open>Below \<open>2 ^ 32\<close> seconds the count of due points fits 64 bits at any rate.\<close>

definition clock_fits :: "duration \<Rightarrow> bool" where
  "clock_fits t \<longleftrightarrow> t < 2 ^ 32 * nanos_per_sec"

lemma due_points_exact:
  assumes "clock_fits t"
  shows "due_points t m = (t - em_seg_start m) * unat (em_seg_rate m) div nanos_per_sec"
proof -
  have "(t - em_seg_start m) * unat (em_seg_rate m) \<le> t * unat (em_seg_rate m)" by (rule mult_le_mono1) simp
  also have "\<dots> \<le> t * 2 ^ 32" using unat_word_le_umax [of "em_seg_rate m"] by (intro mult_le_mono2) (simp add: umax_def)
  also have "\<dots> < 2 ^ 64 * nanos_per_sec" using assms by (simp add: clock_fits_def nanos_per_sec_def)
  finally have "(t - em_seg_start m) * unat (em_seg_rate m) div nanos_per_sec < 2 ^ 64"
    by (simp add: div_less_iff_less_mult nanos_per_sec_def)
  then show ?thesis by (simp add: due_points_def)
qed

lemma due_points_mono: "t \<le> u \<Longrightarrow> clock_fits u \<Longrightarrow> due_points t m \<le> due_points u m"
proof -
  assume a: "t \<le> u" "clock_fits u"
  then have "clock_fits t" by (simp add: clock_fits_def)
  with a show ?thesis by (simp only: due_points_exact) (intro div_le_mono mult_le_mono1 diff_le_mono a(1))
qed

lemma play_loop_idle: "em_playback m \<noteq> PLAYBACK_PLAYING \<Longrightarrow> play_loop t m = m"
  by (subst play_loop.simps) simp

lemma play_loop_done: "due_points t m \<le> em_seg_played m \<Longrightarrow> play_loop t m = m"
  by (subst play_loop.simps) simp

lemma play_loop_empty:
  "em_playback m = PLAYBACK_PLAYING \<Longrightarrow> em_seg_played m < due_points t m \<Longrightarrow> em_ring m = [] \<Longrightarrow> play_loop t m = em_underflow m"
  by (subst play_loop.simps) simp

lemma play_loop_point:
  "em_playback m = PLAYBACK_PLAYING \<Longrightarrow> em_seg_played m < due_points t m \<Longrightarrow> em_ring m = point # rest \<Longrightarrow>
     play_loop t m = play_loop t (play_point point rest m)"
  by (subst play_loop.simps) simp

lemma underflow_idle [simp]: "em_playback (em_underflow m) = PLAYBACK_IDLE"
  by (simp add: em_underflow_def)

lemma idle_not_playing [simp]: "PLAYBACK_IDLE \<noteq> PLAYBACK_PLAYING"
  by (simp add: state_consts)

lemma play_loop_compose: "t \<le> u \<Longrightarrow> clock_fits u \<Longrightarrow> play_loop u (play_loop t m) = play_loop u m"
proof (induction t m rule: play_loop.induct)
  case (1 t m)
  show ?case
  proof (cases "em_playback m = PLAYBACK_PLAYING \<and> em_seg_played m < due_points t m")
    case True
    then have u: "em_playback m = PLAYBACK_PLAYING" "em_seg_played m < due_points u m"
      using due_points_mono [OF "1.prems", of m] by auto
    show ?thesis
    proof (cases "em_ring m")
      case Nil
      then show ?thesis using True u by (simp add: play_loop_empty play_loop_idle)
    next
      case (Cons point rest)
      then have "play_loop u (play_loop t (play_point point rest m)) = play_loop u (play_point point rest m)"
        using "1.IH" [OF _ _ Cons] "1.prems" True by simp
      then show ?thesis using True u Cons by (simp add: play_loop_point)
    qed
  next
    case False
    then have "play_loop t m = m" using play_loop_idle play_loop_done by (metis not_less)
    then show ?thesis by simp
  qed
qed

lemma warm_to_reads:
  "em_playback (warm_to u m) = em_playback m" "em_ring (warm_to u m) = em_ring m"
  "em_seg_played (warm_to u m) = em_seg_played m" "due_points t (warm_to u m) = due_points t m"
  "em_now (warm_to u m) = u"
  by (simp_all add: warm_to_def due_points_def split: option.split)

lemma warm_to_upd:
  "warm_to u m = m\<lparr>em_now := u,
     em_light_engine := (if case em_warmup_until m of None \<Rightarrow> False | Some w \<Rightarrow> w \<le> u then LIGHT_ENGINE_READY else em_light_engine m),
     em_warmup_until := (if case em_warmup_until m of None \<Rightarrow> False | Some w \<Rightarrow> w \<le> u then None else em_warmup_until m)\<rparr>"
  by (simp add: warm_to_def split: option.split)

lemma warm_to_commutes:
  "warm_to u (em_underflow m) = em_underflow (warm_to u m)"
  "warm_to u (play_point point rest m) = play_point point rest (warm_to u m)"
proof -
  show "warm_to u (em_underflow m) = em_underflow (warm_to u m)"
    by (rule ed_model.equality) (simp_all add: warm_to_upd em_underflow_def)
  define v where "v = point_time m (em_seg_played m + 1)"
  have pt: "point_time (m\<lparr>em_ring := rest, em_seg_played := k, em_played_total := a, em_point_count := b, em_output := c, em_rate_queue := q\<rparr>)
      (em_seg_played m + 1) = v" for k a b c q by (simp add: point_time_def v_def)
  have pw: "point_time (warm_to u m\<lparr>em_ring := rest, em_seg_played := k, em_played_total := a, em_point_count := b, em_output := c, em_rate_queue := q\<rparr>)
      (em_seg_played m + 1) = v" for k a b c q by (simp add: point_time_def v_def warm_to_upd)
  show "warm_to u (play_point point rest m) = play_point point rest (warm_to u m)"
  proof (cases "dp_control point AND CONTROL_CHANGE_RATE \<noteq> 0 \<and> em_rate_queue m \<noteq> []")
    case True
    then obtain r q where q: "em_rate_queue m = r # q" by (cases "em_rate_queue m") auto
    show ?thesis by (rule ed_model.equality) (use True q pt pw in \<open>simp_all add: play_point_def Let_def start_segment_def warm_to_upd\<close>)
  next
    case False
    then have "play_point point rest x = x\<lparr>em_ring := rest, em_seg_played := em_seg_played x + 1, em_played_total := em_played_total x + 1,
        em_point_count := em_point_count x + 1, em_output := (if em_record_output x then em_output x @ [point] else em_output x)\<rparr>"
      if "em_rate_queue x = em_rate_queue m" for x using that by (auto simp: play_point_def Let_def split: list.split)
    note pp = this
    show ?thesis unfolding pp [OF refl] by (subst pp, simp add: warm_to_upd) (rule ed_model.equality; simp add: warm_to_upd)
  qed
qed

lemma warm_to_play_loop: "warm_to u (play_loop t m) = play_loop t (warm_to u m)"
proof (induction t m rule: play_loop.induct)
  case (1 t m)
  show ?case
  proof (cases "em_playback m = PLAYBACK_PLAYING \<and> em_seg_played m < due_points t m")
    case True
    show ?thesis
    proof (cases "em_ring m")
      case Nil
      then show ?thesis using True by (simp add: play_loop_empty warm_to_reads warm_to_commutes)
    next
      case (Cons point rest)
      then show ?thesis using True "1.IH" [OF _ _ Cons] by (simp add: play_loop_point warm_to_reads warm_to_commutes)
    qed
  next
    case False
    then show ?thesis using play_loop_idle play_loop_done warm_to_reads by (metis not_less)
  qed
qed

lemma warm_to_warm_to: "t \<le> u \<Longrightarrow> warm_to u (warm_to t m) = warm_to u m"
  by (auto simp: warm_to_def split: option.split)

lemma play_loop_now: "em_now (play_loop t m) = em_now m"
  by (rule play_loop_preserves [where P = "\<lambda>m'. em_now m' = em_now m"])
     (auto simp: em_underflow_def play_point_def Let_def start_segment_def split: list.split)

lemma advance_to_now: "em_now m \<le> t \<Longrightarrow> em_now (advance_to t m) = t"
  by (simp add: advance_to_eq play_loop_now warm_to_reads)

lemma advance_to_compose:
  assumes "t \<le> u" "clock_fits u" "em_now m \<le> t"
  shows "advance_to u (advance_to t m) = advance_to u m"
proof (cases "t \<le> em_now m")
  case True
  then show ?thesis by (simp add: advance_to_eq)
next
  case False
  show ?thesis
  proof (cases "u = t")
    case True
    then show ?thesis using False by (simp add: advance_to_eq play_loop_now warm_to_reads)
  next
    case ne: False
    then have "advance_to u (advance_to t m) = play_loop u (warm_to u (play_loop t (warm_to t m)))"
      using False assms(1) by (simp add: advance_to_eq play_loop_now warm_to_reads)
    also have "\<dots> = play_loop u (play_loop t (warm_to u m))"
      by (simp add: warm_to_play_loop warm_to_warm_to [OF assms(1)])
    also have "\<dots> = play_loop u (warm_to u m)" by (rule play_loop_compose [OF assms(1,2)])
    finally show ?thesis using False ne assms(1) by (simp add: advance_to_eq)
  qed
qed

text \<open>
  C23 (clock granularity): advancing the simulated DAC through any nondecreasing sequence of clock
  readings leaves it in the state that advancing straight to the last reading does, underflows,
  queued rate changes and warmup included.
\<close>

theorem ether_dream_clock_granularity:
  assumes "sorted (em_now m # ts)" "ts \<noteq> []" "clock_fits (last ts)"
  shows "fold advance_to ts m = advance_to (last ts) m"
  using assms
proof (induction ts arbitrary: m)
  case (Cons t ts)
  have now: "em_now (advance_to t m) = t" using Cons.prems(1) by (simp add: advance_to_now)
  show ?case
  proof (cases "ts = []")
    case False
    then have l: "t \<le> last ts" using Cons.prems(1) by auto
    have "fold advance_to ts (advance_to t m) = advance_to (last ts) (advance_to t m)"
      using Cons.IH [of "advance_to t m"] Cons.prems False now by simp
    also have "\<dots> = advance_to (last ts) m"
      using advance_to_compose [OF l, of m] Cons.prems False by simp
    finally show ?thesis using False by simp
  qed simp
qed simp

theorem ether_dream_clock_granularity_witness:
  "fold advance_to [5, 9] (em_new ed4) = advance_to 9 (em_new ed4)"
  using ether_dream_clock_granularity [of "em_new ed4" "[5, 9]"] by (simp add: em_new_def clock_fits_def nanos_per_sec_def)

subsection \<open>Playing at the rate\<close>

text \<open>Playing \<open>k\<close> points of the ring without a rate change.\<close>

definition play_many :: "nat \<Rightarrow> ed_model \<Rightarrow> ed_model" where
  "play_many k m = m\<lparr>em_ring := drop k (em_ring m), em_seg_played := em_seg_played m + k,
     em_played_total := em_played_total m + k, em_point_count := em_point_count m + of_nat k,
     em_output := (if em_record_output m then em_output m @ take k (em_ring m) else em_output m)\<rparr>"

lemma play_point_one:
  "em_ring m = point # rest \<Longrightarrow> em_rate_queue m = [] \<Longrightarrow> play_point point rest m = play_many 1 m"
  by (simp add: play_point_def play_many_def Let_def)

lemma play_many_reads [simp]:
  "em_playback (play_many k m) = em_playback m" "em_rate_queue (play_many k m) = em_rate_queue m"
  "em_seg_played (play_many k m) = em_seg_played m + k" "due_points t (play_many k m) = due_points t m"
  "em_ring (play_many k m) = drop k (em_ring m)"
  by (simp_all add: play_many_def due_points_def)

lemma play_many_Suc: "em_ring m \<noteq> [] \<Longrightarrow> play_many k (play_many 1 m) = play_many (Suc k) m"
proof -
  assume "em_ring m \<noteq> []"
  then obtain p r where "em_ring m = p # r" by (cases "em_ring m") auto
  then show ?thesis by (intro ed_model.equality) (simp_all add: play_many_def add.commute)
qed

lemma play_many_0: "play_many 0 m = m"
  by (rule ed_model.equality) (simp_all add: play_many_def)

lemma play_loop_constant:
  assumes "em_playback m = PLAYBACK_PLAYING" "em_rate_queue m = []" "k = due_points t m - em_seg_played m"
  shows "play_loop t m = (if k \<le> length (em_ring m) then play_many k m else em_underflow (play_many (length (em_ring m)) m))"
  using assms
proof (induction "em_ring m" arbitrary: m k)
  case Nil
  show ?case
  proof (cases "k = 0")
    case True
    then show ?thesis using Nil by (simp add: play_loop_done play_many_0)
  next
    case False
    then show ?thesis using Nil by (simp add: play_loop_empty play_many_0)
  qed
next
  case (Cons point rest)
  show ?case
  proof (cases "k = 0")
    case True
    then show ?thesis using Cons.prems by (simp add: play_loop_done play_many_0)
  next
    case False
    let ?m = "play_many 1 m"
    have r: "em_ring m = point # rest" using Cons.hyps(2) by simp
    have "play_loop t ?m = (if k - 1 \<le> length rest then play_many (k - 1) ?m else em_underflow (play_many (length rest) ?m))"
      using Cons.hyps(1) [of ?m "k - 1"] Cons.prems r by simp
    moreover have "play_loop t m = play_loop t ?m"
      using False Cons.prems r by (simp add: play_loop_point play_point_one)
    moreover have "play_many (k - 1) ?m = play_many k m" "play_many (length rest) ?m = play_many (length (em_ring m)) m"
      using False r by (simp_all add: play_many_Suc del: One_nat_def)
    ultimately show ?thesis using False r by auto
  qed
qed

text \<open>
  C24 (playback rate): while a stream plays with no queued rate change, the DAC has played exactly
  the points due at its rate, the integer part of elapsed time times rate, in the order of the
  ring and each once; it underflows exactly when more points are due than the ring held, and
  then reports it.
\<close>

theorem ether_dream_plays_at_rate:
  assumes "em_inv m" "em_playback m = PLAYBACK_PLAYING" "em_rate_queue m = []" "em_now m < t" "clock_fits t"
    and "k = (t - em_seg_start m) * unat (em_seg_rate m) div nanos_per_sec - em_seg_played m"
    and "m' = advance_to t m"
  shows "em_ring m' = drop k (em_ring m) \<and>
    em_played_total m' = em_played_total m + min k (length (em_ring m)) \<and>
    (em_record_output m \<longrightarrow> em_output m' = em_output m @ take k (em_ring m)) \<and>
    (em_playback m' = PLAYBACK_PLAYING \<longleftrightarrow> k \<le> length (em_ring m)) \<and>
    (length (em_ring m) < k \<longrightarrow> em_underflows m' = em_underflows m + 1 \<and> em_sticky m' = em_sticky m OR PBF_UNDERFLOW)"
proof -
  have "em_warmup_until m = None" using assms(1,2) by (auto simp: em_inv_def state_consts)
  then have w: "warm_to t m = m\<lparr>em_now := t\<rparr>" by (simp add: warm_to_def)
  have k: "k = due_points t (m\<lparr>em_now := t\<rparr>) - em_seg_played (m\<lparr>em_now := t\<rparr>)"
    using assms(5,6) by (simp add: due_points_exact)
  have "m' = play_loop t (m\<lparr>em_now := t\<rparr>)" using assms(4,7) w by (simp add: advance_to_eq)
  then have "m' = (if k \<le> length (em_ring m) then play_many k (m\<lparr>em_now := t\<rparr>)
      else em_underflow (play_many (length (em_ring m)) (m\<lparr>em_now := t\<rparr>)))"
    using play_loop_constant [OF _ _ k] assms(2,3) by simp
  then show ?thesis using assms(2) by (auto simp: play_many_def em_underflow_def)
qed

definition sample_playing :: ed_model where
  "sample_playing = (em_new ed1_j4cdac)\<lparr>em_playback := PLAYBACK_PLAYING, em_seg_rate := 1000,
     em_ring := [cmd_blank, cmd_blank], em_accepted_total := 2\<rparr>"

theorem ether_dream_plays_at_rate_witness:
  "em_playback (advance_to 3000000 sample_playing) \<noteq> PLAYBACK_PLAYING \<and>
   em_played_total (advance_to 3000000 sample_playing) = 2"
proof -
  have "em_inv sample_playing"
    by (simp add: sample_playing_def em_inv_def em_new_def state_consts rate_ok_def ed1_j4cdac_def)
  moreover have "em_playback sample_playing = PLAYBACK_PLAYING" "em_rate_queue sample_playing = []" "em_now sample_playing < 3000000"
    "clock_fits 3000000" "em_played_total sample_playing = 0" "length (em_ring sample_playing) = 2"
    "(3000000 - em_seg_start sample_playing) * unat (em_seg_rate sample_playing) div nanos_per_sec - em_seg_played sample_playing = 3"
    by (simp_all add: sample_playing_def em_new_def clock_fits_def nanos_per_sec_def)
  ultimately show ?thesis
    using ether_dream_plays_at_rate [of sample_playing 3000000 3 "advance_to 3000000 sample_playing"] by simp
qed

subsection \<open>Incremental input\<close>

lemma command_complete_iff: "command_complete input \<longleftrightarrow> em_step m input \<noteq> Incomplete"
proof (cases input)
  case (Cons c t)
  have wr: "write_ring m c input \<noteq> Incomplete" if "data_total input \<le> length input"
    by (rule write_ring_eq [OF that, of m c]) (simp add: Let_def)
  have cr: "check_rate m c rate k \<noteq> Some Incomplete" for rate k by (simp add: check_rate_def)
  show ?thesis unfolding Cons
    by (rule em_step_rule [where P = "\<lambda>r. command_complete (c # t) \<longleftrightarrow> r \<noteq> Incomplete"])
       (use wr cr Cons in \<open>auto simp: command_complete_def step_prepare_def step_stop_def step_clear_def
          step_begin_update_def step_queue_rate_def step_data_def Let_def split: option.split\<close>)
qed (simp add: command_complete_def em_step_def)

lemma data_append [simp]:
  assumes "3 \<le> length x"
  shows "data_count (x @ y) = data_count x" "data_total (x @ y) = data_total x"
  using assms by (simp_all add: data_count_def data_total_def nth_append)

lemma write_ring_append:
  assumes "3 \<le> length x" "data_total x \<le> length x"
  shows "write_ring m c (x @ y) = write_ring m c x"
proof -
  obtain tk code where o: "data_outcome (em_profile m) (data_count x) (unat (ring_points (em_profile m)) - length (em_ring m)) = (tk, code)"
    by fastforce
  have "tk * DAC_POINT_SIZE \<le> data_count x * DAC_POINT_SIZE" using data_outcome_le [OF o] by (intro mult_le_mono1) simp
  then have "tk * DAC_POINT_SIZE \<le> length x - 3" using assms unfolding data_total_def by linarith
  then have t: "take (tk * DAC_POINT_SIZE) (drop 3 (x @ y)) = take (tk * DAC_POINT_SIZE) (drop 3 x)"
    using assms(1) by simp
  have p: "em_profile (if b then m\<lparr>em_overfull_writes := k\<rparr> else m) = em_profile m" for b k by simp
  show ?thesis unfolding write_ring_def Let_def data_append [OF assms(1)] p o prod.case t ..
qed

lemma em_step_append:
  assumes "em_step m x = Stepped n r m'" "r \<noteq> ResetReply"
  shows "em_step m (x @ y) = Stepped n r m'"
proof (cases x)
  case Nil
  then show ?thesis using assms by (simp add: em_step_def)
next
  case (Cons c t)
  have b: "step_begin_update m c (x @ y) = step_begin_update m c x" if "step_begin_update m c x \<noteq> Incomplete"
    using that by (auto simp: step_begin_update_def nth_append split: if_splits)
  have q: "step_queue_rate m c (x @ y) = step_queue_rate m c x" if "step_queue_rate m c x \<noteq> Incomplete"
    using that by (auto simp: step_queue_rate_def nth_append split: if_splits)
  have d: "step_data m c (x @ y) = step_data m c x" if "step_data m c x \<noteq> Incomplete"
  proof -
    have "3 \<le> length x" "data_total x \<le> length x" using that by (auto simp: step_data_def split: if_splits)
    then show ?thesis by (simp add: step_data_def write_ring_append)
  qed
  have s: "em_step m x = Stepped n r m'" "r \<noteq> ResetReply" by (rule assms)+
  consider "c = 0x62 \<or> c = 0x75" | "c = 0x71" | "c = 0x64" | "c \<noteq> 0x62" "c \<noteq> 0x75" "c \<noteq> 0x71" "c \<noteq> 0x64" by blast
  then show ?thesis
  proof cases
    case 1
    then have "em_step m x = step_begin_update m c x" "em_step m (x @ y) = step_begin_update m c (x @ y)"
      unfolding Cons by (auto simp: em_step_def)
    then show ?thesis using b s(1) by force
  next
    case 2
    then have "em_step m x = step_queue_rate m c x" "em_step m (x @ y) = step_queue_rate m c (x @ y)"
      unfolding Cons by (auto simp: em_step_def)
    then show ?thesis using q s(1) by force
  next
    case 3
    then have "em_step m x = step_data m c x" "em_step m (x @ y) = step_data m c (x @ y)"
      unfolding Cons by (auto simp: em_step_def)
    then show ?thesis using d s(1) by force
  next
    case 4
    then have "em_step m x = em_step m [c] \<or> em_step m x = Stepped (length x) ResetReply m"
      "em_step m (x @ y) = em_step m [c] \<or> em_step m [c] = Stepped 1 ResetReply m"
      unfolding Cons by (simp_all add: em_step_def split: option.split)
    then show ?thesis using s by (metis step_result.inject)
  qed
qed

text \<open>What no command changes: the clock, the pending input of the default connection, the injection.\<close>

definition same_frame :: "ed_model \<Rightarrow> ed_model \<Rightarrow> bool" where
  "same_frame m m' \<longleftrightarrow> em_now m' = em_now m \<and> em_input m' = em_input m \<and> em_inject m' = em_inject m"

lemma finish_reply_kind:
  "finish_reply reply m = (reply', m') \<Longrightarrow> (reply' = ResetReply \<longleftrightarrow> reply = ResetReply) \<and> (reply' = HangReply \<longleftrightarrow> reply = HangReply) \<and>
     em_hung m' = em_hung m \<and> same_frame m m'"
  by (auto simp: finish_reply_def same_frame_def Let_def split: reply.splits option.splits if_splits prod.splits)

lemma em_record_keeps: "em_record bytes m = Some m' \<Longrightarrow> em_hung m' = em_hung m \<and> same_frame m m'"
  by (auto simp: em_record_def same_frame_def Let_def split: list.splits if_splits)

lemma step_keeps:
  assumes "em_step m input = Stepped n r m'"
  shows "same_frame m m' \<and> (r \<noteq> HangReply \<longrightarrow> em_hung m' = em_hung m)"
proof -
  define P where "P res \<longleftrightarrow> (case res of Stepped _ r m' \<Rightarrow> same_frame m m' \<and> (r \<noteq> HangReply \<longrightarrow> em_hung m' = em_hung m) | _ \<Rightarrow> True)" for res
  have cr: "check_rate m c rate k = Some r \<Longrightarrow> P r" for c rate k r by (auto simp: P_def same_frame_def check_rate_def split: if_splits)
  have "P (em_step m input)"
  proof (cases input)
    case (Cons c t)
    have "P (write_ring m c input)" if "data_total input \<le> length input"
      by (rule write_ring_eq [OF that, of m c]) (simp add: Let_def P_def same_frame_def)
    then have d: "P (step_data m c input)" by (simp add: step_data_def) (simp add: P_def same_frame_def)
    have b: "P (step_begin_update m c input)" unfolding step_begin_update_def Let_def
      by (simp split: option.split add: cr) (simp add: P_def same_frame_def start_segment_def)
    have q: "P (step_queue_rate m c input)" unfolding step_queue_rate_def Let_def
      by (simp split: option.split add: cr) (simp add: P_def same_frame_def)
    show ?thesis unfolding Cons
    proof (rule em_step_rule [where P = P])
      show "P (step_begin_update m c (c # t))" "P (step_queue_rate m c (c # t))" "P (step_data m c (c # t))"
        using b q d unfolding Cons by simp_all
    qed (simp_all add: P_def same_frame_def step_prepare_def step_stop_def step_clear_def estop_def Let_def)
  qed (simp add: em_step_def P_def)
  then show ?thesis using assms by (simp add: P_def same_frame_def)
qed

text \<open>One command of a connection, with its reply and the recording: \<open>None\<close> if it is incomplete.\<close>

definition handle :: "ed_model \<Rightarrow> u8 list \<Rightarrow> (nat \<times> reply \<times> ed_model) option" where
  "handle m input =
     (case em_step m input of
        Stepped k reply m2 \<Rightarrow>
          let (reply, m3) = finish_reply reply m2
          in map_option (\<lambda>m4. (k, reply, m4)) (if em_record_input m3 then em_record (take k input) m3 else Some m3)
      | _ \<Rightarrow> None)"

lemma em_record_total: "\<exists>m'. em_record bytes m = Some m'"
proof (cases bytes)
  case (Cons op t)
  obtain ps where "read_run (drop 3 bytes) = Some ps" using read_run_total by blast
  then show ?thesis using Cons by (simp add: em_record_def Let_def)
qed (simp add: em_record_def)

lemma handle_Stepped:
  assumes "em_step m input = Stepped k r m2" "finish_reply r m2 = (reply, m3)"
  obtains m4 where "(if em_record_input m3 then em_record (take k input) m3 else Some m3) = Some m4" "handle m input = Some (k, reply, m4)"
proof -
  have "\<exists>m4. (if em_record_input m3 then em_record (take k input) m3 else Some m3) = Some m4"
    using em_record_total [of "take k input" m3] by (cases "em_record_input m3") auto
  then obtain m4 where "(if em_record_input m3 then em_record (take k input) m3 else Some m3) = Some m4" by blast
  then show thesis using that [of m4] assms by (simp add: handle_def)
qed

lemma handle_None: "handle m input = None \<longleftrightarrow> em_step m input = Incomplete"
proof (cases "em_step m input")
  case (Stepped k r m2)
  obtain reply m3 where "finish_reply r m2 = (reply, m3)" by fastforce
  with Stepped obtain m4 where "handle m input = Some (k, reply, m4)" by (rule handle_Stepped)
  then show ?thesis using Stepped by simp
qed (simp_all add: handle_def)

lemma process_loop_handle:
  assumes "em_inject m = None"
  shows "process_loop None b input m =
    (if b = 0 then Some ([], input, m)
     else case handle m input of
            None \<Rightarrow> Some ([], input, m)
          | Some (k, reply, m4) \<Rightarrow>
            if reply = ResetReply \<or> reply = HangReply then Some ([reply], [], m4)
            else Option.bind (process_loop None (b - 1) (drop k input) m4) (\<lambda>(rs, i, m). Some (reply # rs, i, m)))"
proof -
  have i: "run_injection input m = Some (False, m)" using assms by (simp add: run_injection_def split: list.split)
  show ?thesis
  proof (cases "em_step m input")
    case (Stepped k r m2)
    obtain reply m3 where fr: "finish_reply r m2 = (reply, m3)" by fastforce
    with Stepped obtain m4 where "(if em_record_input m3 then em_record (take k input) m3 else Some m3) = Some m4"
      "handle m input = Some (k, reply, m4)" by (rule handle_Stepped)
    then show ?thesis using Stepped fr i by (subst process_loop.simps) simp
  next
    case Incomplete
    then show ?thesis using i handle_None [of m input] by (subst process_loop.simps) simp
  qed simp
qed

lemma handle_keeps:
  assumes "handle m input = Some (k, reply, m4)"
  shows "0 < k \<and> k \<le> length input \<and> same_frame m m4 \<and> (reply \<noteq> HangReply \<longrightarrow> em_hung m4 = em_hung m)"
proof (cases "em_step m input")
  case (Stepped k' r m2)
  obtain reply' m3 where fr: "finish_reply r m2 = (reply', m3)" by fastforce
  with Stepped obtain m4' where m4: "(if em_record_input m3 then em_record (take k' input) m3 else Some m3) = Some m4'"
    "handle m input = Some (k', reply', m4')" by (rule handle_Stepped)
  have "em_hung m4' = em_hung m3 \<and> same_frame m3 m4'" using m4(1) em_record_keeps
    by (auto simp: same_frame_def split: if_splits)
  then show ?thesis using assms m4(2) em_step_consumes [OF Stepped] step_keeps [OF Stepped] finish_reply_kind [OF fr]
    by (auto simp: same_frame_def)
qed (use assms in \<open>simp_all add: handle_def\<close>)

lemma handle_append:
  assumes "handle m x = Some (k, reply, m4)" "reply \<noteq> ResetReply"
  shows "handle m (x @ y) = Some (k, reply, m4)"
proof (cases "em_step m x")
  case (Stepped k' r m2)
  obtain reply' m3 where fr: "finish_reply r m2 = (reply', m3)" by fastforce
  have "k' \<le> length x" using em_step_consumes [OF Stepped] by blast
  moreover have "r \<noteq> ResetReply" using assms Stepped fr finish_reply_kind [OF fr] by (auto simp: handle_def)
  ultimately show ?thesis using assms(1) Stepped em_step_append [OF Stepped, of y] fr
    by (auto simp: handle_def split: if_splits)
qed (use assms in \<open>simp_all add: handle_def\<close>)

lemma process_loop_budget:
  "em_inject m = None \<Longrightarrow> length input < b \<Longrightarrow> length input < b' \<Longrightarrow> process_loop None b input m = process_loop None b' input m"
proof (induction "length input" arbitrary: input m b b' rule: less_induct)
  case less
  show ?case
  proof (cases "handle m input")
    case None
    then show ?thesis using less.prems by (simp add: process_loop_handle)
  next
    case (Some h)
    obtain k reply m4 where h: "handle m input = Some (k, reply, m4)" using Some by (cases h) auto
    note k = handle_keeps [OF h]
    have "process_loop None (b - 1) (drop k input) m4 = process_loop None (b' - 1) (drop k input) m4"
      by (rule less.hyps) (use k less.prems in \<open>auto simp: same_frame_def\<close>)
    then show ?thesis using h less.prems by (simp add: process_loop_handle)
  qed
qed

lemma process_loop_append:
  "em_inject m = None \<Longrightarrow> \<not> em_hung m \<Longrightarrow> length (x @ y) < b \<Longrightarrow> process_loop None b x m = Some (rs, rest, m1) \<Longrightarrow>
    ResetReply \<notin> set rs \<Longrightarrow> HangReply \<notin> set rs \<Longrightarrow>
    same_frame m m1 \<and> \<not> em_hung m1 \<and> length rest \<le> length x \<and>
    process_loop None b (x @ y) m = Option.bind (process_loop None b (rest @ y) m1) (\<lambda>(rs2, i, m). Some (rs @ rs2, i, m))"
proof (induction "length x" arbitrary: x m b rs rule: less_induct)
  case less
  have b: "b \<noteq> 0" using less.prems(3) by simp
  show ?case
  proof (cases "handle m x")
    case None
    then have "rs = []" "rest = x" "m1 = m" using less.prems(1,4) b by (simp_all add: process_loop_handle)
    then show ?thesis using less.prems(1,2) by (cases "process_loop None b (x @ y) m") (auto simp: same_frame_def)
  next
    case (Some h)
    obtain k reply m4 where h: "handle m x = Some (k, reply, m4)" using Some by (cases h) auto
    note k = handle_keeps [OF h]
    have nr: "reply \<noteq> ResetReply" "reply \<noteq> HangReply"
      using less.prems(1,4,5,6) b h by (auto simp: process_loop_handle split: if_splits)
    then obtain rs' where rs': "process_loop None (b - 1) (drop k x) m4 = Some (rs', rest, m1)" "rs = reply # rs'"
      using less.prems(1,4) b h by (auto simp: process_loop_handle Option.bind_eq_Some_conv)
    have IH: "same_frame m4 m1 \<and> \<not> em_hung m1 \<and> length rest \<le> length (drop k x) \<and>
      process_loop None (b - 1) (drop k x @ y) m4 = Option.bind (process_loop None (b - 1) (rest @ y) m1) (\<lambda>(rs2, i, m). Some (rs' @ rs2, i, m))"
      by (rule less.hyps) (use k nr rs' less.prems in \<open>auto simp: same_frame_def\<close>)
    then have "process_loop None (b - 1) (rest @ y) m1 = process_loop None b (rest @ y) m1"
      using k less.prems(1,3) by (intro process_loop_budget) (auto simp: same_frame_def)
    moreover have "process_loop None b (x @ y) m = Option.bind (process_loop None (b - 1) (drop k x @ y) m4) (\<lambda>(rs, i, m). Some (reply # rs, i, m))"
      using handle_append [OF h nr(1), of y] nr k b less.prems(1) by (simp add: process_loop_handle)
    ultimately show ?thesis using IH rs'(2) k by (cases "process_loop None b (rest @ y) m1") (auto simp: same_frame_def)
  qed
qed

lemma advance_to_keeps: "em_hung (advance_to t m) = em_hung m" "em_inject (advance_to t m) = em_inject m" "em_input (advance_to t m) = em_input m"
proof -
  have "(em_hung (play_loop t x), em_inject (play_loop t x), em_input (play_loop t x)) = (em_hung x, em_inject x, em_input x)" for x
    by (rule play_loop_preserves [where P = "\<lambda>m'. (em_hung m', em_inject m', em_input m') = (em_hung x, em_inject x, em_input x)"])
       (auto simp: em_underflow_def play_point_def Let_def start_segment_def split: list.split)
  then show "em_hung (advance_to t m) = em_hung m" "em_inject (advance_to t m) = em_inject m" "em_input (advance_to t m) = em_input m"
    by (simp_all add: advance_to_eq warm_to_upd)
qed

lemma advance_to_reached: "now \<le> em_now (advance_to now m)"
  by (simp add: advance_to_eq play_loop_now warm_to_reads)

text \<open>
  C17 (incremental input): a command is answered exactly when all its bytes have arrived, and
  feeding the bytes of a connection in two reads at the same time gives the replies and the
  state of feeding them in one, unless the first read made the DAC close the connection or
  hang.
\<close>

theorem ether_dream_incremental_input:
  assumes "em_inject m = None" "\<not> em_hung m" "length (em_input m @ a @ b) < umax 64"
    and "feed now a m = Some (r1, m1)" "ResetReply \<notin> set r1" "HangReply \<notin> set r1"
  shows "feed now (a @ b) m = map_option (\<lambda>(r2, m2). (r1 @ r2, m2)) (feed now b m1) \<and>
    (command_complete input \<longleftrightarrow> em_step m input \<noteq> Incomplete)"
proof
  define A where "A = advance_to now (m\<lparr>em_input := []\<rparr>)"
  have A: "em_inject A = None" "\<not> em_hung A" "em_input A = []" "now \<le> em_now A"
    using assms(1,2) by (simp_all add: A_def advance_to_keeps advance_to_reached)
  have len: "length ((em_input m @ a) @ b) < umax 64" using assms(3) by simp
  have fd: "feed now x m = map_option (\<lambda>(rs, i, m). (rs, m\<lparr>em_input := i\<rparr>)) (process_loop None (umax 64) (em_input m @ x) A)" for x
    using A(2) by (simp add: feed_def em_process_def process_with_def Let_def flip: A_def)
  then obtain rest m1' where p1: "process_loop None (umax 64) (em_input m @ a) A = Some (r1, rest, m1')" "m1 = m1'\<lparr>em_input := rest\<rparr>"
    using assms(4) by auto
  from process_loop_append [OF A(1,2) len p1(1) assms(5,6)] A have
    k: "em_inject m1' = None" "\<not> em_hung m1'" "em_input m1' = []" "now \<le> em_now m1'"
      "process_loop None (umax 64) (em_input m @ a @ b) A =
         Option.bind (process_loop None (umax 64) (rest @ b) m1') (\<lambda>(rs2, i, m). Some (r1 @ rs2, i, m))"
    by (simp_all add: same_frame_def)
  have "m1\<lparr>em_input := []\<rparr> = m1'" using p1(2) k(3) by simp
  then have "feed now b m1 = map_option (\<lambda>(rs, i, m). (rs, m\<lparr>em_input := i\<rparr>)) (process_loop None (umax 64) (rest @ b) m1')"
    using k(2,4) p1(2) by (simp add: feed_def em_process_def process_with_def Let_def advance_to_eq)
  then show "feed now (a @ b) m = map_option (\<lambda>(r2, m2). (r1 @ r2, m2)) (feed now b m1)"
    using fd [of "a @ b"] k(5) by (cases "process_loop None (umax 64) (rest @ b) m1'") auto
qed (rule command_complete_iff)

theorem ether_dream_incremental_input_witness:
  "feed 0 ([0x62] @ [0, 0, 0, 0, 1, 0]) (em_new ed2_r331) =
     map_option (\<lambda>(r2, m2). ([] @ r2, m2)) (feed 0 [0, 0, 0, 0, 1, 0] ((em_new ed2_r331)\<lparr>em_input := [0x62]\<rparr>))"
proof -
  have "handle (em_new ed2_r331) [0x62] = None"
    by (simp add: handle_None em_step_def step_begin_update_def)
  then have "feed 0 [0x62] (em_new ed2_r331) = Some ([], (em_new ed2_r331)\<lparr>em_input := [0x62]\<rparr>)"
    by (simp add: feed_def em_process_def process_with_def Let_def advance_to_eq process_loop_handle em_new_def umax_def)
  from ether_dream_incremental_input [OF _ _ _ this, of "[0, 0, 0, 0, 1, 0]"] show ?thesis
    by (simp add: em_new_def umax_def)
qed

end
