(* ===== verification/Ether_Dream_Server.thy ===== *)
theory Ether_Dream_Server
  imports Ether_Dream_Sim_Stream
begin

text \<open>
  \<^verbatim>\<open>src/protocols/ether_dream/sim/server.rs\<close>: the TCP side of the simulated DAC, with the network
  faults it can inject. The state shared by the threads and the state of one connection are
  records; a sleep advances the clock. The sockets themselves are not modelled: what the server
  writes is queued in \<open>cn_out\<close>, and a write of the server succeeds. The UDP broadcaster and the
  joining of threads at shutdown are left out.
\<close>

record faults =
  drop_after_replies :: "nat option"
  truncate_reply :: "nat option"
  reply_delay :: duration
  duplicate_replies :: bool
  swallow_opcodes :: "u8 list"
  hello_status :: "dac_status option"
  data_delay :: duration

definition no_faults :: faults where
  "no_faults = \<lparr>drop_after_replies = None, truncate_reply = None, reply_delay = 0, duplicate_replies = False,
     swallow_opcodes = [], hello_status = None, data_delay = 0\<rparr>"

record sim_server_config =
  cf_profile :: firmware_profile
  cf_enforce_single_client :: bool
  cf_record_input :: bool
  cf_faults :: faults

definition sim_server_config_new :: "firmware_profile \<Rightarrow> sim_server_config" where
  "sim_server_config_new profile = \<lparr>cf_profile = profile, cf_enforce_single_client = enforce_single_client profile,
     cf_record_input = True, cf_faults = no_faults\<rparr>"

record shared =
  sh_model :: ed_model
  sh_faults :: faults
  sh_clock :: duration
  sh_active :: nat
  sh_accepted :: nat
  sh_enforce_single_client :: bool

record conn =
  cn_input :: "u8 list"
  cn_sent :: nat
  cn_hung :: bool
  cn_open :: bool
  cn_reset :: bool
  cn_out :: "u8 list"

definition server_start :: "sim_server_config \<Rightarrow> shared" where
  "server_start config = \<lparr>sh_model = em_set_record_input (cf_record_input config) (em_new (cf_profile config)),
     sh_faults = cf_faults config, sh_clock = 0, sh_active = 0, sh_accepted = 0,
     sh_enforce_single_client = cf_enforce_single_client config\<rparr>"

definition sleep :: "duration \<Rightarrow> shared \<Rightarrow> shared" where
  "sleep d sh = sh\<lparr>sh_clock := sh_clock sh + d\<rparr>"

definition lock_model :: "shared \<Rightarrow> shared" where
  "lock_model sh = sh\<lparr>sh_model := advance_to (sh_clock sh) (sh_model sh)\<rparr>"

subsection \<open>Replies\<close>

text \<open>\<open>False\<close> when the connection must close.\<close>

definition swallowed :: "faults \<Rightarrow> reply \<Rightarrow> bool" where
  "swallowed f r = (case r of RespReply x \<Rightarrow> resp_command x \<in> set (swallow_opcodes f) | _ \<Rightarrow> False)"

definition is_response :: "reply \<Rightarrow> bool" where
  "is_response r = (case r of RespReply _ \<Rightarrow> True | _ \<Rightarrow> False)"

fun send_replies :: "faults \<Rightarrow> reply list \<Rightarrow> shared \<Rightarrow> conn \<Rightarrow> bool \<times> shared \<times> conn" where
  "send_replies f [] sh c = (True, sh, c)"
| "send_replies f (r # rs) sh c =
     (if r = ResetReply then (False, sh, c\<lparr>cn_reset := True\<rparr>)
      else if r = HangReply then (True, sh, c\<lparr>cn_hung := True\<rparr>)
      else if swallowed f r then send_replies f rs sh c
      else if drop_after_replies f = Some (cn_sent c) then (False, sh, c)
      else let sh = sleep (reply_delay f) sh; bytes = reply_to_bytes r in
        if truncate_reply f = Some (cn_sent c) then (False, sh, c\<lparr>cn_out := cn_out c @ take 2 bytes\<rparr>)
        else send_replies f rs sh
               (c\<lparr>cn_out := cn_out c @ bytes @ (if duplicate_replies f \<and> is_response r then bytes else []),
                  cn_sent := cn_sent c + 1\<rparr>))"

subsection \<open>Input\<close>

text \<open>Processing only removes a prefix of the input, and a complete command is removed.\<close>

lemma process_loop_suffix: "process_loop stop b input m = Some (rs, rest, m') \<Longrightarrow> length rest \<le> length input"
proof (induction b arbitrary: stop input m rs)
  case 0
  then show ?case by (subst (asm) process_loop.simps) simp
next
  case (Suc b)
  have IH: "process_loop s b (drop k input) m = Some (rs, rest, m') \<Longrightarrow> length rest \<le> length input" for s k m rs
    using Suc.IH [of s "drop k input"] by force
  from Suc.prems show ?case
    by (subst (asm) process_loop.simps)
       (auto simp: Option.bind_eq_Some_conv Let_def split: if_splits step_result.splits prod.splits dest: IH)
qed

lemma process_one_shrinks:
  assumes "process_loop None 1 input m = Some (rs, rest, m')" "command_complete input"
  shows "length rest < length input"
proof -
  obtain fired m1 where i: "run_injection input m = Some (fired, m1)" using assms(1)
    by (subst (asm) process_loop.simps) (auto simp: Option.bind_eq_Some_conv)
  have ne: "input \<noteq> []" using assms(2) by (auto simp: command_complete_def)
  have z: "process_loop None 0 x y = Some ([], x, y)" for x y by (subst process_loop.simps) simp
  have "em_step m1 input \<noteq> Incomplete" using assms(2) command_complete_iff by blast
  then obtain k r m2 where k: "em_step m1 input = Stepped k r m2" by (cases "em_step m1 input") auto
  then show ?thesis using assms(1) i ne em_step_consumes [OF k]
    by (subst (asm) process_loop.simps) (auto simp: Option.bind_eq_Some_conv Let_def z split: if_splits prod.splits)
qed

text \<open>
  The inner loop of a connection: process what has arrived, and when a data command is being
  delayed, wait and handle it alone. \<open>None\<close> is a panic of the model.
\<close>

definition data_ready :: "faults \<Rightarrow> u8 list \<Rightarrow> bool" where
  "data_ready f input \<longleftrightarrow> data_delay f \<noteq> 0 \<and> first_byte input = Some 0x64 \<and> command_complete input"

definition process_step :: "faults \<Rightarrow> shared \<Rightarrow> conn \<Rightarrow> (reply list \<times> shared \<times> conn) option" where
  "process_step f sh c =
     (let sh = lock_model sh
      in map_option (\<lambda>(replies, input, m). (replies, sh\<lparr>sh_model := m\<rparr>, c\<lparr>cn_input := input\<rparr>))
           (if data_delay f = 0 then em_process (sh_clock sh) (cn_input c) (sh_model sh)
            else process_before (sh_clock sh) (cn_input c) 0x64 (sh_model sh)))"

definition process_delayed :: "faults \<Rightarrow> shared \<Rightarrow> conn \<Rightarrow> (reply list \<times> shared \<times> conn) option" where
  "process_delayed f sh c =
     (let sh = lock_model (sleep (data_delay f) sh)
      in map_option (\<lambda>(replies, input, m). (replies, sh\<lparr>sh_model := m\<rparr>, c\<lparr>cn_input := input\<rparr>))
           (process_one (sh_clock sh) (cn_input c) (sh_model sh)))"

lemma send_replies_input: "cn_input (snd (snd (send_replies f rs sh c))) = cn_input c"
  by (induction f rs sh c rule: send_replies.induct) (auto simp: Let_def)

lemma process_with_suffix: "process_with now input stop k m = Some (rs, rest, m') \<Longrightarrow> length rest \<le> length input"
  by (auto simp: process_with_def Let_def dest: process_loop_suffix split: if_splits)

lemma process_step_suffix: "process_step f sh c = Some (rs, sh', c') \<Longrightarrow> length (cn_input c') \<le> length (cn_input c)"
  by (auto simp: process_step_def em_process_def process_before_def Let_def dest: process_with_suffix split: if_splits)

lemma process_delayed_shrinks:
  assumes "process_delayed f sh c = Some (rs, sh', c')" "data_ready f (cn_input c)"
  shows "length (cn_input c') < length (cn_input c)"
proof -
  have cc: "command_complete (cn_input c)" using assms(2) by (simp add: data_ready_def)
  then have ne: "cn_input c \<noteq> []" by (auto simp: command_complete_def)
  obtain m input m' where "process_with (sh_clock (lock_model (sleep (data_delay f) sh))) (cn_input c) None 1 m = Some (rs, input, m')"
    "cn_input c' = input" using assms(1) by (auto simp: process_delayed_def process_one_def Let_def)
  then show ?thesis using ne process_one_shrinks [OF _ cc]
    by (auto simp: process_with_def Let_def simp del: One_nat_def split: if_splits)
qed

definition serve_round :: "faults \<Rightarrow> shared \<Rightarrow> conn \<Rightarrow> (bool \<times> shared \<times> conn) option" where
  "serve_round f sh c =
     (case process_step f sh c of
        None \<Rightarrow> None
      | Some (replies, sh, c) \<Rightarrow>
        let ready = data_ready f (cn_input c);
            (keep, sh, c) = send_replies f replies sh c
        in if \<not> keep then Some (False, sh, c\<lparr>cn_open := False\<rparr>)
           else if cn_hung c \<or> \<not> ready then Some (False, sh, c)
           else (case process_delayed f sh c of
                   None \<Rightarrow> None
                 | Some (replies, sh, c) \<Rightarrow>
                   let (keep, sh, c) = send_replies f replies sh c
                   in if \<not> keep then Some (False, sh, c\<lparr>cn_open := False\<rparr>)
                      else Some (\<not> cn_hung c, sh, c)))"

lemma serve_round_shrinks:
  assumes "serve_round f sh c = Some (True, sh', c')"
  shows "length (cn_input c') < length (cn_input c)"
proof -
  obtain rs1 sh1 c1 keep sh2 c2 rs2 sh3 c3 where s: "process_step f sh c = Some (rs1, sh1, c1)"
    "send_replies f rs1 sh1 c1 = (keep, sh2, c2)" "data_ready f (cn_input c1)" "process_delayed f sh2 c2 = Some (rs2, sh3, c3)"
    "c' = snd (snd (send_replies f rs2 sh3 c3))"
    using assms by (auto simp: serve_round_def Let_def split: option.splits prod.splits if_splits)
  have "cn_input c2 = cn_input c1" using send_replies_input [of f rs1 sh1 c1] s(2) by simp
  then have "length (cn_input c3) < length (cn_input c1)" using process_delayed_shrinks [OF s(4)] s(3) by simp
  then show ?thesis using process_step_suffix [OF s(1)] s(5) by (simp add: send_replies_input)
qed

function serve_loop :: "faults \<Rightarrow> shared \<Rightarrow> conn \<Rightarrow> (shared \<times> conn) option" where
  "serve_loop f sh c =
     (case serve_round f sh c of
        None \<Rightarrow> None
      | Some (again, sh, c) \<Rightarrow> if again then serve_loop f sh c else Some (sh, c))"
  by pat_completeness auto
termination by (relation "measure (\<lambda>(f, sh, c). length (cn_input c))") (auto dest: serve_round_shrinks)

declare serve_loop.simps [simp del]

subsection \<open>Connections\<close>

text \<open>A connection that was refused at once is closed and has nothing to read.\<close>

definition refused_conn :: conn where
  "refused_conn = \<lparr>cn_input = [], cn_sent = 0, cn_hung = False, cn_open = False, cn_reset = False, cn_out = []\<rparr>"

definition hello_conn :: "shared \<Rightarrow> shared \<times> conn" where
  "hello_conn sh =
     (let sh = lock_model sh
      in if em_hung (sh_model sh)
         then (sh, \<lparr>cn_input = [], cn_sent = 0, cn_hung = True, cn_open = True, cn_reset = False, cn_out = []\<rparr>)
         else let hello = em_hello (sh_model sh);
                  hello = (case hello_status (sh_faults sh) of Some st \<Rightarrow> hello\<lparr>resp_dac_status := st\<rparr> | None \<Rightarrow> hello)
              in (sh, \<lparr>cn_input = [], cn_sent = 0, cn_hung = False, cn_open = True, cn_reset = False,
                       cn_out = reply_to_bytes (RespReply hello)\<rparr>))"

definition accept :: "shared \<Rightarrow> shared \<times> conn" where
  "accept sh =
     (if sh_enforce_single_client sh \<and> 0 < sh_active sh then (sh, refused_conn)
      else hello_conn (sh\<lparr>sh_active := sh_active sh + 1, sh_accepted := sh_accepted sh + 1\<rparr>))"

definition conn_finished :: "shared \<Rightarrow> shared" where
  "conn_finished sh =
     (let sh' = sh\<lparr>sh_active := sh_active sh - 1\<rparr>
      in if sh_active sh = 1
         then let sh' = lock_model sh' in sh'\<lparr>sh_model := connection_closed (sh_clock sh') (sh_model sh')\<rparr>
         else sh')"

text \<open>One read of the connection's socket; the thread of a panicking model ends.\<close>

definition receive :: "u8 list \<Rightarrow> shared \<Rightarrow> conn \<Rightarrow> shared \<times> conn" where
  "receive bytes sh c =
     (if cn_hung c then (sh, c)
      else case serve_loop (sh_faults sh) sh (c\<lparr>cn_input := cn_input c @ bytes\<rparr>) of
             None \<Rightarrow> (conn_finished sh, c\<lparr>cn_open := False\<rparr>)
           | Some (sh, c) \<Rightarrow> if cn_open c then (sh, c) else (conn_finished sh, c))"

end
