(* ===== verification/Ether_Dream_Dac.thy ===== *)
theory Ether_Dream_Dac
  imports Ether_Dream_Protocol
begin

text \<open>
  \<^verbatim>\<open>src/protocols/ether_dream/dac/mod.rs\<close>: the status of a DAC with its states as enumerations,
  converted from and to the wire. Bit flags keep their bits, truncated to the known ones as
  \<open>from_bits_truncate\<close> does. The runtime \<open>Command\<close> enumeration is \<^typ>\<open>ed_command\<close> with its generic
  reader.
\<close>

datatype light_engine = Ready | Warmup | Cooldown | LeEmergencyStop

datatype playback = Idle | Prepared | Playing

datatype data_source =
    NetworkStreaming
  | IldaPlayback u16
  | InternalAbstractGenerator u16

datatype protocol_error = UnknownLightEngineState | UnknownPlaybackState | UnknownDataSource

record status =
  st_protocol :: u8
  st_light_engine :: light_engine
  st_playback :: playback
  st_data_source :: data_source
  st_light_engine_flags :: u16
  st_playback_flags :: u16
  st_buffer_fullness :: u16
  st_point_rate :: u32
  st_point_count :: u32

record dac =
  dac_hw_revision :: u16
  dac_sw_revision :: u16
  dac_buffer_capacity :: u16
  dac_max_point_rate :: u32
  dac_state :: status

record addressed =
  ad_mac_address :: "u8 \<times> u8 \<times> u8 \<times> u8 \<times> u8 \<times> u8"
  ad_dac :: dac

definition LIGHT_ENGINE_FLAGS :: u16 where "LIGHT_ENGINE_FLAGS = 0x3f"
definition PLAYBACK_FLAGS :: u16 where "PLAYBACK_FLAGS = 0x7"
definition ILDA_PLAYBACK_FLAGS :: u16 where "ILDA_PLAYBACK_FLAGS = 0x1"
definition INTERNAL_GENERATOR_FLAGS :: u16 where "INTERNAL_GENERATOR_FLAGS = 0"

definition light_engine_from :: "u8 \<Rightarrow> light_engine option" where
  "light_engine_from state =
     (if state = 0 then Some Ready else if state = 1 then Some Warmup else if state = 2 then Some Cooldown
      else if state = 3 then Some LeEmergencyStop else None)"

fun light_engine_to :: "light_engine \<Rightarrow> u8" where
  "light_engine_to Ready = 0"
| "light_engine_to Warmup = 1"
| "light_engine_to Cooldown = 2"
| "light_engine_to LeEmergencyStop = 3"

definition playback_from :: "u8 \<Rightarrow> playback option" where
  "playback_from state =
     (if state = 0 then Some Idle else if state = 1 then Some Prepared else if state = 2 then Some Playing else None)"

fun playback_to :: "playback \<Rightarrow> u8" where
  "playback_to Idle = 0"
| "playback_to Prepared = 1"
| "playback_to Playing = 2"

definition data_source_from :: "u8 \<Rightarrow> u16 \<Rightarrow> data_source option" where
  "data_source_from source flags =
     (if source = 0 then Some NetworkStreaming
      else if source = 1 then Some (IldaPlayback (flags AND ILDA_PLAYBACK_FLAGS))
      else if source = 2 then Some (InternalAbstractGenerator (flags AND INTERNAL_GENERATOR_FLAGS))
      else None)"

fun data_source_to :: "data_source \<Rightarrow> u8 \<times> u16" where
  "data_source_to NetworkStreaming = (0, 0)"
| "data_source_to (IldaPlayback flags) = (1, flags)"
| "data_source_to (InternalAbstractGenerator flags) = (2, flags)"

definition status_from :: "dac_status \<Rightarrow> protocol_error + status" where
  "status_from s =
     (case light_engine_from (light_engine_state s) of None \<Rightarrow> Inl UnknownLightEngineState
      | Some le \<Rightarrow> (case playback_from (playback_state s) of None \<Rightarrow> Inl UnknownPlaybackState
      | Some pb \<Rightarrow> (case data_source_from (ds_source s) (source_flags s) of None \<Rightarrow> Inl UnknownDataSource
      | Some src \<Rightarrow> Inr \<lparr>st_protocol = ds_protocol s, st_light_engine = le, st_playback = pb, st_data_source = src,
          st_light_engine_flags = light_engine_flags s AND LIGHT_ENGINE_FLAGS,
          st_playback_flags = playback_flags s AND PLAYBACK_FLAGS,
          st_buffer_fullness = buffer_fullness s, st_point_rate = ds_point_rate s, st_point_count = point_count s\<rparr>)))"

definition status_to :: "status \<Rightarrow> dac_status" where
  "status_to s = (let (source, flags) = data_source_to (st_data_source s)
     in \<lparr>ds_protocol = st_protocol s, light_engine_state = light_engine_to (st_light_engine s),
         playback_state = playback_to (st_playback s), ds_source = source,
         light_engine_flags = st_light_engine_flags s, playback_flags = st_playback_flags s, source_flags = flags,
         buffer_fullness = st_buffer_fullness s, ds_point_rate = st_point_rate s, point_count = st_point_count s\<rparr>)"

text \<open>\<open>Status::update\<close> and \<open>Dac::update_status\<close>: an unknown state leaves the last status in place.\<close>

definition status_update :: "dac_status \<Rightarrow> status \<Rightarrow> (protocol_error + unit) \<times> status" where
  "status_update s st = (case status_from s of Inl e \<Rightarrow> (Inl e, st) | Inr st' \<Rightarrow> (Inr (), st'))"

definition update_status :: "dac_status \<Rightarrow> dac \<Rightarrow> (protocol_error + unit) \<times> dac" where
  "update_status s d = (case status_update s (dac_state d) of (r, st) \<Rightarrow> (r, d\<lparr>dac_state := st\<rparr>))"

definition from_broadcast :: "dac_broadcast \<Rightarrow> protocol_error + addressed" where
  "from_broadcast b = (case status_from (br_dac_status b) of
     Inl e \<Rightarrow> Inl e
   | Inr st \<Rightarrow> Inr \<lparr>ad_mac_address = mac_address b,
       ad_dac = \<lparr>dac_hw_revision = hw_revision b, dac_sw_revision = sw_revision b,
         dac_buffer_capacity = buffer_capacity b, dac_max_point_rate = max_point_rate b, dac_state = st\<rparr>\<rparr>)"

definition read_any_command :: "ed_command reader" where
  "read_any_command = rbind read_u8 (\<lambda>cmd.
     if cmd = 0x70 then rreturn PrepareStream
     else if cmd = 0x62 then begin_read_fields
     else if cmd = 0x75 then update_read_fields
     else if cmd = 0x71 then point_rate_read_fields
     else if cmd = 0x64 then data_read_fields
     else if cmd = 0x73 then rreturn Stop
     else if cmd = 0x00 then rreturn EmergencyStop
     else if cmd = 0xff then rreturn EmergencyStop
     else if cmd = 0x63 then rreturn ClearEmergencyStop
     else if cmd = 0x3f then rreturn Ping
     else rfail InvalidData)"

subsection \<open>Round trips\<close>

text \<open>A status of the enumerations, with only known flag bits, survives the wire.\<close>

definition status_wf :: "status \<Rightarrow> bool" where
  "status_wf s \<longleftrightarrow> st_light_engine_flags s AND LIGHT_ENGINE_FLAGS = st_light_engine_flags s \<and>
     st_playback_flags s AND PLAYBACK_FLAGS = st_playback_flags s \<and>
     (case st_data_source s of NetworkStreaming \<Rightarrow> True
      | IldaPlayback f \<Rightarrow> f AND ILDA_PLAYBACK_FLAGS = f
      | InternalAbstractGenerator f \<Rightarrow> f AND INTERNAL_GENERATOR_FLAGS = f)"

lemma status_roundtrip: "status_wf s \<Longrightarrow> status_from (status_to s) = Inr s"
  by (cases s; cases "st_light_engine s"; cases "st_playback s"; cases "st_data_source s")
     (auto simp: status_wf_def status_from_def status_to_def light_engine_from_def playback_from_def data_source_from_def)

lemma status_from_wf: "status_from d = Inr s \<Longrightarrow> status_wf s"
  by (auto simp: status_from_def status_wf_def data_source_from_def and.assoc split: option.splits if_splits)

lemma status_from_states:
  "status_from d = Inr s \<Longrightarrow> light_engine_to (st_light_engine s) = light_engine_state d \<and>
     playback_to (st_playback s) = playback_state d \<and> st_buffer_fullness s = buffer_fullness d \<and> st_point_rate s = ds_point_rate d"
  by (auto simp: status_from_def light_engine_from_def playback_from_def split: option.splits if_splits)

lemma read_any_command_roundtrip:
  assumes "write_command c = Inr w" "c \<noteq> Version"
  shows "read_any_command (w @ r) = Inr (if c = EmergencyStopAlt then EmergencyStop else c, r)"
  using assms command_roundtrip [OF assms(1), of r]
  by (cases c) (auto simp: read_any_command_def rbind_def rreturn_def write_data_def command_reader_defs split: if_splits)

end
