(* ===== verification/Effect.thy ===== *)
theory Effect
  imports Prelude
begin

text \<open>
  Fallible code with effects: a function from a state to its result (an error or a value) and the
  state after it, errors keeping the changes made before them, as early returns of the source
  do. \<^const>\<open>None\<close> is a call that panics or never returns. The rules show that an invariant of the
  state is kept by a composition when its parts keep it.
\<close>

type_synonym ('s, 'e, 'a) eff = "'s \<Rightarrow> (('e + 'a) \<times> 's) option"

definition eret :: "'a \<Rightarrow> ('s, 'e, 'a) eff" where
  "eret a s = Some (Inr a, s)"

definition efail :: "'e \<Rightarrow> ('s, 'e, 'a) eff" where
  "efail e s = Some (Inl e, s)"

definition epanic :: "('s, 'e, 'a) eff" where
  "epanic s = None"

definition ebind :: "('s, 'e, 'a) eff \<Rightarrow> ('a \<Rightarrow> ('s, 'e, 'b) eff) \<Rightarrow> ('s, 'e, 'b) eff" where
  "ebind m f s = (case m s of
     None \<Rightarrow> None
   | Some (Inl e, s') \<Rightarrow> Some (Inl e, s')
   | Some (Inr a, s') \<Rightarrow> f a s')"

text \<open>The result as a value, for code that matches on it.\<close>

definition etry :: "('s, 'e, 'a) eff \<Rightarrow> ('s, 'f, 'e + 'a) eff" where
  "etry m s = (case m s of None \<Rightarrow> None | Some (r, s') \<Rightarrow> Some (Inr r, s'))"

definition emap_err :: "('e \<Rightarrow> 'f) \<Rightarrow> ('s, 'e, 'a) eff \<Rightarrow> ('s, 'f, 'a) eff" where
  "emap_err h m s = (case m s of
     None \<Rightarrow> None
   | Some (Inl e, s') \<Rightarrow> Some (Inl (h e), s')
   | Some (Inr a, s') \<Rightarrow> Some (Inr a, s'))"

definition eget :: "('s \<Rightarrow> 'a) \<Rightarrow> ('s, 'e, 'a) eff" where
  "eget g s = Some (Inr (g s), s)"

definition emod :: "('s \<Rightarrow> 's) \<Rightarrow> ('s, 'e, unit) eff" where
  "emod h s = Some (Inr (), h s)"

definition ethen :: "('s, 'e, unit) eff \<Rightarrow> ('s, 'e, 'b) eff \<Rightarrow> ('s, 'e, 'b) eff" where
  "ethen m k = ebind m (\<lambda>_. k)"

text \<open>Running an effect on a part of a larger state.\<close>

definition ezoom :: "('t \<Rightarrow> 's) \<Rightarrow> ('s \<Rightarrow> 't \<Rightarrow> 't) \<Rightarrow> ('s, 'e, 'a) eff \<Rightarrow> ('t, 'e, 'a) eff" where
  "ezoom get put m t = (case m (get t) of None \<Rightarrow> None | Some (r, s) \<Rightarrow> Some (r, put s t))"

lemmas eff_defs = eret_def efail_def epanic_def ebind_def etry_def emap_err_def eget_def emod_def ethen_def ezoom_def

subsection \<open>Invariants\<close>

definition keeps :: "('s \<Rightarrow> bool) \<Rightarrow> ('s, 'e, 'a) eff \<Rightarrow> bool" where
  "keeps P m \<longleftrightarrow> (\<forall>s r s'. P s \<longrightarrow> m s = Some (r, s') \<longrightarrow> P s')"

named_theorems keeps_intros \<open>an effect keeps an invariant when its parts do\<close>

lemma keepsD: "keeps P m \<Longrightarrow> P s \<Longrightarrow> m s = Some (r, s') \<Longrightarrow> P s'"
  by (auto simp: keeps_def)

lemma keepsI: "(\<And>s r s'. P s \<Longrightarrow> m s = Some (r, s') \<Longrightarrow> P s') \<Longrightarrow> keeps P m"
  unfolding keeps_def by blast

lemma keeps_conj: "keeps P m \<Longrightarrow> keeps Q m \<Longrightarrow> keeps (\<lambda>s. P s \<and> Q s) m"
  unfolding keeps_def by blast

lemma keeps_pure [keeps_intros]: "keeps P (eret a)" "keeps P (efail e)" "keeps P epanic" "keeps P (eget g)"
  by (simp_all add: keeps_def eret_def efail_def epanic_def eget_def)

lemma keeps_emod [keeps_intros]: "(\<And>s. P s \<Longrightarrow> P (h s)) \<Longrightarrow> keeps P (emod h)"
  by (simp add: keeps_def emod_def)

lemma keeps_ebind [keeps_intros]:
  assumes m: "keeps P m" and f: "\<And>a. keeps P (f a)"
  shows "keeps P (ebind m f)"
  unfolding keeps_def
proof (intro allI impI)
  fix s r s' assume s: "P s" and run: "ebind m f s = Some (r, s')"
  obtain x s1 where x: "m s = Some (x, s1)" using run by (cases "m s") (auto simp: ebind_def)
  have "P s1" using keepsD [OF m s x] .
  then show "P s'" using run x keepsD [OF f] by (cases x) (auto simp: ebind_def)
qed

lemma keeps_ethen [keeps_intros]: "keeps P m \<Longrightarrow> keeps P k \<Longrightarrow> keeps P (ethen m k)"
  by (simp add: ethen_def keeps_ebind)

lemma keeps_etry [keeps_intros]: "keeps P m \<Longrightarrow> keeps P (etry m)"
  by (auto simp: keeps_def etry_def split: option.splits)

lemma keeps_emap_err [keeps_intros]: "keeps P m \<Longrightarrow> keeps P (emap_err h m)"
  by (auto simp: keeps_def emap_err_def split: option.splits sum.splits)

lemma keeps_if [keeps_intros]: "(b \<Longrightarrow> keeps P m) \<Longrightarrow> (\<not> b \<Longrightarrow> keeps P k) \<Longrightarrow> keeps P (if b then m else k)"
  by simp

lemma keeps_case_option [keeps_intros]:
  "(x = None \<Longrightarrow> keeps P m) \<Longrightarrow> (\<And>a. x = Some a \<Longrightarrow> keeps P (f a)) \<Longrightarrow> keeps P (case x of None \<Rightarrow> m | Some a \<Rightarrow> f a)"
  by (cases x) simp_all

lemma keeps_case_sum [keeps_intros]:
  "(\<And>e. y = Inl e \<Longrightarrow> keeps P (g e)) \<Longrightarrow> (\<And>a. y = Inr a \<Longrightarrow> keeps P (h a)) \<Longrightarrow> keeps P (case y of Inl e \<Rightarrow> g e | Inr a \<Rightarrow> h a)"
  by (cases y) simp_all

lemma keeps_ezoom [keeps_intros]:
  "keeps Q m \<Longrightarrow> (\<And>t. P t \<Longrightarrow> Q (get t)) \<Longrightarrow> (\<And>s t. P t \<Longrightarrow> Q s \<Longrightarrow> P (put s t)) \<Longrightarrow> keeps P (ezoom get put m)"
  by (simp add: keeps_def ezoom_def split: option.splits) blast

text \<open>A composition that starts by reading the state runs its continuation on what the invariant says of it.\<close>

lemma keeps_eget_bind: "(\<And>s. P s \<Longrightarrow> keeps P (f (g s))) \<Longrightarrow> keeps P (ebind (eget g) f)"
  unfolding keeps_def ebind_def eget_def option.case prod.case sum.case by blast

text \<open>An effect that keeps an invariant and returns only values with a property.\<close>

definition yields :: "('s \<Rightarrow> bool) \<Rightarrow> ('s, 'e, 'a) eff \<Rightarrow> ('a \<Rightarrow> bool) \<Rightarrow> bool" where
  "yields P m Q \<longleftrightarrow> (\<forall>s r s'. P s \<longrightarrow> m s = Some (r, s') \<longrightarrow> P s' \<and> (\<forall>a. r = Inr a \<longrightarrow> Q a))"

lemma yieldsI: "(\<And>s r s'. P s \<Longrightarrow> m s = Some (r, s') \<Longrightarrow> P s' \<and> (\<forall>a. r = Inr a \<longrightarrow> Q a)) \<Longrightarrow> yields P m Q"
  unfolding yields_def by blast

lemma yieldsD: "yields P m Q \<Longrightarrow> P s \<Longrightarrow> m s = Some (r, s') \<Longrightarrow> P s' \<and> (\<forall>a. r = Inr a \<longrightarrow> Q a)"
  unfolding yields_def by blast

lemma yields_keeps: "yields P m Q \<Longrightarrow> keeps P m"
  unfolding yields_def keeps_def by blast

lemma keeps_yields: "keeps P m \<Longrightarrow> yields P m (\<lambda>_. True)"
  unfolding yields_def keeps_def by blast

lemma yields_pure: "Q a \<Longrightarrow> yields P (eret a) Q" "yields P (efail e) Q" "yields P epanic Q"
  by (simp_all add: yields_def eret_def efail_def epanic_def)

lemma yields_ebind:
  assumes m: "yields P m R" and f: "\<And>a. R a \<Longrightarrow> yields P (f a) Q"
  shows "yields P (ebind m f) Q"
proof (rule yieldsI)
  fix s r s' assume s: "P s" and run: "ebind m f s = Some (r, s')"
  obtain x s1 where x: "m s = Some (x, s1)" using run by (cases "m s") (auto simp: ebind_def)
  note s1 = yieldsD [OF m s x]
  show "P s' \<and> (\<forall>a. r = Inr a \<longrightarrow> Q a)"
  proof (cases x)
    case (Inl e)
    then have "r = Inl e" "s' = s1" using run x by (simp_all add: ebind_def)
    then show ?thesis using s1 by simp
  next
    case (Inr a)
    then have "f a s1 = Some (r, s')" using run x by (simp add: ebind_def)
    then show ?thesis using yieldsD [OF f] s1 Inr by blast
  qed
qed

lemma yields_ethen: "keeps P m \<Longrightarrow> yields P k Q \<Longrightarrow> yields P (ethen m k) Q"
  unfolding ethen_def by (rule yields_ebind [OF keeps_yields]) simp_all

lemma yields_eget_bind: "(\<And>s. P s \<Longrightarrow> yields P (f (g s)) Q) \<Longrightarrow> yields P (ebind (eget g) f) Q"
  unfolding yields_def ebind_def eget_def option.case prod.case sum.case by blast

lemma yields_if: "(b \<Longrightarrow> yields P m Q) \<Longrightarrow> (\<not> b \<Longrightarrow> yields P k Q) \<Longrightarrow> yields P (if b then m else k) Q"
  by simp

lemma yields_emap_err:
  assumes m: "yields P m Q"
  shows "yields P (emap_err h m) Q"
proof (rule yieldsI)
  fix s r s' assume s: "P s" and run: "emap_err h m s = Some (r, s')"
  then obtain x where x: "m s = Some (x, s')" "\<And>a. r = Inr a \<Longrightarrow> x = Inr a"
    by (auto simp: emap_err_def split: option.splits sum.splits)
  from yieldsD [OF m s x(1)] show "P s' \<and> (\<forall>a. r = Inr a \<longrightarrow> Q a)" using x(2) by blast
qed

lemma yields_ezoom:
  assumes m: "yields Q m R" and get: "\<And>t. P t \<Longrightarrow> Q (get t)" and put: "\<And>s t. P t \<Longrightarrow> Q s \<Longrightarrow> P (put s t)"
  shows "yields P (ezoom get put m) R"
proof (rule yieldsI)
  fix t r t' assume t: "P t" and run: "ezoom get put m t = Some (r, t')"
  then obtain s where s: "m (get t) = Some (r, s)" "t' = put s t" by (auto simp: ezoom_def split: option.splits)
  from yieldsD [OF m get [OF t] s(1)] show "P t' \<and> (\<forall>a. r = Inr a \<longrightarrow> R a)" using put [OF t] s(2) by blast
qed

lemma keeps_bind_yields: "yields P m R \<Longrightarrow> (\<And>a. R a \<Longrightarrow> keeps P (f a)) \<Longrightarrow> keeps P (ebind m f)"
  by (rule yields_keeps [OF yields_ebind [OF _ keeps_yields]])

subsection \<open>Total effects\<close>

text \<open>An effect that returns from every state with a property, to a state with that property.\<close>

definition returns :: "('s \<Rightarrow> bool) \<Rightarrow> ('s, 'e, 'a) eff \<Rightarrow> bool" where
  "returns P m \<longleftrightarrow> (\<forall>s. P s \<longrightarrow> (\<exists>r s'. m s = Some (r, s') \<and> P s'))"

named_theorems returns_intros \<open>an effect returns when its parts do\<close>

lemma returnsD: "returns P m \<Longrightarrow> P s \<Longrightarrow> \<exists>r s'. m s = Some (r, s') \<and> P s'"
  unfolding returns_def by blast

lemma returnsI: "(\<And>s. P s \<Longrightarrow> \<exists>r s'. m s = Some (r, s') \<and> P s') \<Longrightarrow> returns P m"
  unfolding returns_def by blast

lemma returns_pure [returns_intros]: "returns P (eret a)" "returns P (efail e)" "returns P (eget g)"
  by (simp_all add: returns_def eret_def efail_def eget_def)

lemma returns_emod [returns_intros]: "(\<And>s. P s \<Longrightarrow> P (h s)) \<Longrightarrow> returns P (emod h)"
  by (simp add: returns_def emod_def)

lemma returns_ebind [returns_intros]:
  assumes m: "returns P m" and f: "\<And>a. returns P (f a)"
  shows "returns P (ebind m f)"
proof (rule returnsI)
  fix s assume "P s"
  then obtain x s1 where x: "m s = Some (x, s1)" "P s1" using returnsD [OF m] by blast
  show "\<exists>r s'. ebind m f s = Some (r, s') \<and> P s'"
    using x returnsD [OF f x(2)] by (cases x) (auto simp: ebind_def)
qed

lemma returns_ethen [returns_intros]: "returns P m \<Longrightarrow> returns P k \<Longrightarrow> returns P (ethen m k)"
  by (simp add: ethen_def returns_ebind)

lemma returns_etry [returns_intros]: "returns P m \<Longrightarrow> returns P (etry m)"
  by (rule returnsI) (auto simp: etry_def dest: returnsD)

lemma returns_emap_err [returns_intros]:
  assumes m: "returns P m"
  shows "returns P (emap_err h m)"
proof (rule returnsI)
  fix s assume "P s"
  then obtain x s1 where "m s = Some (x, s1)" "P s1" using returnsD [OF m] by blast
  then show "\<exists>r s'. emap_err h m s = Some (r, s') \<and> P s'" by (cases x) (simp_all add: emap_err_def)
qed

lemma returns_if [returns_intros]: "(b \<Longrightarrow> returns P m) \<Longrightarrow> (\<not> b \<Longrightarrow> returns P k) \<Longrightarrow> returns P (if b then m else k)"
  by simp

lemma returns_case_option [returns_intros]:
  "(x = None \<Longrightarrow> returns P m) \<Longrightarrow> (\<And>a. x = Some a \<Longrightarrow> returns P (f a)) \<Longrightarrow> returns P (case x of None \<Rightarrow> m | Some a \<Rightarrow> f a)"
  by (cases x) simp_all

lemma returns_case_sum [returns_intros]:
  "(\<And>e. y = Inl e \<Longrightarrow> returns P (g e)) \<Longrightarrow> (\<And>a. y = Inr a \<Longrightarrow> returns P (h a)) \<Longrightarrow> returns P (case y of Inl e \<Rightarrow> g e | Inr a \<Rightarrow> h a)"
  by (cases y) simp_all

lemma returns_ezoom [returns_intros]:
  assumes m: "returns Q m" and get: "\<And>t. P t \<Longrightarrow> Q (get t)" and put: "\<And>s t. P t \<Longrightarrow> Q s \<Longrightarrow> P (put s t)"
  shows "returns P (ezoom get put m)"
proof (rule returnsI)
  fix t assume t: "P t"
  obtain r s where "m (get t) = Some (r, s)" "Q s" using returnsD [OF m get [OF t]] by blast
  then show "\<exists>r t'. ezoom get put m t = Some (r, t') \<and> P t'" using put [OF t] by (simp add: ezoom_def)
qed

lemma returns_eget_bind: "(\<And>s. P s \<Longrightarrow> returns P (f (g s))) \<Longrightarrow> returns P (ebind (eget g) f)"
  unfolding returns_def ebind_def eget_def option.case prod.case sum.case by blast

subsection \<open>Triples\<close>

text \<open>What holds of the result and the state after an effect that returns.\<close>

definition hoare :: "('s \<Rightarrow> bool) \<Rightarrow> ('s, 'e, 'a) eff \<Rightarrow> ('e + 'a \<Rightarrow> 's \<Rightarrow> bool) \<Rightarrow> bool" where
  "hoare P m Q \<longleftrightarrow> (\<forall>s r s'. P s \<longrightarrow> m s = Some (r, s') \<longrightarrow> Q r s')"

lemma hoareI: "(\<And>s r s'. P s \<Longrightarrow> m s = Some (r, s') \<Longrightarrow> Q r s') \<Longrightarrow> hoare P m Q"
  unfolding hoare_def by blast

lemma hoareD: "hoare P m Q \<Longrightarrow> P s \<Longrightarrow> m s = Some (r, s') \<Longrightarrow> Q r s'"
  unfolding hoare_def by blast

lemma hoare_pre: "hoare P m Q \<Longrightarrow> (\<And>s. P' s \<Longrightarrow> P s) \<Longrightarrow> hoare P' m Q"
  unfolding hoare_def by blast

lemma hoare_post: "hoare P m Q \<Longrightarrow> (\<And>r s. Q r s \<Longrightarrow> Q' r s) \<Longrightarrow> hoare P m Q'"
  unfolding hoare_def by blast

lemma hoare_eret: "(\<And>s. P s \<Longrightarrow> Q (Inr a) s) \<Longrightarrow> hoare P (eret a) Q"
  by (simp add: hoare_def eret_def)

lemma hoare_efail: "(\<And>s. P s \<Longrightarrow> Q (Inl e) s) \<Longrightarrow> hoare P (efail e) Q"
  by (simp add: hoare_def efail_def)

lemma hoare_epanic: "hoare P epanic Q"
  by (simp add: hoare_def epanic_def)

lemma hoare_emod: "(\<And>s. P s \<Longrightarrow> Q (Inr ()) (h s)) \<Longrightarrow> hoare P (emod h) Q"
  by (simp add: hoare_def emod_def)

lemma hoare_eget_bind: "(\<And>x. hoare (\<lambda>s. P s \<and> g s = x) (f x) Q) \<Longrightarrow> hoare P (ebind (eget g) f) Q"
  unfolding hoare_def ebind_def eget_def option.case prod.case sum.case by blast

lemma hoare_ebind:
  assumes m: "hoare P m R" and f: "\<And>a. hoare (R (Inr a)) (f a) Q" and e: "\<And>e s. R (Inl e) s \<Longrightarrow> Q (Inl e) s"
  shows "hoare P (ebind m f) Q"
proof (rule hoareI)
  fix s r s' assume s: "P s" and run: "ebind m f s = Some (r, s')"
  obtain x s1 where x: "m s = Some (x, s1)" using run by (cases "m s") (auto simp: ebind_def)
  note s1 = hoareD [OF m s x]
  show "Q r s'"
  proof (cases x)
    case (Inl e)
    then have "r = Inl e" "s' = s1" using run x by (simp_all add: ebind_def)
    then show ?thesis using s1 Inl assms(3) by simp
  next
    case (Inr a)
    then have "f a s1 = Some (r, s')" using run x by (simp add: ebind_def)
    then show ?thesis using hoareD [OF f] s1 Inr by blast
  qed
qed

lemma hoare_ethen:
  "hoare P m R \<Longrightarrow> hoare (R (Inr ())) k Q \<Longrightarrow> (\<And>e s. R (Inl e) s \<Longrightarrow> Q (Inl e) s) \<Longrightarrow> hoare P (ethen m k) Q"
  unfolding ethen_def by (rule hoare_ebind [where R = R]) simp_all

lemma hoare_etry: "hoare P m Q \<Longrightarrow> hoare P (etry m) (\<lambda>r s. \<exists>x. r = Inr x \<and> Q x s)"
  by (rule hoareI) (auto simp: etry_def split: option.splits dest: hoareD)

lemma hoare_try_bind: "hoare P m R \<Longrightarrow> (\<And>x. hoare (R x) (f x) Q) \<Longrightarrow> hoare P (ebind (etry m) f) Q"
  by (rule hoare_ebind [OF hoare_etry]) (auto elim: hoare_pre)

lemma hoare_emap_err: "hoare P m (\<lambda>r s. Q (case r of Inl e \<Rightarrow> Inl (h e) | Inr a \<Rightarrow> Inr a) s) \<Longrightarrow> hoare P (emap_err h m) Q"
  by (rule hoareI) (auto simp: emap_err_def split: option.splits sum.splits dest: hoareD)

lemma hoare_if: "(b \<Longrightarrow> hoare P m Q) \<Longrightarrow> (\<not> b \<Longrightarrow> hoare P k Q) \<Longrightarrow> hoare P (if b then m else k) Q"
  by simp

lemma hoare_False: "hoare (\<lambda>s. False) m Q"
  by (simp add: hoare_def)

lemma hoare_ex: "(\<And>x. hoare (P x) m Q) \<Longrightarrow> hoare (\<lambda>s. \<exists>x. P x s) m Q"
  unfolding hoare_def by blast

lemma keeps_hoare: "keeps P m \<Longrightarrow> hoare P m (\<lambda>_. P)"
  unfolding hoare_def keeps_def by blast

end
