(* ===== verification/Ether_Dream_Link.thy ===== *)
theory Ether_Dream_Link
  imports Ether_Dream_Dac Effect Time_Model
begin

text \<open>
  \<^verbatim>\<open>src/protocols/ether_dream/dac/stream.rs\<close>: the command stream to a DAC. The operating system's
  clock and TCP sockets are the parameter \<open>net\<close>, acting on a world \<open>'w\<close>; a connection is named by
  its handle. An \<open>io::Error\<close> keeps its kind. The scratch buffer \<open>bytes\<close> is left out: every user
  clears or overwrites it first.
\<close>

subsection \<open>The network\<close>

record 'w net =
  net_now :: "'w \<Rightarrow> instant \<times> 'w"
  net_open :: "duration \<Rightarrow> 'w \<Rightarrow> (io_error + nat) \<times> 'w"
  net_set_nodelay :: "nat \<Rightarrow> bool \<Rightarrow> 'w \<Rightarrow> (io_error + unit) \<times> 'w"
  net_set_read_timeout :: "nat \<Rightarrow> duration option \<Rightarrow> 'w \<Rightarrow> (io_error + unit) \<times> 'w"
  net_set_write_timeout :: "nat \<Rightarrow> duration option \<Rightarrow> 'w \<Rightarrow> (io_error + unit) \<times> 'w"
  net_try_clone :: "nat \<Rightarrow> 'w \<Rightarrow> (io_error + unit) \<times> 'w"
  net_write :: "nat \<Rightarrow> u8 list \<Rightarrow> 'w \<Rightarrow> (io_error + unit) \<times> 'w"
  net_read :: "nat \<Rightarrow> nat \<Rightarrow> 'w \<Rightarrow> (io_error + u8 list) \<times> 'w"
  net_close :: "nat \<Rightarrow> 'w \<Rightarrow> 'w"

definition eio :: "('w \<Rightarrow> (io_error + 'a) \<times> 'w) \<Rightarrow> ('w, io_error, 'a) eff" where
  "eio f w = Some (f w)"

definition enow :: "'w net \<Rightarrow> ('w, 'e, instant) eff" where
  "enow N w = (case net_now N w of (t, w') \<Rightarrow> Some (Inr t, w'))"

subsection \<open>Types\<close>

datatype queued_command =
    QPrepareStream
  | QBegin u16 u32
  | QUpdate u16 u32
  | QPointRate u32
  | QData nat nat
  | QStop
  | QEmergencyStop
  | QClearEmergencyStop
  | QPing

fun qc_point_rate :: "queued_command \<Rightarrow> u32 option" where
  "qc_point_rate (QBegin _ rate) = Some rate"
| "qc_point_rate (QUpdate _ rate) = Some rate"
| "qc_point_rate (QPointRate rate) = Some rate"
| "qc_point_rate _ = None"

datatype nak = NakFull | NakInvalid | NakStopCondition

datatype response_error_kind = UnexpectedCommand u8 | NakKind nak

record response_error =
  re_response :: dac_response
  re_kind :: response_error_kind

datatype communication_error =
    CommIo io_error
  | CommProtocol protocol_error
  | CommResponse response_error

record ed_stream =
  es_dac :: addressed
  es_conn :: nat
  es_command_buffer :: "queued_command list"
  es_point_buffer :: "dac_point list"
  es_status_sent_at :: instant
  es_status_received_at :: instant

definition nak_from_protocol :: "u8 \<Rightarrow> nak option" where
  "nak_from_protocol n =
     (if n = RESP_NAK_FULL then Some NakFull else if n = RESP_NAK_INVALID then Some NakInvalid
      else if n = RESP_NAK_STOP_CONDITION then Some NakStopCondition else None)"

fun nak_to_protocol :: "nak \<Rightarrow> u8" where
  "nak_to_protocol NakFull = RESP_NAK_FULL"
| "nak_to_protocol NakInvalid = RESP_NAK_INVALID"
| "nak_to_protocol NakStopCondition = RESP_NAK_STOP_CONDITION"

definition check_errors :: "dac_response \<Rightarrow> u8 \<Rightarrow> response_error + unit" where
  "check_errors r expected =
     (if resp_command r \<noteq> expected
      then Inl \<lparr>re_response = r, re_kind = UnexpectedCommand (resp_command r)\<rparr>
      else case nak_from_protocol (resp_response r) of
             Some n \<Rightarrow> Inl \<lparr>re_response = r, re_kind = NakKind n\<rparr>
           | None \<Rightarrow> Inr ())"

subsection \<open>The command queue\<close>

definition push_command :: "queued_command \<Rightarrow> ed_stream \<Rightarrow> ed_stream" where
  "push_command c s = s\<lparr>es_command_buffer := es_command_buffer s @ [c]\<rparr>"

definition queue_commands :: "ed_stream \<Rightarrow> ed_stream" where
  "queue_commands s = s\<lparr>es_command_buffer := [], es_point_buffer := []\<rparr>"

definition q_prepare_stream :: "ed_stream \<Rightarrow> ed_stream" where
  "q_prepare_stream = push_command QPrepareStream"

definition q_begin :: "u16 \<Rightarrow> u32 \<Rightarrow> ed_stream \<Rightarrow> ed_stream" where
  "q_begin low_water_mark point_rate = push_command (QBegin low_water_mark point_rate)"

definition q_update :: "u16 \<Rightarrow> u32 \<Rightarrow> ed_stream \<Rightarrow> ed_stream" where
  "q_update low_water_mark point_rate = push_command (QUpdate low_water_mark point_rate)"

definition q_point_rate :: "u32 \<Rightarrow> ed_stream \<Rightarrow> ed_stream" where
  "q_point_rate point_rate = push_command (QPointRate point_rate)"

definition q_data :: "dac_point list \<Rightarrow> ed_stream \<Rightarrow> ed_stream" where
  "q_data points s =
     (let start = length (es_point_buffer s);
          buf = es_point_buffer s @ points;
          stop = (if umax 16 < length buf - start then start + umax 16 else length buf)
      in push_command (QData start stop) (s\<lparr>es_point_buffer := take stop buf\<rparr>))"

definition q_stop :: "ed_stream \<Rightarrow> ed_stream" where "q_stop = push_command QStop"
definition q_emergency_stop :: "ed_stream \<Rightarrow> ed_stream" where "q_emergency_stop = push_command QEmergencyStop"
definition q_clear_emergency_stop :: "ed_stream \<Rightarrow> ed_stream" where
  "q_clear_emergency_stop = push_command QClearEmergencyStop"
definition q_ping :: "ed_stream \<Rightarrow> ed_stream" where "q_ping = push_command QPing"

text \<open>The command a queue entry sends; \<open>None\<close> is the panic of a slice out of range.\<close>

fun wire_command :: "dac_point list \<Rightarrow> queued_command \<Rightarrow> ed_command option" where
  "wire_command points QPrepareStream = Some PrepareStream"
| "wire_command points (QBegin lwm rate) = Some (Begin lwm rate)"
| "wire_command points (QUpdate lwm rate) = Some (Update lwm rate)"
| "wire_command points (QPointRate rate) = Some (PointRate rate)"
| "wire_command points (QData i j) =
     (if i \<le> j \<and> j \<le> length points then Some (Data (take (j - i) (drop i points))) else None)"
| "wire_command points QStop = Some Stop"
| "wire_command points QEmergencyStop = Some EmergencyStop"
| "wire_command points QClearEmergencyStop = Some ClearEmergencyStop"
| "wire_command points QPing = Some Ping"

subsection \<open>Reading\<close>

partial_function (option) read_loop ::
  "'w net \<Rightarrow> nat \<Rightarrow> instant \<Rightarrow> duration \<Rightarrow> nat \<Rightarrow> u8 list \<Rightarrow> 'w \<Rightarrow> ((io_error + u8 list) \<times> 'w) option" where
  "read_loop N h start budget n buf w =
     (if n \<le> length buf then Some (Inr buf, w)
      else case net_read N h (n - length buf) w of
        (Inr bs, w') \<Rightarrow> if bs = [] then Some (Inl UnexpectedEof, w') else read_loop N h start budget n (buf @ bs) w'
      | (Inl e, w') \<Rightarrow>
          if e = Interrupted then read_loop N h start budget n buf w'
          else if e = IoWouldBlock \<or> e = TimedOut
          then (case net_now N w' of
                  (t, w'') \<Rightarrow> if budget \<le> t - start then Some (Inl TimedOut, w'')
                              else read_loop N h start budget n buf w'')
          else Some (Inl e, w'))"

definition read_exact_with_budget :: "'w net \<Rightarrow> nat \<Rightarrow> nat \<Rightarrow> duration \<Rightarrow> ('w, io_error, u8 list) eff" where
  "read_exact_with_budget N h n budget = ebind (enow N) (\<lambda>start. read_loop N h start budget n [])"

definition READ_TIMEOUT :: duration where "READ_TIMEOUT = 500000000"
definition READ_BUDGET :: duration where "READ_BUDGET = 2000000000"
definition VERSION_BUDGET :: duration where "VERSION_BUDGET = 500000000"
definition WRITE_TIMEOUT :: duration where "WRITE_TIMEOUT = 2000000000"
definition MAX_RETRIES :: nat where "MAX_RETRIES = 5"
definition VERSION_RESPONSE_SIZE :: nat where "VERSION_RESPONSE_SIZE = 32"

text \<open>Effects on the world beside a local value.\<close>

definition on_world :: "('w, 'e, 'a) eff \<Rightarrow> ('s \<times> 'w, 'e, 'a) eff" where
  "on_world m = ezoom snd (\<lambda>w s. (fst s, w)) m"

definition edac :: "('d \<Rightarrow> ('e + 'a) \<times> 'd) \<Rightarrow> ('d \<times> 'w, 'e, 'a) eff" where
  "edac f s = (case f (fst s) of (r, d) \<Rightarrow> Some (r, (d, snd s)))"

definition addressed_update :: "dac_status \<Rightarrow> addressed \<Rightarrow> (communication_error + unit) \<times> addressed" where
  "addressed_update st a = (case update_status st (ad_dac a) of
     (Inl e, d) \<Rightarrow> (Inl (CommProtocol e), a\<lparr>ad_dac := d\<rparr>) | (Inr u, d) \<Rightarrow> (Inr u, a\<lparr>ad_dac := d\<rparr>))"

fun recv_retry :: "'w net \<Rightarrow> nat \<Rightarrow> u8 \<Rightarrow> nat \<Rightarrow> (addressed \<times> 'w, communication_error, unit) eff" where
  "recv_retry N h expected 0 = efail (CommIo OtherIo)"
| "recv_retry N h expected (Suc k) =
     ebind (emap_err CommIo (on_world (read_exact_with_budget N h DAC_RESPONSE_SIZE READ_BUDGET))) (\<lambda>bytes.
     case read_dac_response bytes of
       Inl e \<Rightarrow> efail (CommIo e)
     | Inr p \<Rightarrow> let response = fst p in
       ethen (edac (addressed_update (resp_dac_status response)))
         (if resp_command response = expected
          then (case check_errors response expected of Inl e \<Rightarrow> efail (CommResponse e) | Inr u \<Rightarrow> eret ())
          else if resp_response response = RESP_ACK \<or> resp_response response = RESP_NAK_INVALID
          then recv_retry N h expected k
          else efail (CommResponse \<lparr>re_response = response, re_kind = UnexpectedCommand (resp_command response)\<rparr>)))"

definition recv_response_buffered :: "'w net \<Rightarrow> nat \<Rightarrow> u8 \<Rightarrow> (addressed \<times> 'w, communication_error, unit) eff" where
  "recv_response_buffered N h expected = recv_retry N h expected (MAX_RETRIES + 1)"

subsection \<open>The stream\<close>

definition send_command :: "'w net \<Rightarrow> nat \<Rightarrow> ed_command \<Rightarrow> ('w, io_error, unit) eff" where
  "send_command N h c = (case write_command c of Inl e \<Rightarrow> efail e | Inr bytes \<Rightarrow> eio (net_write N h bytes))"

definition stream_send :: "'w net \<Rightarrow> ed_command \<Rightarrow> (ed_stream \<times> 'w, communication_error, unit) eff" where
  "stream_send N c = ebind (eget (es_conn \<circ> fst)) (\<lambda>h. emap_err CommIo (on_world (send_command N h c)))"

definition recv_response :: "'w net \<Rightarrow> u8 \<Rightarrow> (ed_stream \<times> 'w, communication_error, unit) eff" where
  "recv_response N expected = ebind (eget (es_conn \<circ> fst)) (\<lambda>h.
     ezoom (\<lambda>s. (es_dac (fst s), snd s)) (\<lambda>d s. ((fst s)\<lparr>es_dac := fst d\<rparr>, snd d))
       (recv_response_buffered N h expected))"

definition on_stream :: "(ed_stream \<Rightarrow> ed_stream) \<Rightarrow> (ed_stream \<times> 'w, 'e, unit) eff" where
  "on_stream f = emod (\<lambda>s. (f (fst s), snd s))"

definition stamp_status :: "instant \<Rightarrow> instant \<Rightarrow> ed_stream \<Rightarrow> ed_stream" where
  "stamp_status sent received s = s\<lparr>es_status_sent_at := sent, es_status_received_at := received\<rparr>"

text \<open>The bytes of the build string before their lossy UTF-8 decoding.\<close>

definition query_version :: "'w net \<Rightarrow> (ed_stream \<times> 'w, communication_error, u8 list option) eff" where
  "query_version N =
     ebind (on_world (enow N)) (\<lambda>sent_at.
     ethen (stream_send N Version) (
     ebind (eget (es_conn \<circ> fst)) (\<lambda>h.
     ebind (emap_err CommIo (on_world (read_exact_with_budget N h DAC_RESPONSE_SIZE VERSION_BUDGET))) (\<lambda>head.
     if nak_from_protocol (head ! 0) \<noteq> None \<and> head ! 1 = start_byte Version
     then (case read_dac_response head of
             Inl e \<Rightarrow> efail (CommIo e)
           | Inr p \<Rightarrow>
             ethen (ezoom (\<lambda>s. (es_dac (fst s), snd s)) (\<lambda>d s. ((fst s)\<lparr>es_dac := fst d\<rparr>, snd d))
                      (edac (addressed_update (resp_dac_status (fst p)))))
             (ebind (on_world (enow N)) (\<lambda>received. ethen (on_stream (stamp_status sent_at received)) (eret None))))
     else ebind (emap_err CommIo (on_world
                  (read_exact_with_budget N h (VERSION_RESPONSE_SIZE - DAC_RESPONSE_SIZE) VERSION_BUDGET))) (\<lambda>rest.
          eret (Some (version_bytes (head @ rest))))))))"

subsection \<open>Submitting a queue\<close>

definition unsafe_rate :: "u32 \<Rightarrow> u32 \<Rightarrow> bool" where
  "unsafe_rate max_rate rate \<longleftrightarrow> rate = 0 \<or> (0 < max_rate \<and> max_rate < rate)"

fun send_all :: "'w net \<Rightarrow> queued_command list \<Rightarrow> (ed_stream \<times> 'w, communication_error, (u8 \<times> instant) list) eff" where
  "send_all N [] = eret []"
| "send_all N (q # qs) =
     ebind (on_world (enow N)) (\<lambda>sent_at.
     ebind (eget (es_point_buffer \<circ> fst)) (\<lambda>points.
     case wire_command points q of
       None \<Rightarrow> epanic
     | Some c \<Rightarrow>
       ethen (stream_send N c)
       (ebind (send_all N qs) (\<lambda>sent. eret ((start_byte c, sent_at) # sent)))))"

fun is_nak :: "communication_error \<Rightarrow> bool" where
  "is_nak (CommResponse e) = (case re_kind e of NakKind _ \<Rightarrow> True | UnexpectedCommand _ \<Rightarrow> False)"
| "is_nak _ = False"

fun recv_all :: "'w net \<Rightarrow> (u8 \<times> instant) list \<Rightarrow> communication_error option \<Rightarrow>
    (ed_stream \<times> 'w, communication_error, unit) eff" where
  "recv_all N [] first_nak = (case first_nak of Some e \<Rightarrow> efail e | None \<Rightarrow> eret ())"
| "recv_all N (p # ps) first_nak =
     ebind (etry (recv_response N (fst p))) (\<lambda>result.
     ebind (on_world (enow N)) (\<lambda>received_at.
     case result of
       Inr u \<Rightarrow> ethen (on_stream (stamp_status (snd p) received_at)) (recv_all N ps first_nak)
     | Inl e \<Rightarrow>
       if is_nak e
       then ethen (on_stream (stamp_status (snd p) received_at))
              (recv_all N ps (case first_nak of None \<Rightarrow> Some e | Some f \<Rightarrow> Some f))
       else efail e))"

definition submit :: "'w net \<Rightarrow> (ed_stream \<times> 'w, communication_error, unit) eff" where
  "submit N =
     ebind (eget fst) (\<lambda>s.
     let max_rate = dac_max_point_rate (ad_dac (es_dac s));
         rates = List.map_filter qc_point_rate (es_command_buffer s)
     in case find (unsafe_rate max_rate) rates of
          Some rate \<Rightarrow> ethen (on_stream queue_commands) (efail (CommIo InvalidInput))
        | None \<Rightarrow>
          ethen (on_stream (\<lambda>s. s\<lparr>es_command_buffer := []\<rparr>))
          (ebind (send_all N (es_command_buffer s)) (\<lambda>sent. recv_all N sent None)))"

subsection \<open>Connecting\<close>

definition SYNTHETIC_BUFFER_CAPACITY :: u16 where "SYNTHETIC_BUFFER_CAPACITY = 1799"
definition SYNTHETIC_MAX_POINT_RATE :: u32 where "SYNTHETIC_MAX_POINT_RATE = 100000"

definition synthetic_broadcast :: dac_broadcast where
  "synthetic_broadcast = \<lparr>mac_address = (0, 0, 0, 0, 0, 0), hw_revision = 0, sw_revision = 0,
     buffer_capacity = SYNTHETIC_BUFFER_CAPACITY, max_point_rate = SYNTHETIC_MAX_POINT_RATE,
     br_dac_status = \<lparr>ds_protocol = 0, light_engine_state = LIGHT_ENGINE_READY, playback_state = PLAYBACK_IDLE,
       ds_source = 0, light_engine_flags = 0, playback_flags = 0, source_flags = 0, buffer_fullness = 0,
       ds_point_rate = 0, point_count = 0\<rparr>\<rparr>"

definition configure_socket :: "'w net \<Rightarrow> nat \<Rightarrow> ('w, io_error, unit) eff" where
  "configure_socket N h =
     ethen (eio (net_set_nodelay N h True))
     (ethen (eio (net_set_read_timeout N h (Some READ_TIMEOUT)))
     (ethen (eio (net_set_write_timeout N h (Some WRITE_TIMEOUT)))
     (eio (net_try_clone N h))))"

definition elocal :: "'d \<Rightarrow> ('d \<times> 'w, 'e, 'a) eff \<Rightarrow> ('w, 'e, 'd) eff" where
  "elocal d m w = (case m (d, w) of
     None \<Rightarrow> None | Some (Inl e, d', w') \<Rightarrow> Some (Inl e, w') | Some (Inr a, d', w') \<Rightarrow> Some (Inr d', w'))"

text \<open>A failure after the connection was opened drops, and so closes, the socket.\<close>

definition closing :: "'w net \<Rightarrow> nat \<Rightarrow> ('w, 'e, 'a) eff \<Rightarrow> ('w, 'e, 'a) eff" where
  "closing N h m = ebind (etry m) (\<lambda>r. case r of Inl e \<Rightarrow> ethen (emod (net_close N h)) (efail e) | Inr a \<Rightarrow> eret a)"

definition connect_inner :: "'w net \<Rightarrow> dac_broadcast \<Rightarrow> duration \<Rightarrow> ('w, communication_error, ed_stream) eff" where
  "connect_inner N broadcast timeout =
     (case from_broadcast broadcast of
        Inl e \<Rightarrow> efail (CommProtocol e)
      | Inr dac \<Rightarrow>
        ebind (enow N) (\<lambda>opened_at.
        ebind (emap_err CommIo (eio (net_open N timeout))) (\<lambda>h.
        closing N h (
          ethen (emap_err CommIo (configure_socket N h))
          (ebind (elocal dac (recv_response_buffered N h (start_byte Ping))) (\<lambda>dac.
          ebind (enow N) (\<lambda>hello_received_at.
          eret \<lparr>es_dac = dac, es_conn = h, es_command_buffer = [], es_point_buffer = [],
            es_status_sent_at = opened_at, es_status_received_at = hello_received_at\<rparr>)))))))"

definition connect_to :: "'w net \<Rightarrow> dac_broadcast option \<Rightarrow> duration \<Rightarrow> ('w, communication_error, ed_stream) eff" where
  "connect_to N broadcast timeout =
     connect_inner N (case broadcast of Some b \<Rightarrow> b | None \<Rightarrow> synthetic_broadcast) timeout"

end
