(* ===== verification/Ether_Dream_Backend.thy ===== *)
theory Ether_Dream_Backend
  imports Ether_Dream_Link Buffer_Estimate Config
begin

text \<open>
  \<^verbatim>\<open>src/protocols/ether_dream/backend.rs\<close>: the backend that keeps the ring of an Ether Dream fed.
  Every decision is taken from the status the DAC last reported. The socket address is fixed in
  the network parameter. Logging is left out.
\<close>

subsection \<open>State\<close>

text \<open>The two variants of \<open>Error\<close> this backend returns, the boxed source kept.\<close>

datatype ed_error = EdDisconnected string | EdBackend communication_error

record dac_rate_estimator =
  dr_inner :: status_decay
  dr_playing_rate :: u32

record ed_backend =
  eb_broadcast :: "dac_broadcast option"
  eb_stream :: "ed_stream option"
  eb_caps :: dac_capabilities
  eb_last_status_received :: "instant option"
  eb_last_point_rate :: u32
  eb_last_ping_time :: "instant option"
  eb_last_estop_attempt :: "instant option"
  eb_estimator :: dac_rate_estimator
  eb_firmware_version :: "u8 list option"
  eb_skip_version_query :: bool

definition WARMUP_PING_INTERVAL :: duration where "WARMUP_PING_INTERVAL = 100000000"
definition ESTOP_RETRY_INTERVAL :: duration where "ESTOP_RETRY_INTERVAL = nanos_per_sec"
definition CONNECT_TIMEOUT :: duration where "CONNECT_TIMEOUT = 5 * nanos_per_sec"
definition TARGET_CEILING_PERCENT :: nat where "TARGET_CEILING_PERCENT = 80"
definition MIN_BEGIN_THRESHOLD :: u32 where "MIN_BEGIN_THRESHOLD = 16"

definition ed_default_capabilities :: dac_capabilities where
  "ed_default_capabilities =
     \<lparr>pps_min = 1, pps_max = 100000, max_points_per_chunk = 1799, output_model_of = NetworkFifo\<rparr>"

definition caps_for :: "u16 \<Rightarrow> u32 \<Rightarrow> dac_capabilities" where
  "caps_for capacity max_rate =
     (let caps = ed_default_capabilities;
          caps = (if 0 < capacity then caps\<lparr>max_points_per_chunk := unat capacity\<rparr> else caps);
          caps = (if 0 < max_rate then caps\<lparr>pps_max := unat max_rate\<rparr> else caps)
      in caps)"

definition dr_default :: dac_rate_estimator where
  "dr_default = \<lparr>dr_inner = st_new, dr_playing_rate = 0\<rparr>"

definition with_address :: "dac_broadcast option \<Rightarrow> ed_backend" where
  "with_address broadcast =
     (let (capacity, max_rate) = (case broadcast of
            Some b \<Rightarrow> (buffer_capacity b, max_point_rate b)
          | None \<Rightarrow> (SYNTHETIC_BUFFER_CAPACITY, SYNTHETIC_MAX_POINT_RATE))
      in \<lparr>eb_broadcast = broadcast, eb_stream = None, eb_caps = caps_for capacity max_rate,
          eb_last_status_received = None, eb_last_point_rate = 0, eb_last_ping_time = None,
          eb_last_estop_attempt = None, eb_estimator = dr_default, eb_firmware_version = None,
          eb_skip_version_query = False\<rparr>)"

subsection \<open>The estimator\<close>

definition dr_record_status :: "instant \<Rightarrow> status \<Rightarrow> dac_rate_estimator \<Rightarrow> dac_rate_estimator" where
  "dr_record_status now status e =
     (let idle = (st_playback status = Idle);
          e = e\<lparr>dr_playing_rate := (if st_playback status = Playing then st_point_rate status else 0),
                dr_inner := set_playing (\<not> idle) (dr_inner e)\<rparr>;
          f = (if idle then 0 else st_buffer_fullness status)
      in e\<lparr>dr_inner := record_status now (unat f) (dr_inner e)\<rparr>)"

definition dr_estimated_fullness :: "dac_rate_estimator \<Rightarrow> instant \<Rightarrow> nat \<Rightarrow> nat" where
  "dr_estimated_fullness e now pps =
     st_read_at (dr_inner e) now (if 0 < dr_playing_rate e then unat (dr_playing_rate e) else pps)"

subsection \<open>Decisions from a status\<close>

definition estopped :: "status \<Rightarrow> bool" where
  "estopped status \<longleftrightarrow> st_light_engine status \<noteq> Ready"

definition nak_command :: "communication_error \<Rightarrow> u8 option" where
  "nak_command err = (case err of
     CommResponse re \<Rightarrow> (case re_kind re of NakKind _ \<Rightarrow> Some (resp_command (re_response re)) | _ \<Rightarrow> None)
   | _ \<Rightarrow> None)"

definition nak_of :: "communication_error \<Rightarrow> nak option" where
  "nak_of err = (case err of
     CommResponse re \<Rightarrow> (case re_kind re of NakKind n \<Rightarrow> Some n | _ \<Rightarrow> None)
   | _ \<Rightarrow> None)"

definition effective_max_rate :: "u32 \<Rightarrow> u32" where
  "effective_max_rate advertised = (if advertised = 0 then SYNTHETIC_MAX_POINT_RATE else advertised)"

definition effective_capacity :: "u16 \<Rightarrow> u16" where
  "effective_capacity advertised = (if advertised = 0 then SYNTHETIC_BUFFER_CAPACITY else advertised)"

text \<open>\<open>Ord::clamp\<close>, which panics when its bounds are out of order.\<close>

definition ord_clamp :: "'a::linorder \<Rightarrow> 'a \<Rightarrow> 'a \<Rightarrow> 'a option" where
  "ord_clamp v lo hi = (if hi < lo then None else Some (if v < lo then lo else if hi < v then hi else v))"

definition clamp_rate :: "u32 \<Rightarrow> u32 \<Rightarrow> u32 option" where
  "clamp_rate pps max_rate = ord_clamp (if pps = 0 then max_rate div 16 else pps) 1 (max max_rate 1)"

definition begin_threshold :: "u32 \<Rightarrow> u16 \<Rightarrow> u16 option" where
  "begin_threshold point_rate capacity =
     (case ord_clamp (ucast capacity div 2) 1 1700 of
        None \<Rightarrow> None
      | Some limit \<Rightarrow> map_option ucast (ord_clamp (point_rate div 100) (min MIN_BEGIN_THRESHOLD limit) limit))"

definition decay_fullness :: "u16 \<Rightarrow> u16 \<Rightarrow> duration option \<Rightarrow> u32 \<Rightarrow> bool \<Rightarrow> u16" where
  "decay_fullness raw capacity elapsed point_rate playing =
     (let raw = min raw capacity
      in if \<not> playing then raw
         else case elapsed of
                Some d \<Rightarrow>
                  let consumed = fmul F64 (as_secs_f64 d) (fof_int F64 (int (unat point_rate)))
                  in of_nat (unat raw - f2nat 16 (fmin consumed (Fin 65535)))
              | None \<Rightarrow> raw)"

definition target_buffer_ceiling :: "ed_backend \<Rightarrow> nat option" where
  "target_buffer_ceiling b =
     (let capacity = (case eb_stream b of
            Some s \<Rightarrow> unat (effective_capacity (dac_buffer_capacity (ad_dac (es_dac s))))
          | None \<Rightarrow> max_points_per_chunk (eb_caps b))
      in Some (capacity * TARGET_CEILING_PERCENT div 100))"

subsection \<open>Effects of the backend\<close>

text \<open>
  An effect on the connected stream; \<open>None\<close> when there is none, which the callers rule out by the
  checks they make first.
\<close>

definition estream :: "(ed_stream \<times> 'w, 'e, 'a) eff \<Rightarrow> (ed_backend \<times> 'w, 'e, 'a) eff" where
  "estream m s = (case eb_stream (fst s) of
     None \<Rightarrow> None
   | Some st \<Rightarrow> (case m (st, snd s) of
       None \<Rightarrow> None
     | Some (r, st', w') \<Rightarrow> Some (r, ((fst s)\<lparr>eb_stream := Some st'\<rparr>, w'))))"

definition on_backend :: "(ed_backend \<Rightarrow> ed_backend) \<Rightarrow> (ed_backend \<times> 'w, 'e, unit) eff" where
  "on_backend f = emod (\<lambda>s. (f (fst s), snd s))"

definition run_queue :: "'w net \<Rightarrow> (ed_stream \<Rightarrow> ed_stream) \<Rightarrow> (ed_backend \<times> 'w, communication_error, unit) eff" where
  "run_queue N queue = estream (ethen (on_stream (queue \<circ> queue_commands)) (submit N))"

definition the_status :: "(ed_backend \<times> 'w, 'e, status) eff" where
  "the_status = estream (eget (\<lambda>s. dac_state (ad_dac (es_dac (fst s)))))"

definition the_dac :: "(ed_backend \<times> 'w, 'e, dac) eff" where
  "the_dac = estream (eget (\<lambda>s. ad_dac (es_dac (fst s))))"

text \<open>The two updates that follow a reply: the receive time, and the estimator at the send time.\<close>

definition note_received :: "(ed_backend \<times> 'w, 'e, unit) eff" where
  "note_received = ebind (estream (eget (es_status_received_at \<circ> fst))) (\<lambda>t.
     on_backend (\<lambda>b. b\<lparr>eb_last_status_received := Some t\<rparr>))"

definition note_estimate :: "(ed_backend \<times> 'w, 'e, unit) eff" where
  "note_estimate = ebind (estream (eget (es_status_sent_at \<circ> fst))) (\<lambda>t.
     ebind the_status (\<lambda>status.
     on_backend (\<lambda>b. b\<lparr>eb_estimator := dr_record_status t status (eb_estimator b)\<rparr>)))"

text \<open>Dropping the stream closes its socket.\<close>

definition drop_stream :: "'w net \<Rightarrow> (ed_backend \<times> 'w, 'e, unit) eff" where
  "drop_stream N = emod (\<lambda>s. case eb_stream (fst s) of
     None \<Rightarrow> s
   | Some st \<Rightarrow> ((fst s)\<lparr>eb_stream := None\<rparr>, net_close N (es_conn st) (snd s)))"

subsection \<open>Connecting and stopping\<close>

definition open_stream :: "'w net \<Rightarrow> (ed_backend \<times> 'w, ed_error, ed_stream) eff" where
  "open_stream N = ebind (eget (eb_broadcast \<circ> fst)) (\<lambda>broadcast.
     emap_err EdBackend (on_world (connect_to N broadcast CONNECT_TIMEOUT)))"

text \<open>The query runs on the stream that is not yet the backend's own.\<close>

definition ed_query :: "'w net \<Rightarrow> ed_stream \<Rightarrow> (ed_backend \<times> 'w, 'e, (communication_error + u8 list option) \<times> ed_stream) eff" where
  "ed_query N st s = (case query_version N (st, snd s) of
     None \<Rightarrow> None | Some (r, st', w') \<Rightarrow> Some (Inr (r, st'), (fst s, w')))"

definition forget_connection :: "ed_backend \<Rightarrow> ed_backend" where
  "forget_connection b = b\<lparr>eb_estimator := dr_default, eb_last_point_rate := 0, eb_last_ping_time := None,
     eb_last_estop_attempt := None, eb_firmware_version := None\<rparr>"

definition learn_version :: "'w net \<Rightarrow> ed_stream \<Rightarrow> (ed_backend \<times> 'w, ed_error, ed_stream) eff" where
  "learn_version N st =
     ebind (ed_query N st) (\<lambda>p. case fst p of
       Inr (Some version) \<Rightarrow> ethen (on_backend (\<lambda>b. b\<lparr>eb_firmware_version := Some version\<rparr>)) (eret (snd p))
     | Inr None \<Rightarrow> ethen (on_backend (\<lambda>b. b\<lparr>eb_skip_version_query := True\<rparr>)) (eret (snd p))
     | Inl e \<Rightarrow>
         ethen (on_backend (\<lambda>b. b\<lparr>eb_skip_version_query := True\<rparr>))
         (ethen (on_world (emod (net_close N (es_conn (snd p))))) (open_stream N)))"

definition adopt_stream :: "'w net \<Rightarrow> ed_stream \<Rightarrow> (ed_backend \<times> 'w, ed_error, unit) eff" where
  "adopt_stream N st =
     (let dac = ad_dac (es_dac st) in
      ethen (on_backend (\<lambda>b. b\<lparr>eb_caps := caps_for (dac_buffer_capacity dac) (dac_max_point_rate dac),
                              eb_last_status_received := Some (es_status_received_at st)\<rparr>))
      (ethen (drop_stream N) (on_backend (\<lambda>b. b\<lparr>eb_stream := Some st\<rparr>))))"

definition ed_connect :: "'w net \<Rightarrow> (ed_backend \<times> 'w, ed_error, unit) eff" where
  "ed_connect N =
     ebind (open_stream N) (\<lambda>st.
     ethen (on_backend forget_connection) (
     ebind (eget (eb_skip_version_query \<circ> fst)) (\<lambda>skip.
     ebind (if skip then eret st else learn_version N st) (adopt_stream N))))"

definition ed_disconnect :: "'w net \<Rightarrow> (ed_backend \<times> 'w, ed_error, unit) eff" where
  "ed_disconnect N =
     ebind (eget (eb_stream \<circ> fst)) (\<lambda>stream.
     ethen (case stream of
              None \<Rightarrow> eret ()
            | Some st \<Rightarrow>
              if st_playback (dac_state (ad_dac (es_dac st))) \<noteq> Idle
              then ebind (etry (run_queue N q_stop)) (\<lambda>_. eret ()) else eret ())
     (drop_stream N))"

definition ed_is_connected :: "ed_backend \<Rightarrow> bool" where
  "ed_is_connected b = (eb_stream b \<noteq> None)"

definition ed_stop :: "'w net \<Rightarrow> (ed_backend \<times> 'w, ed_error, unit) eff" where
  "ed_stop N =
     ebind (eget (eb_stream \<circ> fst)) (\<lambda>stream. case stream of
       None \<Rightarrow> eret ()
     | Some _ \<Rightarrow>
       ebind (etry (run_queue N q_stop)) (\<lambda>r. case r of
         Inr u \<Rightarrow> ethen note_received note_estimate
       | Inl e \<Rightarrow>
         if nak_of e = Some NakInvalid then ethen note_received note_estimate
         else ethen (drop_stream N) (efail (EdBackend e))))"

definition ed_set_shutter :: "bool \<Rightarrow> (ed_backend \<times> 'w, ed_error, unit) eff" where
  "ed_set_shutter open_shutter = eret ()"

subsection \<open>Writing\<close>

text \<open>What a check before the write decides, and how a pass of the loop ends.\<close>

datatype gate = Proceed | Refuse

datatype pass_end = Again | Done | Blocked

definition refuse :: "(ed_backend \<times> 'w, 'e, gate) eff" where
  "refuse = eret Refuse"

definition due :: "instant option \<Rightarrow> instant \<Rightarrow> duration \<Rightarrow> bool" where
  "due prev now interval = (case prev of None \<Rightarrow> True | Some t \<Rightarrow> interval \<le> now - t)"

definition clear_estop :: "'w net \<Rightarrow> (ed_backend \<times> 'w, ed_error, gate) eff" where
  "clear_estop N =
     ebind (on_world (enow N)) (\<lambda>now.
     ebind (eget (eb_last_estop_attempt \<circ> fst)) (\<lambda>prev.
     if \<not> due prev now ESTOP_RETRY_INTERVAL then refuse
     else ethen (on_backend (\<lambda>b. b\<lparr>eb_last_estop_attempt := Some now\<rparr>)) (
       ebind (etry (run_queue N q_clear_emergency_stop)) (\<lambda>r.
       ebind the_status (\<lambda>status.
       ebind (case r of
                Inr u \<Rightarrow> eret Proceed
              | Inl e \<Rightarrow> (case nak_of e of
                  Some NakStopCondition \<Rightarrow> if st_light_engine status = LeEmergencyStop then refuse else eret Proceed
                | _ \<Rightarrow> efail (EdBackend e))) (\<lambda>g.
       if g = Refuse then refuse
       else ethen (emap_err EdBackend (run_queue N q_ping)) (
         ebind the_status (\<lambda>status.
         if st_light_engine status = LeEmergencyStop then refuse
         else ethen note_received (ethen note_estimate (
           if st_light_engine status \<noteq> Ready then refuse else eret Proceed))))))))))"

definition wait_warmup :: "'w net \<Rightarrow> (ed_backend \<times> 'w, ed_error, gate) eff" where
  "wait_warmup N =
     ebind (on_world (enow N)) (\<lambda>now.
     ebind (eget (eb_last_ping_time \<circ> fst)) (\<lambda>prev.
     if due prev now WARMUP_PING_INTERVAL
     then ethen (on_backend (\<lambda>b. b\<lparr>eb_last_ping_time := Some now\<rparr>))
            (ethen (emap_err EdBackend (run_queue N q_ping)) (ethen note_received refuse))
     else refuse))"

definition light_engine_gate :: "'w net \<Rightarrow> (ed_backend \<times> 'w, ed_error, gate) eff" where
  "light_engine_gate N =
     ebind the_status (\<lambda>status. case st_light_engine status of
       LeEmergencyStop \<Rightarrow> clear_estop N
     | Warmup \<Rightarrow> wait_warmup N
     | Cooldown \<Rightarrow> wait_warmup N
     | Ready \<Rightarrow> eret Proceed)"

text \<open>
  (a) the fullness to admit against: \<open>Inr\<close> a fullness, or \<open>Inl\<close> that the DAC refused to prepare.
\<close>

definition prepare_or_decay :: "'w net \<Rightarrow> u16 \<Rightarrow> (ed_backend \<times> 'w, ed_error, u16 option) eff" where
  "prepare_or_decay N capacity =
     ebind the_status (\<lambda>status.
     if st_playback status = Idle
     then ebind (etry (run_queue N q_prepare_stream)) (\<lambda>r. case r of
            Inr u \<Rightarrow> ethen note_received (eret (Some 0))
          | Inl e \<Rightarrow>
            if nak_of e \<noteq> None then ethen note_received (ethen note_estimate (eret None))
            else efail (EdBackend e))
     else
       ebind (eget fst) (\<lambda>b.
       let rate = (if 0 < st_point_rate status then st_point_rate status else eb_last_point_rate b);
           playing = (st_playback status = Playing) in
       ebind (case (playing, eb_last_status_received b) of
                (True, Some t) \<Rightarrow> ebind (on_world (enow N)) (\<lambda>now. eret (Some (now - t)))
              | _ \<Rightarrow> eret None) (\<lambda>elapsed.
       eret (Some (decay_fullness (st_buffer_fullness status) capacity elapsed rate playing)))))"

definition begin_drain :: "'w net \<Rightarrow> u32 \<Rightarrow> (ed_backend \<times> 'w, ed_error, pass_end) eff" where
  "begin_drain N point_rate =
     ebind the_status (\<lambda>status.
     if st_playback status = Prepared \<and> 0 < st_buffer_fullness status
     then ebind (etry (run_queue N (q_begin 0 point_rate))) (\<lambda>r.
          ethen (case r of Inr u \<Rightarrow> eret () | Inl e \<Rightarrow> if nak_of e \<noteq> None then eret () else efail (EdBackend e))
          (ethen note_received
          (ethen (on_backend (\<lambda>b. b\<lparr>eb_last_point_rate := point_rate\<rparr>))
          (ethen note_estimate (eret Blocked)))))
     else eret Blocked)"

definition send_points :: "'w net \<Rightarrow> u32 \<Rightarrow> laser_point list \<Rightarrow> (ed_backend \<times> 'w, 'e, communication_error + unit) eff" where
  "send_points N point_rate points =
     ebind the_status (\<lambda>status.
     if st_playback status = Playing \<and> st_point_rate status \<noteq> point_rate
     then etry (run_queue N (q_update 0 point_rate \<circ> q_data (map dac_point_from points)))
     else etry (run_queue N (q_data (map dac_point_from points))))"

definition refused_data :: "bool \<Rightarrow> communication_error \<Rightarrow> (ed_backend \<times> 'w, ed_error, pass_end) eff" where
  "refused_data retried e =
     ebind the_status (\<lambda>status.
     case nak_of e of
       Some NakStopCondition \<Rightarrow>
         if estopped status then ethen note_received (ethen note_estimate (eret Blocked)) else efail (EdBackend e)
     | Some _ \<Rightarrow>
         ethen note_received
         (if st_playback status = Idle \<and> \<not> retried then eret Again
          else ethen note_estimate (eret Blocked))
     | None \<Rightarrow> efail (EdBackend e))"

definition begin_if_ready :: "'w net \<Rightarrow> u32 \<Rightarrow> u16 \<Rightarrow> bool \<Rightarrow> (ed_backend \<times> 'w, ed_error, pass_end) eff" where
  "begin_if_ready N point_rate threshold retried =
     ebind the_status (\<lambda>status.
     if st_playback status = Idle \<and> \<not> retried then eret Again
     else if st_playback status = Prepared \<and> threshold \<le> st_buffer_fullness status
     then ebind (etry (run_queue N (q_begin 0 point_rate))) (\<lambda>r.
          ebind the_status (\<lambda>status.
          ethen (case r of
                   Inr u \<Rightarrow> eret ()
                 | Inl e \<Rightarrow>
                   if nak_of e = Some NakInvalid then eret ()
                   else if nak_of e = Some NakStopCondition \<and> estopped status then eret ()
                   else efail (EdBackend e))
          (if st_playback status = Idle \<and> \<not> retried then eret Again else eret Done)))
     else eret Done)"

definition write_pass :: "'w net \<Rightarrow> u32 \<Rightarrow> u16 \<Rightarrow> u16 \<Rightarrow> laser_point list \<Rightarrow> bool \<Rightarrow> (ed_backend \<times> 'w, ed_error, pass_end) eff" where
  "write_pass N point_rate capacity threshold points retried =
     ebind (prepare_or_decay N capacity) (\<lambda>f. case f of
       None \<Rightarrow> eret Blocked
     | Some fullness \<Rightarrow>
       if unat capacity - unat fullness < length points then begin_drain N point_rate
       else ebind (send_points N point_rate points) (\<lambda>r. case r of
              Inr u \<Rightarrow> begin_if_ready N point_rate threshold retried
            | Inl e \<Rightarrow>
              if nak_command e = Some (start_byte (Update 0 0)) then begin_if_ready N point_rate threshold retried
              else refused_data retried e))"

text \<open>
  The loop: a pass ends in \<open>Again\<close> only when \<open>retried\<close> was false, and sets it, so there are at most
  two passes.
\<close>

definition write_loop :: "'w net \<Rightarrow> u32 \<Rightarrow> u16 \<Rightarrow> u16 \<Rightarrow> laser_point list \<Rightarrow> (ed_backend \<times> 'w, ed_error, pass_end) eff" where
  "write_loop N point_rate capacity threshold points =
     ebind (write_pass N point_rate capacity threshold points False) (\<lambda>p.
     if p = Again then write_pass N point_rate capacity threshold points True else eret p)"

definition write_points :: "'w net \<Rightarrow> u32 \<Rightarrow> laser_point list \<Rightarrow> (ed_backend \<times> 'w, ed_error, write_outcome) eff" where
  "write_points N pps points =
     ebind (eget (eb_stream \<circ> fst)) (\<lambda>stream.
     if stream = None then efail (EdDisconnected ''Not connected'')
     else if points = [] then eret WouldBlock
     else ebind (light_engine_gate N) (\<lambda>g.
       if g = Refuse then eret WouldBlock
       else ebind the_dac (\<lambda>dac.
         let capacity = effective_capacity (dac_buffer_capacity dac) in
         case clamp_rate pps (effective_max_rate (dac_max_point_rate dac)) of
           None \<Rightarrow> epanic
         | Some point_rate \<Rightarrow> (case begin_threshold point_rate capacity of
             None \<Rightarrow> epanic
           | Some threshold \<Rightarrow>
             ebind (on_world (enow N)) (\<lambda>write_start.
             ebind (write_loop N point_rate capacity threshold points) (\<lambda>p.
             if p = Done
             then ethen note_received (ethen (on_backend (\<lambda>b. b\<lparr>eb_last_point_rate := point_rate\<rparr>))
                    (ethen note_estimate (eret Written)))
             else eret WouldBlock))))))"

definition try_write_points :: "'w net \<Rightarrow> u32 \<Rightarrow> laser_point list \<Rightarrow> (ed_backend \<times> 'w, ed_error, write_outcome) eff" where
  "try_write_points N pps points =
     ebind (etry (write_points N pps points)) (\<lambda>r. case r of
       Inr outcome \<Rightarrow> eret outcome
     | Inl e \<Rightarrow> ethen (drop_stream N) (efail e))"

end
