(* ===== verification/Ether_Dream_Safety.thy ===== *)
theory Ether_Dream_Safety
  imports Ether_Dream_Backend
begin

text \<open>
  What the Ether Dream backend may put on the wire. A rate of zero hangs the firmware and a rate
  above the advertised maximum desynchronises it, so the stream refuses to send either. The
  locale \<open>safe_net\<close> is a network with an invariant that only such a command could break; every
  operation of the backend keeps that invariant.
\<close>

fun command_rate :: "ed_command \<Rightarrow> u32 option" where
  "command_rate (Begin _ rate) = Some rate"
| "command_rate (Update _ rate) = Some rate"
| "command_rate (PointRate rate) = Some rate"
| "command_rate _ = None"

definition command_safe :: "u32 \<Rightarrow> ed_command \<Rightarrow> bool" where
  "command_safe max_rate c \<longleftrightarrow> (\<forall>rate. command_rate c = Some rate \<longrightarrow> \<not> unsafe_rate max_rate rate)"

lemma wire_command_rate: "wire_command points q = Some c \<Longrightarrow> command_rate c = qc_point_rate q"
  by (cases q) (auto split: if_splits)

lemma find_unsafe_None:
  "find (unsafe_rate max_rate) (List.map_filter qc_point_rate qs) = None \<Longrightarrow> q \<in> set qs \<Longrightarrow>
     wire_command points q = Some c \<Longrightarrow> command_safe max_rate c"
  by (induction qs) (auto simp: command_safe_def wire_command_rate List.map_filter_def split: if_splits)

text \<open>The rates the backend chooses are within the advertised limits, and its clamps do not panic.\<close>

lemma clamp_rate_bounds:
  "\<exists>rate. clamp_rate pps (effective_max_rate advertised) = Some rate \<and> 0 < rate \<and>
     rate \<le> effective_max_rate advertised \<and> \<not> unsafe_rate advertised rate"
proof -
  let ?m = "effective_max_rate advertised"
  have m: "0 < ?m" by (simp add: effective_max_rate_def SYNTHETIC_MAX_POINT_RATE_def word_gt_0)
  then have m1: "1 \<le> ?m" by (simp add: word_le_nat_alt word_less_nat_alt Suc_le_eq)
  then have mx: "max ?m 1 = ?m" by simp
  define v where "v = (if pps = 0 then ?m div 16 else pps)"
  define rate where "rate = (if v < 1 then 1 else if ?m < v then ?m else v)"
  have "clamp_rate pps ?m = Some rate" using m1 unfolding clamp_rate_def mx ord_clamp_def rate_def v_def by auto
  moreover have r: "0 < rate" "rate \<le> ?m"
    using m m1 by (auto simp: rate_def not_less word_less_1 word_gt_0)
  moreover have "\<not> unsafe_rate advertised rate"
    using r by (auto simp: unsafe_rate_def effective_max_rate_def word_gt_0 split: if_splits)
  ultimately show ?thesis by blast
qed

lemma begin_threshold_bounds:
  "\<exists>t. begin_threshold rate capacity = Some t \<and> 1 \<le> t \<and> (2 \<le> capacity \<longrightarrow> t \<le> capacity div 2) \<and> unat t \<le> 1700"
proof -
  let ?h = "ucast capacity div 2 :: u32"
  define limit :: u32 where "limit = (if ?h < 1 then 1 else if 1700 < ?h then 1700 else ?h)"
  have c: "ord_clamp ?h 1 1700 = Some limit" by (simp add: ord_clamp_def limit_def)
  have l: "1 \<le> limit" "limit \<le> 1700" by (auto simp: limit_def not_less word_less_1 simp flip: linorder_not_less)
  define t where "t = (if rate div 100 < min MIN_BEGIN_THRESHOLD limit then min MIN_BEGIN_THRESHOLD limit
     else if limit < rate div 100 then limit else rate div 100)"
  have "ord_clamp (rate div 100) (min MIN_BEGIN_THRESHOLD limit) limit = Some t"
    by (simp add: ord_clamp_def t_def not_less min_less_iff_disj)
  then have b: "begin_threshold rate capacity = Some (ucast t)" by (simp add: begin_threshold_def c)
  have t: "1 \<le> t" "t \<le> limit" using l by (auto simp: t_def MIN_BEGIN_THRESHOLD_def not_less min_def intro: order_trans [of 1 16])
  have tn: "1 \<le> unat t" "unat t \<le> 1700" "unat t \<le> unat limit"
    using t l by (simp_all add: word_le_nat_alt) 
  have u: "unat (ucast t :: u16) = unat t" using tn(2) by (simp add: unsigned_ucast_eq take_bit_nat_eq_self)
  have "unat capacity < 65536" using unsigned_less [of capacity] by simp
  then have h: "unat ?h = unat capacity div 2" by (simp add: unat_div unsigned_ucast_eq take_bit_nat_eq_self)
  have "unat t \<le> unat capacity div 2" if "2 \<le> capacity"
  proof -
    have "2 \<le> unat capacity" using that by (simp add: word_le_nat_alt)
    then have "1 \<le> unat ?h" unfolding h by linarith
    then have "limit \<le> ?h" by (auto simp: limit_def not_less word_le_nat_alt word_less_nat_alt)
    then show ?thesis using tn(3) h by (simp add: word_le_nat_alt)
  qed
  then show ?thesis using b u tn by (simp add: word_le_nat_alt unat_div)
qed

text \<open>Reading keeps what its reads and clock readings keep.\<close>

lemma read_loop_preserves:
  assumes step: "\<And>w k. Q w \<Longrightarrow> Q (snd (net_read N h k w))" "\<And>w. Q w \<Longrightarrow> Q (snd (net_now N w))"
    and run: "read_loop N h start budget n buf w = Some (r, w')" and "Q w"
  shows "Q w'"
proof -
  define P where "P N' h' start budget n buf w y \<longleftrightarrow> (N' = N \<and> h' = h \<longrightarrow> Q w \<longrightarrow> Q (snd y))"
    for N' h' and start budget n :: nat and buf :: "u8 list" and w and y :: "(io_error + u8 list) \<times> 'a"
  have "P N h start budget n buf w (r, w')"
  proof (rule read_loop.raw_induct [where P = P, OF _ run])
    fix rl N' h' start budget n buf w y
    assume IH: "\<And>N' h' start budget n buf w y. rl N' h' start budget n buf w = Some y \<Longrightarrow> P N' h' start budget n buf w y"
      and body: "(if n \<le> length buf then Some (Inr buf, w)
        else case net_read N' h' (n - length buf) w of
          (Inl e, w') \<Rightarrow> if e = Interrupted then rl N' h' start budget n buf w'
            else if e = IoWouldBlock \<or> e = TimedOut
            then case net_now N' w' of (t, w'') \<Rightarrow> if budget \<le> t - start then Some (Inl TimedOut, w'') else rl N' h' start budget n buf w''
            else Some (Inl e, w')
        | (Inr bs, w') \<Rightarrow> if bs = [] then Some (Inl UnexpectedEof, w') else rl N' h' start budget n (buf @ bs) w') = Some y"
    show "P N' h' start budget n buf w y"
      unfolding P_def
    proof (intro impI)
      assume e: "N' = N \<and> h' = h" and "Q w"
      obtain x w1 where x: "net_read N h (n - length buf) w = (x, w1)" by fastforce
      have w1: "Q w1" using step(1) [OF \<open>Q w\<close>, of "n - length buf"] x by simp
      obtain t w2 where t: "net_now N w1 = (t, w2)" by fastforce
      have w2: "Q w2" using step(2) [OF w1] t by simp
      have IH': "rl N h start budget n buf' w' = Some y \<Longrightarrow> Q w' \<Longrightarrow> Q (snd y)" for buf' w'
        using IH [of N h start budget n buf' w' y] by (simp add: P_def)
      show "Q (snd y)" using body x t w1 w2 \<open>Q w\<close> e by (auto split: if_splits sum.splits intro: IH' step(1))
    qed
  qed
  then show ?thesis using \<open>Q w\<close> by (simp add: P_def)
qed

subsection \<open>The contract of a network that unsafe commands could break\<close>

locale safe_net =
  fixes N :: "'w net" and ok :: "'w \<Rightarrow> bool" and max_rate :: u32
  assumes now_ok: "ok w \<Longrightarrow> ok (snd (net_now N w))"
    and open_ok: "ok w \<Longrightarrow> ok (snd (net_open N d w))"
    and options_ok: "ok w \<Longrightarrow> ok (snd (net_set_nodelay N h b w))" "ok w \<Longrightarrow> ok (snd (net_set_read_timeout N h t w))"
      "ok w \<Longrightarrow> ok (snd (net_set_write_timeout N h t w))" "ok w \<Longrightarrow> ok (snd (net_try_clone N h w))"
    and write_ok: "ok w \<Longrightarrow> command_safe max_rate c \<Longrightarrow> write_command c = Inr bytes \<Longrightarrow> ok (snd (net_write N h bytes w))"
    and read_ok: "ok w \<Longrightarrow> ok (snd (net_read N h n w))"
    and close_ok: "ok w \<Longrightarrow> ok (net_close N h w)"
begin

definition stream_ok :: "ed_stream \<times> 'w \<Rightarrow> bool" where
  "stream_ok s \<longleftrightarrow> dac_max_point_rate (ad_dac (es_dac (fst s))) = max_rate \<and> ok (snd s)"

definition dac_ok :: "addressed \<times> 'w \<Rightarrow> bool" where
  "dac_ok s \<longleftrightarrow> dac_max_point_rate (ad_dac (fst s)) = max_rate \<and> ok (snd s)"

definition backend_ok :: "ed_backend \<times> 'w \<Rightarrow> bool" where
  "backend_ok s \<longleftrightarrow>
     max_point_rate (case eb_broadcast (fst s) of Some b \<Rightarrow> b | None \<Rightarrow> synthetic_broadcast) = max_rate \<and>
     (\<forall>st. eb_stream (fst s) = Some st \<longrightarrow> dac_max_point_rate (ad_dac (es_dac st)) = max_rate) \<and> ok (snd s)"

lemma eio_keeps: "(\<And>w. ok w \<Longrightarrow> ok (snd (f w))) \<Longrightarrow> keeps ok (eio f)"
  unfolding keeps_def eio_def by (metis option.inject snd_conv)

lemma enow_keeps: "keeps ok (enow N)"
proof -
  have "ok w'" if "ok w" "enow N w = Some (r, w')" for w r w'
    using that now_ok [OF that(1)] by (cases "net_now N w") (simp add: enow_def)
  then show ?thesis unfolding keeps_def by blast
qed

lemma read_exact_keeps: "keeps ok (read_exact_with_budget N h n budget)"
  unfolding read_exact_with_budget_def
proof (rule keeps_ebind [OF enow_keeps])
  show "keeps ok (read_loop N h start budget n [])" for start
    unfolding keeps_def using read_loop_preserves [of ok N h] read_ok now_ok by blast
qed


lemma on_world_keeps: "keeps ok m \<Longrightarrow> keeps dac_ok (on_world m)" "keeps ok m' \<Longrightarrow> keeps stream_ok (on_world m')"
  "keeps ok m'' \<Longrightarrow> keeps backend_ok (on_world m'')"
  unfolding on_world_def by (erule keeps_ezoom; simp add: dac_ok_def stream_ok_def backend_ok_def)+

lemma addressed_update_max: "dac_max_point_rate (ad_dac (snd (addressed_update st a))) = dac_max_point_rate (ad_dac a)"
  by (simp add: addressed_update_def update_status_def split: prod.split sum.split)

lemma edac_update_keeps: "keeps dac_ok (edac (addressed_update st))"
  unfolding keeps_def edac_def dac_ok_def
  by (auto split: prod.splits) (metis addressed_update_max snd_conv)

lemma recv_retry_keeps: "keeps dac_ok (recv_retry N h expected k)"
  by (induction k) (auto simp: Let_def intro!: keeps_intros on_world_keeps edac_update_keeps read_exact_keeps)

lemma recv_buffered_keeps: "keeps dac_ok (recv_response_buffered N h expected)"
  unfolding recv_response_buffered_def by (rule recv_retry_keeps)

lemma send_command_keeps: "command_safe max_rate c \<Longrightarrow> keeps ok (send_command N h c)"
  unfolding send_command_def by (auto intro!: keeps_intros eio_keeps intro: write_ok)

lemma stream_send_keeps: "command_safe max_rate c \<Longrightarrow> keeps stream_ok (stream_send N c)"
  unfolding stream_send_def by (intro keeps_intros on_world_keeps send_command_keeps)

lemma dac_zoom_keeps:
  "keeps dac_ok m \<Longrightarrow> keeps stream_ok (ezoom (\<lambda>s. (es_dac (fst s), snd s)) (\<lambda>d s. ((fst s)\<lparr>es_dac := fst d\<rparr>, snd d)) m)"
  by (erule keeps_ezoom) (simp_all add: dac_ok_def stream_ok_def)

lemma recv_response_keeps: "keeps stream_ok (recv_response N expected)"
  unfolding recv_response_def by (intro keeps_intros dac_zoom_keeps recv_buffered_keeps)

lemma on_stream_keeps: "(\<And>s. es_dac (f s) = es_dac s) \<Longrightarrow> keeps stream_ok (on_stream f)"
  unfolding on_stream_def by (intro keeps_intros) (simp add: stream_ok_def)

lemma stamp_keeps: "keeps stream_ok (on_stream (stamp_status t u))"
  by (rule on_stream_keeps) (simp add: stamp_status_def)

lemma send_all_keeps:
  "(\<And>q points c. q \<in> set qs \<Longrightarrow> wire_command points q = Some c \<Longrightarrow> command_safe max_rate c) \<Longrightarrow> keeps stream_ok (send_all N qs)"
proof (induction qs)
  case (Cons q qs)
  have "keeps stream_ok (send_all N qs)" by (rule Cons.IH) (rule Cons.prems, simp_all)
  with Cons.prems [of q] show ?case
    by (auto intro!: keeps_intros on_world_keeps enow_keeps intro: stream_send_keeps)
qed (simp add: keeps_pure)

lemma recv_all_keeps: "keeps stream_ok (recv_all N ps f)"
  by (induction ps arbitrary: f)
     (auto intro!: keeps_intros on_world_keeps enow_keeps recv_response_keeps stamp_keeps split: option.split)

text \<open>Submitting sends a command only if none of the queued ones carries an unsafe rate.\<close>

lemma submit_keeps: "keeps stream_ok (submit N)"
  unfolding submit_def Let_def
proof (rule keeps_eget_bind)
  fix s assume s: "stream_ok s"
  have "keeps stream_ok (send_all N (es_command_buffer (fst s)))"
    if "find (unsafe_rate (dac_max_point_rate (ad_dac (es_dac (fst s))))) (List.map_filter qc_point_rate (es_command_buffer (fst s))) = None"
  proof (rule send_all_keeps)
    show "command_safe max_rate c" if "q \<in> set (es_command_buffer (fst s))" "wire_command points q = Some c" for q points c
      using find_unsafe_None [OF \<open>find _ _ = None\<close> that] s by (simp add: stream_ok_def)
  qed
  then show "keeps stream_ok (case find (unsafe_rate (dac_max_point_rate (ad_dac (es_dac (fst s))))) (List.map_filter qc_point_rate (es_command_buffer (fst s))) of
      None \<Rightarrow> ethen (on_stream (es_command_buffer_update (\<lambda>_. []))) (ebind (send_all N (es_command_buffer (fst s))) (\<lambda>sent. recv_all N sent None))
    | Some rate \<Rightarrow> ethen (on_stream queue_commands) (efail (CommIo InvalidInput)))"
    by (auto intro!: keeps_intros on_stream_keeps recv_all_keeps simp: queue_commands_def split: option.split)
qed

lemma query_keeps: "keeps stream_ok (query_version N)"
  unfolding query_version_def
  by (intro keeps_intros on_world_keeps enow_keeps stream_send_keeps read_exact_keeps dac_zoom_keeps edac_update_keeps stamp_keeps)
     (simp_all add: command_safe_def)


subsubsection \<open>The backend\<close>

lemma estream_keeps: "keeps stream_ok m \<Longrightarrow> keeps backend_ok (estream m)"
proof -
  assume m: "keeps stream_ok m"
  have "backend_ok t'" if t: "backend_ok t" and run: "estream m t = Some (r, t')" for t r t'
  proof -
    obtain st where st: "eb_stream (fst t) = Some st" using run by (auto simp: estream_def split: option.splits)
    then obtain st' w' where x: "m (st, snd t) = Some (r, st', w')" "t' = ((fst t)\<lparr>eb_stream := Some st'\<rparr>, w')"
      using run by (auto simp: estream_def split: option.splits)
    have "stream_ok (st, snd t)" using t st by (simp add: backend_ok_def stream_ok_def)
    from keepsD [OF m this x(1)] t show ?thesis by (simp add: x(2) backend_ok_def stream_ok_def)
  qed
  then show ?thesis unfolding keeps_def by blast
qed

lemma on_backend_keeps:
  "(\<And>b. eb_broadcast (f b) = eb_broadcast b) \<Longrightarrow> (\<And>b. eb_stream (f b) = eb_stream b) \<Longrightarrow> keeps backend_ok (on_backend f)"
  unfolding on_backend_def by (intro keeps_intros) (simp add: backend_ok_def)

lemma push_dac: "es_dac (push_command q s) = es_dac s"
  by (simp add: push_command_def)

lemmas queue_defs = q_stop_def q_ping_def q_prepare_stream_def q_clear_emergency_stop_def q_begin_def q_update_def q_data_def
  queue_commands_def push_dac

lemma run_queue_keeps: "(\<And>s. es_dac (queue s) = es_dac s) \<Longrightarrow> keeps backend_ok (run_queue N queue)"
  unfolding run_queue_def by (intro estream_keeps keeps_intros on_stream_keeps submit_keeps) (simp add: queue_commands_def)

lemma queues_keep [keeps_intros]:
  "keeps backend_ok (run_queue N q_stop)" "keeps backend_ok (run_queue N q_ping)" "keeps backend_ok (run_queue N q_prepare_stream)"
  "keeps backend_ok (run_queue N q_clear_emergency_stop)" "keeps backend_ok (run_queue N (q_begin lwm rate))"
  "keeps backend_ok (run_queue N (q_data ps))" "keeps backend_ok (run_queue N (q_update lwm rate \<circ> q_data ps))"
  by (rule run_queue_keeps, simp add: queue_defs Let_def)+

lemma reads_keep [keeps_intros]: "keeps backend_ok the_status" "keeps backend_ok the_dac" "keeps backend_ok (on_world (enow N))"
  "keeps backend_ok (estream (eget g))"
  unfolding the_status_def the_dac_def by (intro estream_keeps keeps_intros on_world_keeps enow_keeps)+

lemma notes_keep [keeps_intros]: "keeps backend_ok note_received" "keeps backend_ok note_estimate"
  unfolding note_received_def note_estimate_def by (intro keeps_intros on_backend_keeps; simp)+

lemma drop_stream_keeps [keeps_intros]: "keeps backend_ok (drop_stream N)"
  unfolding drop_stream_def by (intro keeps_intros) (auto simp: backend_ok_def close_ok split: option.split)

lemma gates_keep [keeps_intros]: "keeps backend_ok refuse" "keeps backend_ok (clear_estop N)" "keeps backend_ok (wait_warmup N)"
proof -
  show r: "keeps backend_ok refuse" by (simp add: refuse_def keeps_pure)
  show "keeps backend_ok (wait_warmup N)" unfolding wait_warmup_def
    by (intro keeps_intros on_backend_keeps r; simp)
  show "keeps backend_ok (clear_estop N)" unfolding clear_estop_def
    by (intro keeps_intros on_backend_keeps r; auto intro!: keeps_intros r split: option.split nak.split)
qed

lemma light_engine_gate_keeps: "keeps backend_ok (light_engine_gate N)"
  unfolding light_engine_gate_def by (intro keeps_intros) (auto intro!: keeps_intros split: light_engine.split)

lemma pass_parts_keep:
  "keeps backend_ok (prepare_or_decay N capacity)" "keeps backend_ok (begin_drain N rate)"
  "keeps backend_ok (send_points N rate ps)" "keeps backend_ok (refused_data retried e)"
  "keeps backend_ok (begin_if_ready N rate threshold retried)"
proof -
  show "keeps backend_ok (prepare_or_decay N capacity)" unfolding prepare_or_decay_def Let_def
    by (intro keeps_intros; auto intro!: keeps_intros split: option.split bool.split)
  show "keeps backend_ok (begin_drain N rate)" unfolding begin_drain_def
    by (intro keeps_intros on_backend_keeps; simp)
  show "keeps backend_ok (send_points N rate ps)" unfolding send_points_def by (intro keeps_intros)
  show "keeps backend_ok (refused_data retried e)" unfolding refused_data_def
    by (intro keeps_intros; auto intro!: keeps_intros split: nak.split)
  show "keeps backend_ok (begin_if_ready N rate threshold retried)" unfolding begin_if_ready_def by (intro keeps_intros)
qed

lemma write_pass_keeps: "keeps backend_ok (write_pass N rate capacity threshold ps retried)"
  unfolding write_pass_def by (intro keeps_intros pass_parts_keep)

lemma try_write_keeps: "keeps backend_ok (try_write_points N pps ps)"
  unfolding try_write_points_def write_points_def write_loop_def Let_def
  by (intro keeps_intros light_engine_gate_keeps write_pass_keeps on_backend_keeps; simp)

lemma stop_keeps: "keeps backend_ok (ed_stop N)"
  unfolding ed_stop_def by (intro keeps_intros)

lemma disconnect_keeps: "keeps backend_ok (ed_disconnect N)"
  unfolding ed_disconnect_def by (intro keeps_intros)


subsubsection \<open>Connecting\<close>

definition max_ok :: "ed_stream \<Rightarrow> bool" where
  "max_ok st \<longleftrightarrow> dac_max_point_rate (ad_dac (es_dac st)) = max_rate"

lemma elocal_yields:
  assumes m: "keeps dac_ok m" and d: "dac_max_point_rate (ad_dac d) = max_rate"
  shows "yields ok (elocal d m) (\<lambda>d. dac_max_point_rate (ad_dac d) = max_rate)"
proof (rule yieldsI)
  fix w r w' assume w: "ok w" and run: "elocal d m w = Some (r, w')"
  obtain x d' where x: "m (d, w) = Some (x, d', w')" "\<And>a. r = Inr a \<Longrightarrow> a = d'"
    using run by (auto simp: elocal_def split: option.splits sum.splits)
  have "dac_ok (d, w)" using d w by (simp add: dac_ok_def)
  from keepsD [OF m this x(1)] show "ok w' \<and> (\<forall>a. r = Inr a \<longrightarrow> dac_max_point_rate (ad_dac a) = max_rate)"
    using x(2) by (auto simp: dac_ok_def)
qed

lemma closing_yields:
  assumes m: "yields ok m Q"
  shows "yields ok (closing N h m) Q"
proof (rule yieldsI)
  fix w r w' assume w: "ok w" and run: "closing N h m w = Some (r, w')"
  obtain x w1 where x: "m w = Some (x, w1)" using run by (cases "m w") (auto simp: closing_def ebind_def etry_def)
  from yieldsD [OF m w x] show "ok w' \<and> (\<forall>a. r = Inr a \<longrightarrow> Q a)" using run x close_ok
    by (cases x) (auto simp: closing_def eff_defs)
qed

lemma connect_inner_yields:
  assumes "max_point_rate broadcast = max_rate"
  shows "yields ok (connect_inner N broadcast timeout) max_ok"
proof (cases "from_broadcast broadcast")
  case (Inl e)
  then show ?thesis by (simp add: connect_inner_def yields_pure)
next
  case (Inr dac)
  then have d: "dac_max_point_rate (ad_dac dac) = max_rate" using assms by (auto simp: from_broadcast_def split: sum.splits)
  have c: "keeps ok (emap_err CommIo (configure_socket N h))" for h
    unfolding configure_socket_def by (intro keeps_intros eio_keeps options_ok)
  have o: "keeps ok (emap_err CommIo (eio (net_open N timeout)))" by (intro keeps_intros eio_keeps open_ok)
  have tail: "yields ok (ebind (enow N) (\<lambda>t. eret \<lparr>es_dac = d', es_conn = h, es_command_buffer = [], es_point_buffer = [],
      es_status_sent_at = u, es_status_received_at = t\<rparr>)) max_ok" if "dac_max_point_rate (ad_dac d') = max_rate" for d' h u
    by (rule yields_ebind [OF keeps_yields [OF enow_keeps]]) (simp add: yields_pure max_ok_def that)
  show ?thesis unfolding connect_inner_def Inr sum.case
    by (rule yields_ebind [OF keeps_yields [OF enow_keeps]], rule yields_ebind [OF keeps_yields [OF o]], rule closing_yields,
        rule yields_ethen [OF c], rule yields_ebind [OF elocal_yields [OF recv_buffered_keeps d]], rule tail)
qed

lemma open_stream_yields: "yields backend_ok (open_stream N) max_ok"
  unfolding open_stream_def
proof (rule yields_eget_bind)
  fix s assume s: "backend_ok s"
  have "yields ok (connect_to N (eb_broadcast (fst s)) CONNECT_TIMEOUT) max_ok"
    unfolding connect_to_def by (rule connect_inner_yields) (use s in \<open>simp add: backend_ok_def\<close>)
  then show "yields backend_ok (emap_err EdBackend (on_world (connect_to N ((eb_broadcast \<circ> fst) s) CONNECT_TIMEOUT))) max_ok"
    unfolding on_world_def comp_def by (intro yields_emap_err yields_ezoom) (simp_all add: backend_ok_def)
qed

lemma ed_query_yields:
  assumes st: "max_ok st"
  shows "yields backend_ok (ed_query N st) (\<lambda>p. max_ok (snd p))"
proof (rule yieldsI)
  fix s r s' assume s: "backend_ok s" and run: "ed_query N st s = Some (r, s')"
  then obtain x st' w' where x: "query_version N (st, snd s) = Some (x, st', w')" "r = Inr (x, st')" "s' = (fst s, w')"
    by (auto simp: ed_query_def split: option.splits)
  have "stream_ok (st, snd s)" using s st by (simp add: stream_ok_def backend_ok_def max_ok_def)
  from keepsD [OF query_keeps this x(1)] show "backend_ok s' \<and> (\<forall>p. r = Inr p \<longrightarrow> max_ok (snd p))"
    using s x by (simp add: stream_ok_def backend_ok_def max_ok_def)
qed

lemma learn_version_yields: "max_ok st \<Longrightarrow> yields backend_ok (learn_version N st) max_ok"
  unfolding learn_version_def
proof (rule yields_ebind [OF ed_query_yields])
  fix p :: "(communication_error + u8 list option) \<times> ed_stream" assume p: "max_ok (snd p)"
  have c: "keeps backend_ok (on_world (emod (net_close N h)))" for h by (intro on_world_keeps keeps_intros close_ok)
  have b: "keeps backend_ok (on_backend (\<lambda>b. b\<lparr>eb_skip_version_query := True\<rparr>))"
    "keeps backend_ok (on_backend (\<lambda>b. b\<lparr>eb_firmware_version := v\<rparr>))" for v
    by (rule on_backend_keeps; simp)+
  show "yields backend_ok (case fst p of
       Inr (Some version) \<Rightarrow> ethen (on_backend (\<lambda>b. b\<lparr>eb_firmware_version := Some version\<rparr>)) (eret (snd p))
     | Inr None \<Rightarrow> ethen (on_backend (\<lambda>b. b\<lparr>eb_skip_version_query := True\<rparr>)) (eret (snd p))
     | Inl e \<Rightarrow> ethen (on_backend (\<lambda>b. b\<lparr>eb_skip_version_query := True\<rparr>))
         (ethen (on_world (emod (net_close N (es_conn (snd p))))) (open_stream N))) max_ok"
    using p by (auto intro!: yields_ethen b c yields_pure open_stream_yields split: sum.split option.split)
qed

lemma adopt_stream_keeps: "max_ok st \<Longrightarrow> keeps backend_ok (adopt_stream N st)"
proof -
  assume st: "max_ok st"
  have s: "keeps backend_ok (on_backend (\<lambda>b. b\<lparr>eb_stream := Some st\<rparr>))"
    unfolding on_backend_def using st by (intro keeps_intros) (simp add: backend_ok_def max_ok_def)
  show ?thesis unfolding adopt_stream_def Let_def
    by (rule keeps_ethen [OF on_backend_keeps keeps_ethen [OF drop_stream_keeps s]]) simp_all
qed

lemma connect_keeps: "keeps backend_ok (ed_connect N)"
  unfolding ed_connect_def
proof (rule keeps_bind_yields [OF open_stream_yields], intro keeps_ethen)
  show "keeps backend_ok (on_backend forget_connection)" by (rule on_backend_keeps; simp add: forget_connection_def)
  fix st assume st: "max_ok st"
  show "keeps backend_ok (ebind (eget (eb_skip_version_query \<circ> fst)) (\<lambda>skip.
      ebind (if skip then eret st else learn_version N st) (adopt_stream N)))"
    by (rule keeps_ebind [OF keeps_pure(4)], rule keeps_bind_yields [where R = max_ok, OF yields_if])
       (use st in \<open>simp_all add: yields_pure learn_version_yields adopt_stream_keeps\<close>)
qed

end

end
