(* ===== verification/Ether_Dream_Loopback.thy ===== *)
theory Ether_Dream_Loopback
  imports Ether_Dream_Server Ether_Dream_Safety
begin

text \<open>
  The Ether Dream backend connected to the simulated DAC: an instance of the network parameter in
  which the sockets lead to the server of \<open>Ether_Dream_Server\<close>. Whatever the backend writes arrives
  in reads of at most 8192 bytes; a read that finds nothing waits out the read timeout. The list
  \<open>lw_jitter\<close> is the time that passes before each operation of the host, so it stands for every
  scheduling of the host and every latency of the network.
\<close>

subsection \<open>The network\<close>

record lworld =
  lw_shared :: shared
  lw_conns :: "nat \<Rightarrow> conn option"
  lw_next :: nat
  lw_jitter :: "duration list"

definition lw_start :: "sim_server_config \<Rightarrow> duration list \<Rightarrow> lworld" where
  "lw_start config jitter = \<lparr>lw_shared = server_start config, lw_conns = (\<lambda>_. None), lw_next = 0, lw_jitter = jitter\<rparr>"

definition tick :: "lworld \<Rightarrow> lworld" where
  "tick w = (case lw_jitter w of [] \<Rightarrow> w | d # ds \<Rightarrow> w\<lparr>lw_shared := sleep d (lw_shared w), lw_jitter := ds\<rparr>)"

function segments :: "u8 list \<Rightarrow> u8 list list" where
  "segments bytes = (if bytes = [] then [] else take 8192 bytes # segments (drop 8192 bytes))"
  by pat_completeness auto
termination by (relation "measure length") auto

declare segments.simps [simp del]

fun deliver :: "u8 list list \<Rightarrow> shared \<Rightarrow> conn \<Rightarrow> shared \<times> conn" where
  "deliver [] sh c = (sh, c)"
| "deliver (b # bs) sh c = (if \<not> cn_open c then (sh, c) else case receive b sh c of (sh, c) \<Rightarrow> deliver bs sh c)"

definition lb_now :: "lworld \<Rightarrow> instant \<times> lworld" where
  "lb_now w = (let w = tick w in (sh_clock (lw_shared w), w))"

definition lb_open :: "duration \<Rightarrow> lworld \<Rightarrow> (io_error + nat) \<times> lworld" where
  "lb_open timeout w =
     (let w = tick w; (sh, c) = accept (lw_shared w)
      in (Inr (lw_next w), w\<lparr>lw_shared := sh, lw_conns := (lw_conns w)(lw_next w \<mapsto> c), lw_next := lw_next w + 1\<rparr>))"

definition lb_write :: "nat \<Rightarrow> u8 list \<Rightarrow> lworld \<Rightarrow> (io_error + unit) \<times> lworld" where
  "lb_write h bytes w =
     (let w = tick w
      in case lw_conns w h of
           None \<Rightarrow> (Inl OtherIo, w)
         | Some c \<Rightarrow>
           if \<not> cn_open c then (Inl OtherIo, w)
           else let (sh, c) = deliver (segments bytes) (lw_shared w) c
                in (Inr (), w\<lparr>lw_shared := sh, lw_conns := (lw_conns w)(h \<mapsto> c)\<rparr>))"

definition lb_read :: "nat \<Rightarrow> nat \<Rightarrow> lworld \<Rightarrow> (io_error + u8 list) \<times> lworld" where
  "lb_read h n w =
     (let w = tick w
      in case lw_conns w h of
           None \<Rightarrow> (Inl OtherIo, w)
         | Some c \<Rightarrow>
           if cn_out c \<noteq> []
           then (Inr (take n (cn_out c)), w\<lparr>lw_conns := (lw_conns w)(h \<mapsto> c\<lparr>cn_out := drop n (cn_out c)\<rparr>)\<rparr>)
           else if \<not> cn_open c then (if cn_reset c then Inl OtherIo else Inr [], w)
           else (Inl IoWouldBlock, w\<lparr>lw_shared := sleep READ_TIMEOUT (lw_shared w)\<rparr>))"

definition lb_close :: "nat \<Rightarrow> lworld \<Rightarrow> lworld" where
  "lb_close h w =
     (let w = tick w
      in case lw_conns w h of
           None \<Rightarrow> w
         | Some c \<Rightarrow> w\<lparr>lw_shared := (if cn_open c then conn_finished (lw_shared w) else lw_shared w),
                        lw_conns := (lw_conns w)(h := None)\<rparr>)"

definition loopback :: "lworld net" where
  "loopback = \<lparr>net_now = lb_now, net_open = lb_open,
     net_set_nodelay = (\<lambda>h b w. (Inr (), tick w)), net_set_read_timeout = (\<lambda>h t w. (Inr (), tick w)),
     net_set_write_timeout = (\<lambda>h t w. (Inr (), tick w)), net_try_clone = (\<lambda>h w. (Inr (), tick w)),
     net_write = lb_write, net_read = lb_read, net_close = lb_close\<rparr>"

subsection \<open>Safe commands do not hang a DAC\<close>

lemma rate_bytes:
  "of_le32 ((le16 lwm @ le32 rate) ! 2) ((le16 lwm @ le32 rate) ! 3) ((le16 lwm @ le32 rate) ! 4) ((le16 lwm @ le32 rate) ! 5) = rate"
  "of_le32 (le32 rate ! 0) (le32 rate ! 1) (le32 rate ! 2) (le32 rate ! 3) = rate"
  by (simp_all add: le16_def le32_def of_le32_le32 nth_Cons')

lemma data_bytes:
  assumes "write_data ps = Inr w"
  shows "data_count w = length ps" "data_total w = length w" "3 \<le> length w" "drop 3 w = concat (map write_dac_point ps)" "length ps \<le> umax 16"
proof -
  have n: "length ps \<le> umax 16" and w: "w = 0x64 # le16 (of_nat (length ps)) @ concat (map write_dac_point ps)"
    using assms by (auto simp: write_data_def split: if_splits)
  have u: "unat (of_nat (length ps) :: u16) = length ps" using n by (simp add: unat_of_nat umax_def)
  show "length ps \<le> umax 16" by (rule n)
  show d: "drop 3 w = concat (map write_dac_point ps)" unfolding w by (simp add: le16_def)
  show c: "data_count w = length ps" unfolding w data_count_def using u by (simp add: le16_def of_le16_le16 nth_Cons')
  show "data_total w = length w" "3 \<le> length w"
    unfolding data_total_def c by (simp_all add: w ed_point.run_size)
qed

lemma safe_rate_ok: "command_safe (fw_max_point_rate p) c \<Longrightarrow> 0 < fw_max_point_rate p \<Longrightarrow> command_rate c = Some rate \<Longrightarrow> rate_ok p rate"
  by (auto simp: command_safe_def unsafe_rate_def rate_ok_def word_gt_0 not_less)

text \<open>Commands other than the version query are answered with a response to them.\<close>

lemma step_responds:
  assumes w: "write_command c = Inr w" and safe: "command_safe (fw_max_point_rate (em_profile m)) c" "0 < fw_max_point_rate (em_profile m)"
    and "c \<noteq> Version"
  shows "\<exists>code m'. em_step m w = Stepped (length w) (RespReply (respond m' code (start_byte c))) m'"
proof (cases "command_rate c")
  case None
  show ?thesis
  proof (cases "\<exists>ps. c = Data ps")
    case True
    then obtain ps where c: "c = Data ps" by blast
    note d = data_bytes [OF w [unfolded c write_command.simps]]
    obtain t where t: "w = 0x64 # t" using write_starts_with [OF w] c by auto
    obtain k code m' where "write_ring m 0x64 w = Stepped k (RespReply (respond m' code 0x64)) m'" "k = length w"
      by (rule write_ring_eq [of w m "0x64"]) (use d in \<open>simp_all add: Let_def\<close>)
    then have "\<exists>code m'. step_data m 0x64 w = Stepped (length w) (RespReply (respond m' code 0x64)) m'"
      using d by (auto simp: step_data_def ack_def nak_i_def)
    then show ?thesis using t c by (simp add: em_step_def)
  next
    case False
    then have w': "w = [start_byte c]" using w None by (cases c) auto
    show ?thesis unfolding w' using None False \<open>c \<noteq> Version\<close>
      by (cases c) (auto simp: em_step_def step_prepare_def step_stop_def step_clear_def ack_def nak_i_def Let_def split: option.split)
  qed
next
  case (Some rate)
  note r = safe_rate_ok [OF safe Some]
  then have cr: "check_rate m b rate k = None" for b k by (simp add: check_rate_None)
  consider lwm where "c = Begin lwm rate" | lwm where "c = Update lwm rate" | "c = PointRate rate" using Some by (cases c) auto
  then show ?thesis
  proof cases
    case (1 lwm)
    then have w': "w = 0x62 # le16 lwm @ le32 rate" using w by simp
    then show ?thesis using 1 by (auto simp: em_step_def step_begin_update_def rate_bytes cr Let_def ack_def nak_i_def)
  next
    case (2 lwm)
    then have w': "w = 0x75 # le16 lwm @ le32 rate" using w by simp
    then show ?thesis using 2 by (auto simp: em_step_def step_begin_update_def rate_bytes cr Let_def ack_def nak_i_def)
  next
    case 3
    then have w': "w = 0x71 # le32 rate" using w by simp
    then show ?thesis using 3 by (auto simp: em_step_def step_queue_rate_def rate_bytes [simplified] cr Let_def ack_def nak_i_def)
  qed
qed

text \<open>So a safe command is consumed whole, and is answered by something other than a hang.\<close>

lemma step_safe:
  assumes "write_command c = Inr w" "command_safe (fw_max_point_rate (em_profile m)) c" "0 < fw_max_point_rate (em_profile m)"
  shows "\<exists>r m'. em_step m w = Stepped (length w) r m' \<and> r \<noteq> HangReply"
proof (cases "c = Version")
  case True
  then show ?thesis using assms(1) by (auto simp: em_step_def nak_i_def split: option.split)
next
  case False
  then show ?thesis using step_responds [OF assms] by auto
qed

text \<open>A strict prefix of a command waits for the rest.\<close>

lemma strict_prefix_incomplete:
  assumes w: "write_command c = Inr (x @ y)" and "y \<noteq> []"
  shows "em_step m x = Incomplete"
proof (cases x)
  case Nil
  then show ?thesis by (simp add: em_step_def)
next
  case (Cons b t)
  have b: "b = start_byte c" using write_starts_with [OF w] Cons by auto
  have y: "0 < length y" using assms(2) by simp
  have "\<not> command_complete x"
  proof (cases c)
    case (Data ps)
    note d = data_bytes [OF w [unfolded Data write_command.simps]]
    show ?thesis
    proof (cases "3 \<le> length x")
      case True
      then have "data_total x = length (x @ y)" using d(2) by simp
      then show ?thesis using Cons b Data y by (simp add: command_complete_def)
    qed (use Cons b Data in \<open>simp add: command_complete_def\<close>)
  qed (use w Cons b y in \<open>auto simp: command_complete_def le16_def le32_def Cons_eq_append_conv\<close>)
  then show ?thesis using command_complete_iff by blast
qed

subsection \<open>One command through the server\<close>

definition model_ok :: "firmware_profile \<Rightarrow> ed_model \<Rightarrow> bool" where
  "model_ok p m \<longleftrightarrow> em_inv m \<and> em_profile m = p \<and> \<not> em_hung m \<and> em_inject m = None"

lemma model_ok_advance: "model_ok p m \<Longrightarrow> model_ok p (advance_to now m)"
  by (simp add: model_ok_def advance_to_inv advance_to_keeps)

lemma model_ok_closed: "model_ok p m \<Longrightarrow> model_ok p (connection_closed now m)"
  using model_ok_advance [of p m now] connection_closed_inv [of m now]
  by (auto simp: model_ok_def connection_closed_def Let_def)

lemma process_loop_nil: "em_inject m = None \<Longrightarrow> process_loop stop b [] m = Some ([], [], m)"
  by (subst process_loop.simps) (simp add: run_injection_def em_step_def)

lemma no_injection: "em_inject m = None \<Longrightarrow> run_injection x m = Some (False, m)"
  by (simp add: run_injection_def split: list.split)

lemma process_loop_stuck:
  "em_inject m = None \<Longrightarrow> em_step m x = Incomplete \<Longrightarrow> process_loop stop b x m = Some ([], x, m)"
  by (subst process_loop.simps) (simp add: no_injection)

lemma process_loop_whole:
  assumes i: "em_inject m = None" and h: "handle m w = Some (length w, r, m4)"
  shows "process_loop stop b w m =
    (if b = 0 \<or> (stop \<noteq> None \<and> first_byte w = stop) then Some ([], w, m) else Some ([r], [], m4))"
proof (cases "em_step m w")
  case (Stepped k r1 m2)
  obtain r' m3 where fr: "finish_reply r1 m2 = (r', m3)" by fastforce
  with Stepped obtain m4' where m4: "(if em_record_input m3 then em_record (take k w) m3 else Some m3) = Some m4'"
    "handle m w = Some (k, r', m4')" by (rule handle_Stepped)
  have e: "k = length w" "r' = r" "m4' = m4" using h m4(2) by simp_all
  have "em_inject m4 = None" using i handle_keeps [OF h] by (simp add: same_frame_def)
  then have n: "process_loop s k [] m4 = Some ([], [], m4)" for s k by (rule process_loop_nil)
  show ?thesis using Stepped fr m4(1) e no_injection [OF i]
    by (subst process_loop.simps) (cases "em_record_input m3"; simp add: n)
qed (use h in \<open>simp_all add: handle_def\<close>)

lemma handle_safe:
  assumes w: "write_command c = Inr w" and safe: "command_safe (fw_max_point_rate p) c" "0 < fw_max_point_rate p" and m: "model_ok p m"
  obtains r m4 where "handle m w = Some (length w, r, m4)" "r \<noteq> HangReply"
proof -
  obtain r1 m2 where s: "em_step m w = Stepped (length w) r1 m2" "r1 \<noteq> HangReply"
    using step_safe [OF w, of m] safe m by (auto simp: model_ok_def)
  obtain r m3 where fr: "finish_reply r1 m2 = (r, m3)" by fastforce
  with s(1) obtain m4 where "handle m w = Some (length w, r, m4)" by (rule handle_Stepped)
  then show thesis using that [of r m4] finish_reply_kind [OF fr] s(2) by simp
qed

text \<open>What processing does with the received part \<open>x\<close> of a safe command whose rest \<open>y\<close> is to come.\<close>

lemma process_safe:
  assumes w: "write_command c = Inr (x @ y)" and safe: "command_safe (fw_max_point_rate p) c" "0 < fw_max_point_rate p"
    and m: "model_ok p m" and k: "0 < k"
  shows "\<exists>rs x' m'. process_with now x stop k m = Some (rs, x', m') \<and> model_ok p m' \<and> HangReply \<notin> set rs \<and>
    x' = (if y = [] \<and> (stop = None \<or> first_byte x \<noteq> stop) then [] else x)"
proof -
  define A where "A = advance_to now m"
  have A: "model_ok p A" using m model_ok_advance by (simp add: A_def)
  then have i: "em_inject A = None" "\<not> em_hung A" by (simp_all add: model_ok_def)
  have pw: "process_with now x stop k m = process_loop stop k x A" using i(2) by (simp add: process_with_def Let_def flip: A_def)
  show ?thesis
  proof (cases "y = []")
    case False
    then have "em_step A x = Incomplete" using strict_prefix_incomplete [OF w] by simp
    then show ?thesis using process_loop_stuck [OF i(1)] pw A False by simp
  next
    case True
    then obtain r m4 where h: "handle A x = Some (length x, r, m4)" "r \<noteq> HangReply"
      using handle_safe [OF _ safe A, of x] w by auto
    have "run_ok p x (process_with now x stop k m)" using m by (intro process_with_ok) (simp_all add: model_ok_def)
    then have "em_inv m4 \<and> em_profile m4 = p" if "\<not> (stop \<noteq> None \<and> first_byte x = stop)"
      using that k process_loop_whole [OF i(1) h(1), of stop k] by (auto simp: pw run_ok_def split: if_splits)
    then show ?thesis using process_loop_whole [OF i(1) h(1), of stop k] pw A h(2) k handle_keeps [OF h(1)] i True
      by (auto simp: model_ok_def same_frame_def)
  qed
qed

subsection \<open>The server stays responsive\<close>

definition shared_ok :: "firmware_profile \<Rightarrow> shared \<Rightarrow> bool" where
  "shared_ok p sh \<longleftrightarrow> model_ok p (sh_model sh)"

lemma shared_ok_basic [simp]: "shared_ok p (sleep d sh) = shared_ok p sh"
  "shared_ok p (sh\<lparr>sh_active := n\<rparr>) = shared_ok p sh" "shared_ok p (sh\<lparr>sh_accepted := n\<rparr>) = shared_ok p sh"
  by (simp_all add: shared_ok_def sleep_def)

lemma lock_model_ok: "shared_ok p sh \<Longrightarrow> shared_ok p (lock_model sh)"
  by (simp add: shared_ok_def lock_model_def model_ok_advance)

lemma conn_finished_ok: "shared_ok p sh \<Longrightarrow> shared_ok p (conn_finished sh)"
  using lock_model_ok [of p "sh\<lparr>sh_active := sh_active sh - 1\<rparr>"]
  by (auto simp: conn_finished_def Let_def shared_ok_def model_ok_closed)

lemma send_replies_keeps:
  "HangReply \<notin> set rs \<Longrightarrow> send_replies f rs sh c = (keep, sh', c') \<Longrightarrow>
     sh_model sh' = sh_model sh \<and> cn_hung c' = cn_hung c \<and> cn_open c' = cn_open c \<and> cn_input c' = cn_input c"
  by (induction f rs sh c rule: send_replies.induct) (auto simp: Let_def sleep_def split: if_splits)

text \<open>A connection that has received the part \<open>x\<close> of a safe command, its rest \<open>y\<close> still to come.\<close>

definition conn_at :: "u8 list \<Rightarrow> conn \<Rightarrow> bool" where
  "conn_at x c \<longleftrightarrow> \<not> cn_hung c \<and> (cn_open c \<longrightarrow> cn_input c = x)"

definition arriving :: "firmware_profile \<Rightarrow> u8 list \<Rightarrow> u8 list \<Rightarrow> bool" where
  "arriving p x y \<longleftrightarrow> 0 < fw_max_point_rate p \<and> (\<exists>c. write_command c = Inr (x @ y) \<and> command_safe (fw_max_point_rate p) c)"

lemma arriving_incomplete: "arriving p x y \<Longrightarrow> y \<noteq> [] \<Longrightarrow> \<not> command_complete x"
  using strict_prefix_incomplete command_complete_iff by (metis arriving_def)

lemma arriving_complete: "arriving p x [] \<Longrightarrow> command_complete x"
proof -
  assume "arriving p x []"
  then obtain c where "write_command c = Inr x" "command_safe (fw_max_point_rate p) c" "0 < fw_max_point_rate p"
    by (auto simp: arriving_def)
  then have "em_step (em_new p) x \<noteq> Incomplete" using step_safe [of c x "em_new p"] by (auto simp: em_new_def)
  then show ?thesis using command_complete_iff by blast
qed

lemma arriving_step: "arriving p x (a @ b) \<Longrightarrow> arriving p (x @ a) b"
  by (simp add: arriving_def)

lemma arriving_none: "arriving p x y \<Longrightarrow> arriving p [] (x @ y)"
  by (simp add: arriving_def)

lemma process_step_safe:
  assumes a: "arriving p x y" and sh: "shared_ok p sh" and x: "cn_input cn = x"
  obtains rs sh' where "process_step f sh cn = Some (rs, sh', cn\<lparr>cn_input := if y = [] \<and> (data_delay f = 0 \<or> first_byte x \<noteq> Some 0x64) then [] else x\<rparr>)"
    "shared_ok p sh'" "HangReply \<notin> set rs"
proof -
  obtain c where c: "write_command c = Inr (x @ y)" "command_safe (fw_max_point_rate p) c" "0 < fw_max_point_rate p"
    using a by (auto simp: arriving_def)
  have m: "model_ok p (sh_model (lock_model sh))" using lock_model_ok [OF sh] by (simp add: shared_ok_def)
  have u: "0 < umax 64" by (simp add: umax_def)
  show thesis
  proof (cases "data_delay f = 0")
    case True
    then show thesis using process_safe [OF c m u, of "sh_clock (lock_model sh)" None] that x
      by (auto simp: process_step_def em_process_def Let_def shared_ok_def)
  next
    case False
    then show thesis using process_safe [OF c m u, of "sh_clock (lock_model sh)" "Some 0x64"] that x
      by (auto simp: process_step_def process_before_def Let_def shared_ok_def)
  qed
qed

lemma process_delayed_safe:
  assumes a: "arriving p x []" and sh: "shared_ok p sh" and x: "cn_input cn = x"
  obtains rs sh' where "process_delayed f sh cn = Some (rs, sh', cn\<lparr>cn_input := []\<rparr>)" "shared_ok p sh'" "HangReply \<notin> set rs"
proof -
  obtain c where c: "write_command c = Inr (x @ [])" "command_safe (fw_max_point_rate p) c" "0 < fw_max_point_rate p"
    using a by (auto simp: arriving_def)
  have m: "model_ok p (sh_model (lock_model (sleep (data_delay f) sh)))"
    using lock_model_ok [of p "sleep (data_delay f) sh"] sh by (simp add: shared_ok_def sleep_def)
  show thesis using process_safe [OF c m zero_less_one, of "sh_clock (lock_model (sleep (data_delay f) sh))" None] that x
    by (auto simp: process_delayed_def process_one_def Let_def shared_ok_def)
qed

text \<open>One round of a connection: a complete command is gone at its end, or in the next round.\<close>

lemma serve_round_safe:
  assumes a: "arriving p x y" and sh: "shared_ok p sh" and x: "cn_input cn = x" and h: "\<not> cn_hung cn"
  obtains again sh' cn' where "serve_round f sh cn = Some (again, sh', cn')" "shared_ok p sh'" "\<not> cn_hung cn'"
    "cn_open cn' \<longrightarrow> cn_input cn' = (if y = [] then [] else x)" "again \<longrightarrow> cn_input cn' = []" "again \<longrightarrow> x \<noteq> [] \<and> y = []"
proof -
  obtain rs sh1 where s: "process_step f sh cn = Some (rs, sh1, cn\<lparr>cn_input := if y = [] \<and> (data_delay f = 0 \<or> first_byte x \<noteq> Some 0x64) then [] else x\<rparr>)"
    "shared_ok p sh1" "HangReply \<notin> set rs" by (rule process_step_safe [OF a sh x])
  define x1 where "x1 = (if y = [] \<and> (data_delay f = 0 \<or> first_byte x \<noteq> Some 0x64) then [] else x)"
  obtain keep sh2 c2 where r: "send_replies f rs sh1 (cn\<lparr>cn_input := x1\<rparr>) = (keep, sh2, c2)" by (metis prod_cases3)
  note k = send_replies_keeps [OF s(3) r]
  have sh2: "shared_ok p sh2" using s(2) k by (simp add: shared_ok_def)
  show thesis
  proof (cases "keep \<and> data_ready f x1")
    case False
    then have "serve_round f sh cn = Some (False, sh2, if keep then c2 else c2\<lparr>cn_open := False\<rparr>)"
      using s(1) r k h by (auto simp: serve_round_def Let_def simp flip: x1_def)
    moreover have "keep \<longrightarrow> x1 = (if y = [] then [] else x)"
      using False arriving_complete [of p x] a by (auto simp: x1_def data_ready_def split: if_splits)
    ultimately show thesis using that sh2 k h by (cases keep) simp_all
  next
    case True
    then have d: "y = []" "x1 = x" "x \<noteq> []" using arriving_incomplete [OF a]
      by (auto simp: x1_def data_ready_def first_byte_def split: if_splits list.splits)
    have ax: "arriving p x []" using a d by simp
    have c2: "cn_input c2 = x" using k d by simp
    obtain rs2 sh3 where p: "process_delayed f sh2 c2 = Some (rs2, sh3, c2\<lparr>cn_input := []\<rparr>)" "shared_ok p sh3" "HangReply \<notin> set rs2"
      by (rule process_delayed_safe [OF ax sh2 c2])
    obtain keep3 sh4 c4 where r4: "send_replies f rs2 sh3 (c2\<lparr>cn_input := []\<rparr>) = (keep3, sh4, c4)" by (metis prod_cases3)
    note k4 = send_replies_keeps [OF p(3) r4]
    have "serve_round f sh cn = Some (keep3, sh4, if keep3 then c4 else c4\<lparr>cn_open := False\<rparr>)"
      using True s(1) r k h p(1) r4 k4 by (auto simp: serve_round_def Let_def simp flip: x1_def)
    moreover have "shared_ok p sh4" using p(2) k4 by (simp add: shared_ok_def)
    ultimately show thesis using that k h k4 d by (cases keep3) simp_all
  qed
qed

lemma serve_loop_safe:
  assumes a: "arriving p x y" and sh: "shared_ok p sh" and x: "cn_input cn = x" and h: "\<not> cn_hung cn"
  obtains sh' cn' where "serve_loop f sh cn = Some (sh', cn')" "shared_ok p sh'" "conn_at (if y = [] then [] else x) cn'"
proof -
  obtain again sh1 c1 where r: "serve_round f sh cn = Some (again, sh1, c1)" "shared_ok p sh1" "\<not> cn_hung c1"
    "cn_open c1 \<longrightarrow> cn_input c1 = (if y = [] then [] else x)" "again \<longrightarrow> cn_input c1 = []" "again \<longrightarrow> x \<noteq> [] \<and> y = []"
    by (rule serve_round_safe [OF a sh x h])
  show thesis
  proof (cases again)
    case False
    then have "serve_loop f sh cn = Some (sh1, c1)" using r(1) by (subst serve_loop.simps) simp
    then show thesis using that [of sh1 c1] r by (simp add: conn_at_def)
  next
    case True
    obtain again2 sh2 c2 where r2: "serve_round f sh1 c1 = Some (again2, sh2, c2)" "shared_ok p sh2" "\<not> cn_hung c2"
      "cn_open c2 \<longrightarrow> cn_input c2 = (if x @ y = [] then [] else [])" "again2 \<longrightarrow> [] \<noteq> ([] :: u8 list) \<and> x @ y = []"
      by (rule serve_round_safe [OF arriving_none [OF a] r(2) _ r(3)]) (use r(5) True in simp_all)
    have "serve_loop f sh cn = Some (sh2, c2)"
      using r(1) True r2(1,5) by (subst serve_loop.simps, simp) (subst serve_loop.simps, simp)
    then show thesis using that [of sh2 c2] r2 r(6) True by (simp add: conn_at_def)
  qed
qed

lemma receive_safe:
  assumes a: "arriving p x (b @ y)" and sh: "shared_ok p sh" and c: "conn_at x cn" "cn_open cn"
  shows "shared_ok p (fst (receive b sh cn)) \<and> conn_at (if y = [] then [] else x @ b) (snd (receive b sh cn))"
proof -
  have i: "cn_input (cn\<lparr>cn_input := cn_input cn @ b\<rparr>) = x @ b" "\<not> cn_hung (cn\<lparr>cn_input := cn_input cn @ b\<rparr>)"
    using c by (simp_all add: conn_at_def)
  obtain sh' cn' where "serve_loop (sh_faults sh) sh (cn\<lparr>cn_input := cn_input cn @ b\<rparr>) = Some (sh', cn')" "shared_ok p sh'"
    "conn_at (if y = [] then [] else x @ b) cn'"
    by (rule serve_loop_safe [OF arriving_step [OF a] sh i])
  then show ?thesis using c by (simp add: receive_def conn_at_def conn_finished_ok)
qed

lemma segments_concat: "concat (segments bytes) = bytes" "[] \<notin> set (segments bytes)"
  by (induction bytes rule: segments.induct) (subst segments.simps, simp)+

lemma deliver_closed: "\<not> cn_open cn \<Longrightarrow> deliver bs sh cn = (sh, cn)"
  by (cases bs) simp_all

lemma deliver_safe:
  "arriving p x (concat bs) \<Longrightarrow> bs \<noteq> [] \<Longrightarrow> [] \<notin> set bs \<Longrightarrow> shared_ok p sh \<Longrightarrow> conn_at x cn \<Longrightarrow>
     shared_ok p (fst (deliver bs sh cn)) \<and> conn_at [] (snd (deliver bs sh cn))"
proof (induction bs arbitrary: x sh cn)
  case (Cons b bs)
  show ?case
  proof (cases "cn_open cn")
    case True
    obtain sh' cn' where r: "receive b sh cn = (sh', cn')" by fastforce
    have y: "concat bs = [] \<longleftrightarrow> bs = []" using Cons.prems(3) by (cases bs) auto
    from receive_safe [of p x b "concat bs" sh cn] have k: "shared_ok p sh'" "conn_at (if bs = [] then [] else x @ b) cn'"
      using Cons.prems True r y by simp_all
    show ?thesis
    proof (cases "bs = []")
      case False
      have "arriving p (x @ b) (concat bs)" using Cons.prems(1) by (auto dest: arriving_step)
      then show ?thesis using Cons.IH [of "x @ b" sh' cn'] k False Cons.prems(3) True r by simp
    qed (use k r True in simp)
  qed (use Cons.prems in \<open>simp add: conn_at_def\<close>)
qed simp

subsection \<open>The backend on the simulator never hangs it\<close>

definition lw_ok :: "firmware_profile \<Rightarrow> lworld \<Rightarrow> bool" where
  "lw_ok p w \<longleftrightarrow> shared_ok p (lw_shared w) \<and> (\<forall>h c. lw_conns w h = Some c \<longrightarrow> conn_at [] c)"

lemma tick_ok: "lw_ok p w \<Longrightarrow> lw_ok p (tick w)"
  by (simp add: lw_ok_def tick_def split: list.split)

lemma lb_write_ok:
  assumes "lw_ok p w" "command_safe (fw_max_point_rate p) c" "write_command c = Inr bytes" "0 < fw_max_point_rate p"
  shows "lw_ok p (snd (lb_write h bytes w))"
proof -
  have a: "arriving p [] (concat (segments bytes))" using assms by (auto simp: arriving_def segments_concat)
  have "bytes \<noteq> []" using write_starts_with [OF assms(3)] by auto
  then have ne: "segments bytes \<noteq> []" using segments_concat(1) [of bytes] by auto
  have t: "lw_ok p (tick w)" using assms(1) by (rule tick_ok)
  show ?thesis
  proof (cases "lw_conns (tick w) h")
    case None
    then show ?thesis using t by (simp add: lb_write_def Let_def)
  next
    case (Some cn)
    then have "shared_ok p (lw_shared (tick w))" "conn_at [] cn" using t by (simp_all add: lw_ok_def)
    from deliver_safe [OF a ne segments_concat(2) this] show ?thesis using Some t
      by (auto simp: lb_write_def Let_def lw_ok_def split: prod.splits)
  qed
qed

lemma hello_conn_ok: "shared_ok p sh \<Longrightarrow> hello_conn sh = (sh', c) \<Longrightarrow> shared_ok p sh' \<and> conn_at [] c"
  using lock_model_ok [of p sh] by (auto simp: hello_conn_def Let_def shared_ok_def model_ok_def conn_at_def split: if_splits)

lemma accept_ok: "shared_ok p sh \<Longrightarrow> accept sh = (sh', c) \<Longrightarrow> shared_ok p sh' \<and> conn_at [] c"
  by (auto simp: accept_def refused_conn_def conn_at_def split: if_splits dest!: hello_conn_ok [rotated])

interpretation lb: safe_net loopback "\<lambda>w. lw_ok p w \<and> 0 < fw_max_point_rate p" "fw_max_point_rate p"
proof
  fix w h c bytes n d b t assume w: "lw_ok p w \<and> 0 < fw_max_point_rate p"
  then have k: "lw_ok p (tick w)" "0 < fw_max_point_rate p" by (simp_all add: tick_ok)
  show "lw_ok p (snd (net_now loopback w)) \<and> 0 < fw_max_point_rate p" using k by (simp add: loopback_def lb_now_def Let_def)
  show "lw_ok p (snd (net_open loopback d w)) \<and> 0 < fw_max_point_rate p"
    using k accept_ok [of p "lw_shared (tick w)"] by (auto simp: loopback_def lb_open_def Let_def lw_ok_def split: prod.splits)
  show "command_safe (fw_max_point_rate p) c \<Longrightarrow> write_command c = Inr bytes \<Longrightarrow> lw_ok p (snd (net_write loopback h bytes w)) \<and> 0 < fw_max_point_rate p"
    using w lb_write_ok by (simp add: loopback_def)
  show "lw_ok p (snd (net_read loopback h n w)) \<and> 0 < fw_max_point_rate p"
    using k by (auto simp: loopback_def lb_read_def Let_def lw_ok_def conn_at_def split: option.splits)
  show "lw_ok p (net_close loopback h w) \<and> 0 < fw_max_point_rate p"
    using k by (auto simp: loopback_def lb_close_def Let_def lw_ok_def conn_finished_ok split: option.splits)
qed (simp_all add: loopback_def tick_ok)

end
