(* ===== verification/Ether_Dream_Live.thy ===== *)
theory Ether_Dream_Live
  imports Ether_Dream_Safety
begin

text \<open>
  The Ether Dream backend always returns. The locale \<open>live_net\<close> is a network whose clock does not
  run backwards, in which a read that waits takes time and interruptions by signals end; on it the
  read loop ends within its budget, and every operation of the backend returns without a panic:
  no slice is out of range, no clamp has its bounds out of order, no stream is used that is not
  there.
\<close>

locale live_net =
  fixes N :: "'w net" and clock :: "'w \<Rightarrow> instant" and signals :: "'w \<Rightarrow> nat"
  assumes now_clock: "net_now N w = (t, w') \<Longrightarrow> t = clock w' \<and> clock w \<le> clock w' \<and> signals w' \<le> signals w"
    and read_clock: "net_read N h k w = (r, w') \<Longrightarrow> clock w \<le> clock w' \<and> signals w' \<le> signals w"
    and read_waits: "net_read N h k w = (Inl e, w') \<Longrightarrow> e \<in> {IoWouldBlock, TimedOut} \<Longrightarrow> clock w < clock w'"
    and read_signal: "net_read N h k w = (Inl Interrupted, w') \<Longrightarrow> signals w' < signals w"
begin

text \<open>The measure: the time left, then the signals to come, then the bytes to come.\<close>

lemma read_loop_returns: "\<exists>r w'. read_loop N h start budget n buf w = Some (r, w')"
proof -
  define R where "R = measures [\<lambda>(w, buf :: u8 list). start + budget - clock w, \<lambda>(w, buf). signals w, \<lambda>(w, buf). n - length buf]"
  have "wf R" by (simp add: R_def)
  then have "\<exists>r w'. read_loop N h start budget n (snd z) (fst z) = Some (r, w')" for z
  proof (induction z rule: wf_induct_rule)
    case (less z)
    obtain w buf where z: "z = (w, buf)" by fastforce
    have IH: "\<exists>r w''. read_loop N h start budget n buf' w' = Some (r, w'')" if "((w', buf'), (w, buf)) \<in> R" for w' buf'
      using less.IH [of "(w', buf')"] that z by simp
    obtain r w1 where r: "net_read N h (n - length buf) w = (r, w1)" by fastforce
    note c = read_clock [OF r]
    show ?case
    proof (cases "n \<le> length buf")
      case True
      then show ?thesis by (subst read_loop.simps) (simp add: z)
    next
      case False
      show ?thesis
      proof (cases r)
        case (Inr bs)
        have "((w1, buf @ bs), (w, buf)) \<in> R" if "bs \<noteq> []"
        proof -
          have "0 < length bs" using that by simp
          then have "n - (length buf + length bs) < n - length buf" using False by linarith
          then show ?thesis using c by (auto simp: R_def)
        qed
        then show ?thesis using Inr r False IH by (subst read_loop.simps) (auto simp: z)
      next
        case (Inl e)
        obtain t w2 where t: "net_now N w1 = (t, w2)" by fastforce
        have "((w1, buf), (w, buf)) \<in> R" if "e = Interrupted" using that read_signal r Inl c by (auto simp: R_def)
        moreover have "((w2, buf), (w, buf)) \<in> R" if "e \<in> {IoWouldBlock, TimedOut}" "\<not> budget \<le> t - start"
          using that read_waits [of h "n - length buf" w e w1] r Inl now_clock [OF t] by (auto simp: R_def)
        ultimately show ?thesis using Inl r t False IH by (subst read_loop.simps) (auto simp: z)
      qed
    qed
  qed
  from this [of "(w, buf)"] show ?thesis by simp
qed

lemma world_returns [returns_intros]: "returns (\<lambda>w. True) (enow N)" "returns (\<lambda>w. True) (eio g)"
  "returns (\<lambda>w. True) (read_exact_with_budget N h n budget)"
proof -
  show e: "returns (\<lambda>w. True) (enow N)" unfolding enow_def by (rule returnsI) (simp split: prod.split)
  show "returns (\<lambda>w. True) (eio g)" unfolding eio_def by (rule returnsI) simp
  have "returns (\<lambda>w. True) (read_loop N h start budget n [])" for start
    by (rule returnsI) (use read_loop_returns in simp)
  then show "returns (\<lambda>w. True) (read_exact_with_budget N h n budget)"
    unfolding read_exact_with_budget_def by (intro returns_ebind e)
qed

lemma on_world_returns [returns_intros]: "returns (\<lambda>w. True) m \<Longrightarrow> (\<And>s w. P s \<Longrightarrow> P (fst s, w)) \<Longrightarrow> returns P (on_world m)"
  unfolding on_world_def by (erule returns_ezoom) simp_all

lemma edac_returns [returns_intros]: "returns (\<lambda>s. True) (edac f)"
  by (rule returnsI) (simp add: edac_def split: prod.split)

lemma recv_returns: "returns (\<lambda>s. True) (recv_response_buffered N h expected)"
proof -
  have "returns (\<lambda>s. True) (recv_retry N h expected k)" for k
    by (induction k) (auto simp: Let_def intro!: returns_intros)
  then show ?thesis unfolding recv_response_buffered_def .
qed

lemma send_command_returns: "returns (\<lambda>w. True) (send_command N h c)"
  unfolding send_command_def by (auto intro!: returns_intros split: sum.split)

lemma stream_send_returns: "(\<And>s w. P s \<Longrightarrow> P (fst s, w)) \<Longrightarrow> returns P (stream_send N c)"
  unfolding stream_send_def by (intro returns_intros send_command_returns) simp_all

lemma dac_zoom_returns [returns_intros]:
  "returns (\<lambda>s. True) m \<Longrightarrow>
     returns (\<lambda>s. True) (ezoom (\<lambda>s. (es_dac (fst s), snd s)) (\<lambda>d s. ((fst s)\<lparr>es_dac := fst d\<rparr>, snd d)) m)"
  by (erule returns_ezoom) simp_all

lemma recv_response_returns: "returns (\<lambda>s. True) (recv_response N expected)"
  unfolding recv_response_def by (intro returns_pure returns_ebind dac_zoom_returns recv_returns)

lemma on_stream_returns [returns_intros]: "returns (\<lambda>s. True) (on_stream f)"
  unfolding on_stream_def by (intro returns_intros) simp

lemma send_all_returns:
  "list_all (\<lambda>q. wire_command points q \<noteq> None) qs \<Longrightarrow> returns (\<lambda>s. es_point_buffer (fst s) = points) (send_all N qs)"
proof (induction qs)
  case (Cons q qs)
  then obtain c where c: "wire_command points q = Some c" and IH: "returns (\<lambda>s. es_point_buffer (fst s) = points) (send_all N qs)" by auto
  show ?case unfolding send_all.simps
    by (rule returns_ebind, rule on_world_returns, rule world_returns, simp, rule returns_eget_bind)
       (simp add: c, intro returns_intros stream_send_returns IH, simp)
qed (simp add: returns_pure)

lemma recv_all_returns: "returns (\<lambda>s. True) (recv_all N ps f)"
  by (induction ps arbitrary: f) (auto intro!: returns_intros recv_response_returns split: option.split)

lemma query_returns: "returns (\<lambda>s. True) (query_version N)"
  unfolding query_version_def
  by (intro returns_pure returns_ebind returns_ethen returns_emap_err returns_if returns_case_sum on_world_returns world_returns
      dac_zoom_returns edac_returns on_stream_returns stream_send_returns) simp_all


subsubsection \<open>Submitting and connecting\<close>

definition queue_ok :: "ed_stream \<Rightarrow> bool" where
  "queue_ok s \<longleftrightarrow> list_all (\<lambda>q. wire_command (es_point_buffer s) q \<noteq> None) (es_command_buffer s)"

lemma submit_returns: "queue_ok (fst s) \<Longrightarrow> \<exists>r s'. submit N s = Some (r, s')"
proof -
  assume q: "queue_ok (fst s)"
  let ?s = "((fst s)\<lparr>es_command_buffer := []\<rparr>, snd s)"
  have "list_all (\<lambda>q. wire_command (es_point_buffer (fst s)) q \<noteq> None) (es_command_buffer (fst s))" using q by (simp add: queue_ok_def)
  from returnsD [OF send_all_returns [OF this], of ?s] obtain x s1 where x: "send_all N (es_command_buffer (fst s)) ?s = Some (x, s1)" by auto
  have "\<exists>r s'. recv_all N ps None s1 = Some (r, s')" for ps using returnsD [OF recv_all_returns] by blast
  with x show ?thesis
    by (cases x) (auto simp: submit_def Let_def eff_defs on_stream_def split: option.split)
qed

lemma queues_valid:
  "queue_ok ((q_stop \<circ> queue_commands) s)" "queue_ok ((q_ping \<circ> queue_commands) s)" "queue_ok ((q_prepare_stream \<circ> queue_commands) s)"
  "queue_ok ((q_clear_emergency_stop \<circ> queue_commands) s)" "queue_ok ((q_begin lwm rate \<circ> queue_commands) s)"
  "queue_ok ((q_data ps \<circ> queue_commands) s)" "queue_ok (((q_update lwm rate \<circ> q_data ps) \<circ> queue_commands) s)"
  by (simp_all add: queue_ok_def q_stop_def q_ping_def q_prepare_stream_def q_clear_emergency_stop_def q_begin_def q_update_def
      q_data_def queue_commands_def push_command_def Let_def)

definition linked :: "ed_backend \<times> 'w \<Rightarrow> bool" where
  "linked s \<longleftrightarrow> eb_stream (fst s) \<noteq> None"

lemma estream_returns: "(\<And>s. \<exists>r s'. m s = Some (r, s')) \<Longrightarrow> returns linked (estream m)"
proof (rule returnsI)
  fix s :: "ed_backend \<times> 'w" assume m: "\<And>s. \<exists>r s'. m s = Some (r, s')" and "linked s"
  then obtain st where st: "eb_stream (fst s) = Some st" by (auto simp: linked_def)
  obtain r s' where "m (st, snd s) = Some (r, s')" using m by blast
  then show "\<exists>r s'. estream m s = Some (r, s') \<and> linked s'" using st by (cases s') (simp add: estream_def linked_def)
qed

lemma run_queue_returns: "(\<And>s. queue_ok ((queue \<circ> queue_commands) s)) \<Longrightarrow> returns linked (run_queue N queue)"
proof -
  assume q: "\<And>s. queue_ok ((queue \<circ> queue_commands) s)"
  have "\<exists>r s'. ethen (on_stream (queue \<circ> queue_commands)) (submit N) s = Some (r, s')" for s :: "ed_stream \<times> 'w"
    using submit_returns [of "((queue \<circ> queue_commands) (fst s), snd s)"] q by (simp add: eff_defs on_stream_def)
  then show ?thesis unfolding run_queue_def by (rule estream_returns)
qed

lemma queues_return [returns_intros]:
  "returns linked (run_queue N q_stop)" "returns linked (run_queue N q_ping)" "returns linked (run_queue N q_prepare_stream)"
  "returns linked (run_queue N q_clear_emergency_stop)" "returns linked (run_queue N (q_begin lwm rate))"
  "returns linked (run_queue N (q_data ps))" "returns linked (run_queue N (q_update lwm rate \<circ> q_data ps))"
  by (rule run_queue_returns, rule queues_valid)+

lemma reads_return [returns_intros]: "returns linked the_status" "returns linked the_dac" "returns linked (on_world (enow N))"
  "returns linked (estream (eget g))"
  unfolding the_status_def the_dac_def
  by (rule estream_returns, simp add: eget_def, rule estream_returns, simp add: eget_def)
     (rule on_world_returns, rule world_returns, simp add: linked_def, rule estream_returns, simp add: eget_def)

lemma on_backend_returns: "(\<And>b. eb_stream (f b) = eb_stream b) \<Longrightarrow> returns linked (on_backend f)"
  unfolding on_backend_def by (intro returns_intros) (simp add: linked_def)

lemma notes_return [returns_intros]: "returns linked note_received" "returns linked note_estimate"
  unfolding note_received_def note_estimate_def by (intro returns_intros on_backend_returns; simp)+

subsubsection \<open>Writing\<close>

lemma gate_returns: "returns linked (light_engine_gate N)"
proof -
  have r: "returns linked refuse" by (simp add: refuse_def returns_pure)
  have w: "returns linked (wait_warmup N)" unfolding wait_warmup_def by (intro returns_intros on_backend_returns r; simp)
  have c: "returns linked (clear_estop N)" unfolding clear_estop_def
    by (intro returns_intros on_backend_returns r; auto intro!: returns_intros r split: option.split nak.split)
  show ?thesis unfolding light_engine_gate_def
    by (intro returns_intros) (auto intro!: returns_intros w c split: light_engine.split)
qed

lemma pass_returns: "returns linked (write_pass N rate capacity threshold ps retried)"
proof -
  have "returns linked (prepare_or_decay N capacity)" unfolding prepare_or_decay_def Let_def
    by (intro returns_intros; auto intro!: returns_intros split: option.split bool.split)
  moreover have "returns linked (begin_drain N rate)" unfolding begin_drain_def by (intro returns_intros on_backend_returns; simp)
  moreover have "returns linked (send_points N rate ps)" unfolding send_points_def by (intro returns_intros)
  moreover have "returns linked (refused_data retried e)" for e unfolding refused_data_def
    by (intro returns_intros; auto intro!: returns_intros split: nak.split)
  moreover have "returns linked (begin_if_ready N rate threshold retried)" unfolding begin_if_ready_def by (intro returns_intros)
  ultimately show ?thesis unfolding write_pass_def by (intro returns_intros)
qed

lemma write_points_returns: "returns linked (write_points N pps ps)"
proof -
  have "clamp_rate pps (effective_max_rate r) \<noteq> None" "begin_threshold rate c \<noteq> None" for r rate c
    using clamp_rate_bounds [of pps r] begin_threshold_bounds [of rate c] by auto
  then show ?thesis unfolding write_points_def write_loop_def Let_def
    by (intro returns_intros gate_returns pass_returns on_backend_returns; simp add: linked_def)
qed

lemma try_write_returns: "\<exists>r s'. try_write_points N pps ps s = Some (r, s')"
proof (cases "linked s")
  case True
  then obtain x s1 where "write_points N pps ps s = Some (x, s1)" using returnsD [OF write_points_returns] by blast
  then show ?thesis by (cases x) (simp_all add: try_write_points_def eff_defs drop_stream_def)
next
  case False
  then show ?thesis by (simp add: try_write_points_def write_points_def eff_defs linked_def drop_stream_def)
qed

lemma stop_returns: "\<exists>r s'. ed_stop N s = Some (r, s')"
proof (cases "linked s")
  case True
  then obtain x s1 where x: "run_queue N q_stop s = Some (x, s1)" "linked s1" using returnsD [OF queues_return(1)] by blast
  have n: "returns linked (ethen note_received note_estimate :: (ed_backend \<times> 'w, ed_error, unit) eff)" by (intro returns_intros)
  obtain y :: "ed_error + unit" and s2 where "ethen note_received note_estimate s1 = Some (y, s2)" using returnsD [OF n x(2)] by blast
  then show ?thesis using True x by (cases x) (auto simp: ed_stop_def eff_defs linked_def drop_stream_def)
next
  case False
  then show ?thesis by (simp add: ed_stop_def eff_defs linked_def)
qed

lemma disconnect_returns: "\<exists>r s'. ed_disconnect N s = Some (r, s')"
proof (cases "linked s")
  case True
  then obtain x s1 where "run_queue N q_stop s = Some (x, s1)" using returnsD [OF queues_return(1)] by blast
  then show ?thesis using True by (auto simp: ed_disconnect_def eff_defs linked_def drop_stream_def)
next
  case False
  then show ?thesis by (simp add: ed_disconnect_def eff_defs linked_def drop_stream_def)
qed

subsubsection \<open>Connecting\<close>

lemma elocal_returns:
  assumes m: "returns (\<lambda>s. True) m"
  shows "returns (\<lambda>w. True) (elocal d m)"
proof (rule returnsI)
  fix w 
  obtain r s' where "m (d, w) = Some (r, s')" using returnsD [OF m] by blast
  then show "\<exists>r w'. elocal d m w = Some (r, w') \<and> True" by (cases r; cases s') (simp_all add: elocal_def)
qed

lemma connect_to_returns: "returns (\<lambda>w. True) (connect_to N broadcast timeout)"
proof -
  have c: "returns (\<lambda>w. True) (closing N h m)" if "returns (\<lambda>w. True) m" for h and m :: "('w, communication_error, ed_stream) eff"
    unfolding closing_def by (intro returns_intros that) simp
  show ?thesis unfolding connect_to_def connect_inner_def configure_socket_def
    by (auto intro!: returns_intros elocal_returns recv_returns c split: sum.split)
qed

lemma open_returns: "returns (\<lambda>s. True) (open_stream N)"
  unfolding open_stream_def by (intro returns_intros connect_to_returns) simp

lemma learn_returns: "returns (\<lambda>s. True) (learn_version N st)"
proof -
  have "returns (\<lambda>s. True) (ed_query N st)"
  proof (rule returnsI)
    fix s :: "ed_backend \<times> 'w"
    obtain r s' where "query_version N (st, snd s) = Some (r, s')" using returnsD [OF query_returns, of "(st, snd s)"] by blast
    then show "\<exists>r s'. ed_query N st s = Some (r, s') \<and> True" by (cases s') (simp add: ed_query_def)
  qed
  then show ?thesis unfolding learn_version_def on_backend_def
    by (intro returns_intros; auto intro!: returns_intros open_returns split: sum.split option.split)
qed

lemma connect_returns: "\<exists>r s'. ed_connect N s = Some (r, s')"
proof -
  have "returns (\<lambda>s. True) (ed_connect N)"
    unfolding ed_connect_def adopt_stream_def on_backend_def drop_stream_def Let_def
    by (intro returns_intros open_returns learn_returns) simp_all
  from returnsD [OF this, of s] show ?thesis by blast
qed

end

end
