(* ===== verification/Ether_Dream_Session.thy ===== *)
theory Ether_Dream_Session
  imports Ether_Dream_Loopback Ether_Dream_Live
begin

text \<open>
  Sessions of the Ether Dream backend with the simulated DAC: any sequence of calls to the
  backend, mixed with what may happen on the side of the DAC and of the network.
\<close>

interpretation lbl: live_net loopback "\<lambda>w. sh_clock (lw_shared w)" "\<lambda>w. 0"
proof
  fix w :: lworld
  have t: "sh_clock (lw_shared w) \<le> sh_clock (lw_shared (tick w))" by (simp add: tick_def sleep_def split: list.split)
  show "net_now loopback w = (t, w') \<Longrightarrow> t = sh_clock (lw_shared w') \<and> sh_clock (lw_shared w) \<le> sh_clock (lw_shared w') \<and> (0 :: nat) \<le> 0" for t w'
    using t by (auto simp: loopback_def lb_now_def Let_def)
  show "net_read loopback h k w = (r, w') \<Longrightarrow> sh_clock (lw_shared w) \<le> sh_clock (lw_shared w') \<and> (0 :: nat) \<le> 0" for h k r w'
    using t by (auto simp: loopback_def lb_read_def Let_def sleep_def split: option.splits if_splits)
  show "net_read loopback h k w = (Inl e, w') \<Longrightarrow> e \<in> {IoWouldBlock, TimedOut} \<Longrightarrow> sh_clock (lw_shared w) < sh_clock (lw_shared w')" for h k e w'
    using t by (auto simp: loopback_def lb_read_def Let_def sleep_def READ_TIMEOUT_def split: option.splits if_splits)
  show "net_read loopback h k w = (Inl Interrupted, w') \<Longrightarrow> (0 :: nat) < 0" for h k w'
    by (auto simp: loopback_def lb_read_def Let_def split: option.splits if_splits)
qed

datatype backend_call = CallConnect | CallDisconnect | CallStop | CallWrite u32 "laser_point list"

fun ed_call :: "backend_call \<Rightarrow> ed_backend \<times> lworld \<Rightarrow> (ed_backend \<times> lworld) option" where
  "ed_call CallConnect s = map_option snd (ed_connect loopback s)"
| "ed_call CallDisconnect s = map_option snd (ed_disconnect loopback s)"
| "ed_call CallStop s = map_option snd (ed_stop loopback s)"
| "ed_call (CallWrite pps points) s = map_option snd (try_write_points loopback pps points s)"

text \<open>On the other side: the interlock, the stop button, time, lost or changed replies.\<close>

inductive dac_event :: "shared \<Rightarrow> shared \<Rightarrow> bool" where
  interlock: "dac_event sh (sh\<lparr>sh_model := set_interlock ok (sh_model sh)\<rparr>)"
| button: "dac_event sh (sh\<lparr>sh_model := trigger_estop (sh_clock sh) (sh_model sh)\<rparr>)"
| time: "dac_event sh (sleep d sh)"
| set_faults: "dac_event sh (sh\<lparr>sh_faults := f\<rparr>)"
| override: "dac_event sh (sh\<lparr>sh_model := override_reply_code opcode code (sh_model sh)\<rparr>)"

inductive ed_session :: "firmware_profile \<Rightarrow> ed_backend \<times> lworld \<Rightarrow> bool" for p where
  found: "cf_profile config = p \<Longrightarrow> max_point_rate b = fw_max_point_rate p \<Longrightarrow>
    ed_session p (with_address (Some b), lw_start config jitter)"
| by_address: "cf_profile config = p \<Longrightarrow> fw_max_point_rate p = SYNTHETIC_MAX_POINT_RATE \<Longrightarrow>
    ed_session p (with_address None, lw_start config jitter)"
| call: "ed_session p s \<Longrightarrow> ed_call c s = Some s' \<Longrightarrow> ed_session p s'"
| event: "ed_session p (b, w) \<Longrightarrow> dac_event (lw_shared w) sh \<Longrightarrow> ed_session p (b, w\<lparr>lw_shared := sh\<rparr>)"
| jitter: "ed_session p (b, w) \<Longrightarrow> ed_session p (b, w\<lparr>lw_jitter := j\<rparr>)"

lemma lw_start_ok: "cf_profile config = p \<Longrightarrow> lw_ok p (lw_start config jitter)"
  using em_new_inv [of p]
  by (simp add: lw_ok_def lw_start_def server_start_def shared_ok_def model_ok_def em_set_record_input_def) (simp add: em_new_def)

lemma dac_event_ok: "dac_event sh sh' \<Longrightarrow> shared_ok p sh \<Longrightarrow> shared_ok p sh'"
proof (induction rule: dac_event.induct)
  case (interlock sh ok)
  then show ?case using estop_inv [of "sh_model sh"]
    by (auto simp: shared_ok_def model_ok_def set_interlock_def Let_def) (simp_all add: estop_def)
next
  case (button sh)
  then show ?case using estop_inv [OF advance_to_inv, of "sh_model sh" "sh_clock sh"]
    by (auto simp: shared_ok_def model_ok_def trigger_estop_def) (simp_all add: estop_def advance_to_keeps)
qed (auto simp: shared_ok_def model_ok_def override_reply_code_def sleep_def)

lemma session_ok_iff:
  "lb.backend_ok p (b, w) \<longleftrightarrow> max_point_rate (case eb_broadcast b of Some bc \<Rightarrow> bc | None \<Rightarrow> synthetic_broadcast) = fw_max_point_rate p \<and>
     (\<forall>st. eb_stream b = Some st \<longrightarrow> dac_max_point_rate (ad_dac (es_dac st)) = fw_max_point_rate p) \<and> lw_ok p w \<and> 0 < fw_max_point_rate p"
  unfolding lb.backend_ok_def fst_conv snd_conv ..

lemma with_address_reads: "eb_broadcast (with_address b) = b" "eb_stream (with_address b) = None"
  by (simp_all add: with_address_def split: prod.split)

lemma ed_call_keeps: "ed_call c s = Some s' \<Longrightarrow> lb.backend_ok p s \<Longrightarrow> lb.backend_ok p s'"
proof (cases c)
  case CallConnect
  then show "ed_call c s = Some s' \<Longrightarrow> lb.backend_ok p s \<Longrightarrow> lb.backend_ok p s'" using keepsD [OF lb.connect_keeps, of p s _ s'] by auto
next
  case CallDisconnect
  then show "ed_call c s = Some s' \<Longrightarrow> lb.backend_ok p s \<Longrightarrow> lb.backend_ok p s'" using keepsD [OF lb.disconnect_keeps, of p s _ s'] by auto
next
  case CallStop
  then show "ed_call c s = Some s' \<Longrightarrow> lb.backend_ok p s \<Longrightarrow> lb.backend_ok p s'" using keepsD [OF lb.stop_keeps, of p s _ s'] by auto
next
  case (CallWrite pps points)
  then show "ed_call c s = Some s' \<Longrightarrow> lb.backend_ok p s \<Longrightarrow> lb.backend_ok p s'"
    using keepsD [OF lb.try_write_keeps, of p s pps points _ s'] by auto
qed

lemma ed_session_ok: "ed_session p s \<Longrightarrow> 0 < fw_max_point_rate p \<Longrightarrow> lb.backend_ok p s"
proof (induction rule: ed_session.induct)
  case (found config b jitter)
  then show ?case unfolding session_ok_iff by (simp add: with_address_reads lw_start_ok)
next
  case (by_address config jitter)
  then show ?case unfolding session_ok_iff by (simp add: with_address_reads synthetic_broadcast_def lw_start_ok)
next
  case (call s c s')
  from ed_call_keeps [OF call.hyps(2) call.IH [OF call.prems]] show ?case .
next
  case (event b w sh)
  then show ?case unfolding session_ok_iff using dac_event_ok [OF event.hyps(2), of p] by (simp add: lw_ok_def)
next
  case (jitter b w j)
  then show ?case unfolding session_ok_iff by (simp add: lw_ok_def)
qed

text \<open>
  C7 (the backend never hangs the DAC): connected to a simulated DAC of any firmware profile with a
  nonzero rate limit, found by its broadcast or, if its limit is the assumed one, by its address
  alone, no sequence of connects, writes at any rate, stops and disconnects makes the firmware
  hang, whatever the timing, the network faults, the interlock, the stop button and misreported
  reply codes do meanwhile; and the DAC stays within the invariant of its state machine.
\<close>

theorem ether_dream_never_hangs:
  assumes "ed_session p (b, w)" "0 < fw_max_point_rate p"
  shows "\<not> em_hung (sh_model (lw_shared w)) \<and> em_inv (sh_model (lw_shared w)) \<and> em_profile (sh_model (lw_shared w)) = p"
  using ed_session_ok [OF assms] unfolding session_ok_iff by (simp add: lw_ok_def shared_ok_def model_ok_def)

theorem ether_dream_never_hangs_witness:
  "\<exists>b w. ed_call CallConnect (with_address None, lw_start (sim_server_config_new ed2_r331) [7]) = Some (b, w) \<and>
     \<not> em_hung (sh_model (lw_shared w))"
proof -
  let ?s = "(with_address None, lw_start (sim_server_config_new ed2_r331) [7])"
  have s: "ed_session ed2_r331 ?s"
    by (rule ed_session.by_address) (simp_all add: sim_server_config_new_def ed2_r331_def SYNTHETIC_MAX_POINT_RATE_def)
  obtain b w where c: "ed_call CallConnect ?s = Some (b, w)"
    using lbl.connect_returns [of ?s] by auto
  from ether_dream_never_hangs [OF ed_session.call [OF s c]] have "\<not> em_hung (sh_model (lw_shared w))" by (simp add: ed2_r331_def)
  with c show ?thesis by blast
qed


end
