(* ===== verification/Effect_Loops.thy ===== *)
theory Effect_Loops
  imports Effect
begin

text \<open>
  Loops and early returns of effects: the monotonicity rules with which \<open>partial_function\<close>
  accepts a loop written with the combinators, an early \<open>return\<close> as an error that is caught at the
  end of the function, and the rule that a loop keeps what every pass of it keeps.
\<close>

subsection \<open>Lifting\<close>

text \<open>A fallible read of the state, and a panicking computation.\<close>

definition elift :: "('s \<Rightarrow> 'e + 'a) \<Rightarrow> ('s, 'e, 'a) eff" where
  "elift g s = Some (g s, s)"

definition eoption :: "'a option \<Rightarrow> ('s, 'e, 'a) eff" where
  "eoption x s = map_option (\<lambda>a. (Inr a, s)) x"

text \<open>A step on the state that cannot fail and returns a value.\<close>

definition estep :: "('s \<Rightarrow> 'a \<times> 's) \<Rightarrow> ('s, 'e, 'a) eff" where
  "estep f s = Some (Inr (fst (f s)), snd (f s))"

text \<open>A function body whose \<open>return v\<close> is \<^term>\<open>efail v\<close>.\<close>

definition ebody :: "('s, 'a, 'a) eff \<Rightarrow> ('s, 'e, 'a) eff" where
  "ebody m s = (case m s of None \<Rightarrow> None | Some (Inl a, s') \<Rightarrow> Some (Inr a, s') | Some (Inr a, s') \<Rightarrow> Some (Inr a, s'))"

text \<open>An effect whose error is dropped (\<open>let _ = ...\<close>).\<close>

definition eignore :: "('s, 'f, 'a) eff \<Rightarrow> ('s, 'e, unit) eff" where
  "eignore m s = map_option (\<lambda>(r, s'). (Inr (), s')) (m s)"

subsection \<open>Monotonicity\<close>

lemma ebind_as_bind:
  "ebind m k s = Option.bind (m s) (\<lambda>x. case fst x of Inl e \<Rightarrow> Some (Inl e, snd x) | Inr a \<Rightarrow> k a (snd x))"
  by (auto simp: ebind_def split: option.splits sum.splits)

lemma ebind_mono [partial_function_mono]:
  assumes m: "mono_option (\<lambda>f. m f s)" and k: "\<And>a t. mono_option (\<lambda>f. k f a t)"
  shows "mono_option (\<lambda>f. ebind (m f) (k f) s)"
  unfolding ebind_as_bind
proof (rule bind_mono [OF m], goal_cases)
  case (1 x)
  show ?case by (cases "fst x") (simp_all add: k option.const_mono)
qed

lemma ethen_mono [partial_function_mono]:
  "mono_option (\<lambda>f. m f s) \<Longrightarrow> (\<And>t. mono_option (\<lambda>f. k f t)) \<Longrightarrow> mono_option (\<lambda>f. ethen (m f) (k f) s)"
  unfolding ethen_def by (rule ebind_mono)

lemma if_eff_mono [partial_function_mono]:
  "mono_option (\<lambda>f. m f s) \<Longrightarrow> mono_option (\<lambda>f. k f s) \<Longrightarrow> mono_option (\<lambda>f. (if b then m f else k f) s)"
  by (cases b) simp_all

lemma case_sum_eff_mono [partial_function_mono]:
  "(\<And>e. mono_option (\<lambda>f. m f e s)) \<Longrightarrow> (\<And>a. mono_option (\<lambda>f. k f a s)) \<Longrightarrow>
   mono_option (\<lambda>f. (case x of Inl e \<Rightarrow> m f e | Inr a \<Rightarrow> k f a) s)"
  by (cases x) simp_all

lemma case_option_eff_mono [partial_function_mono]:
  "mono_option (\<lambda>f. m f s) \<Longrightarrow> (\<And>a. mono_option (\<lambda>f. k f a s)) \<Longrightarrow>
   mono_option (\<lambda>f. (case x of None \<Rightarrow> m f | Some a \<Rightarrow> k f a) s)"
  by (cases x) simp_all

subsection \<open>Triples\<close>

lemma hoare_elift: "(\<And>s. P s \<Longrightarrow> Q (g s) s) \<Longrightarrow> hoare P (elift g) Q"
  by (simp add: hoare_def elift_def)

lemma hoare_eoption: "(\<And>a s. x = Some a \<Longrightarrow> P s \<Longrightarrow> Q (Inr a) s) \<Longrightarrow> hoare P (eoption x) Q"
  by (auto simp: hoare_def eoption_def)

lemma hoare_estep: "(\<And>s a s'. P s \<Longrightarrow> f s = (a, s') \<Longrightarrow> Q (Inr a) s') \<Longrightarrow> hoare P (estep f) Q"
  by (simp add: hoare_def estep_def)

lemma hoare_ebody:
  "hoare P m (\<lambda>r s. Q (Inr (case r of Inl a \<Rightarrow> a | Inr a \<Rightarrow> a)) s) \<Longrightarrow> hoare P (ebody m) Q"
  by (rule hoareI) (auto simp: ebody_def split: option.splits sum.splits dest: hoareD)

lemma hoare_eignore: "hoare P m (\<lambda>_. Q (Inr ())) \<Longrightarrow> hoare P (eignore m) Q"
  by (rule hoareI) (auto simp: eignore_def dest: hoareD)

lemma hoare_eget: "(\<And>s. P s \<Longrightarrow> Q (Inr (g s)) s) \<Longrightarrow> hoare P (eget g) Q"
  by (simp add: hoare_def eget_def)

lemma hoare_ezoom:
  "(\<And>t. hoare (\<lambda>s. P t \<and> s = get t) m (\<lambda>r s. Q r (put s t))) \<Longrightarrow> hoare P (ezoom get put m) Q"
  by (rule hoareI) (auto simp: ezoom_def split: option.splits dest: hoareD)

lemma hoare_case_option:
  "(x = None \<Longrightarrow> hoare P m Q) \<Longrightarrow> (\<And>a. x = Some a \<Longrightarrow> hoare P (f a) Q) \<Longrightarrow> hoare P (case x of None \<Rightarrow> m | Some a \<Rightarrow> f a) Q"
  by (cases x) simp_all

lemma hoare_case_sum:
  "(\<And>e. x = Inl e \<Longrightarrow> hoare P (g e) Q) \<Longrightarrow> (\<And>a. x = Inr a \<Longrightarrow> hoare P (f a) Q) \<Longrightarrow> hoare P (case x of Inl e \<Rightarrow> g e | Inr a \<Rightarrow> f a) Q"
  by (cases x) simp_all

lemma keeps_lifted [keeps_intros]: "keeps P (elift g)" "keeps P (eoption x)"
  by (auto simp: keeps_def elift_def eoption_def)

lemma keeps_estep [keeps_intros]: "(\<And>s. P s \<Longrightarrow> P (snd (f s))) \<Longrightarrow> keeps P (estep f)"
  by (simp add: keeps_def estep_def)

lemma keeps_ebody [keeps_intros]: "keeps P m \<Longrightarrow> keeps P (ebody m)"
  by (auto simp: keeps_def ebody_def split: option.splits sum.splits)

lemma keeps_eignore [keeps_intros]: "keeps P m \<Longrightarrow> keeps P (eignore m)"
  by (auto simp: keeps_def eignore_def)

lemma keeps_admissible: "option.admissible (\<lambda>f. \<forall>a. keeps P (\<lambda>s. f (g a s)))"
proof -
  have "option.admissible (\<lambda>f. \<forall>x y. f x = Some y \<longrightarrow> (\<forall>a s. x = g a s \<longrightarrow> P s \<longrightarrow> P (snd y)))"
    by (rule option_admissible)
  then show ?thesis by (rule back_subst) (rule arg_cong [where f = option.admissible], rule ext, force simp: keeps_def)
qed

lemma keeps_admissible1: "option.admissible (\<lambda>f. keeps P (\<lambda>s. f (g s)))"
  using keeps_admissible [where g = "\<lambda>_ :: unit. g"] by simp

lemma keeps_none: "keeps P (\<lambda>_. None)"
  by (simp add: keeps_def)

lemma keeps_case_prod [keeps_intros]: "(\<And>a b. x = (a, b) \<Longrightarrow> keeps P (m a b)) \<Longrightarrow> keeps P (case x of (a, b) \<Rightarrow> m a b)"
  by (cases x) simp

lemma keeps_Let [keeps_intros]: "(\<And>y. y = x \<Longrightarrow> keeps P (m y)) \<Longrightarrow> keeps P (Let x m)"
  by simp

lemma hoare_disj: "hoare P m Q \<Longrightarrow> hoare P' m Q \<Longrightarrow> hoare (\<lambda>s. P s \<or> P' s) m Q"
  unfolding hoare_def by blast

lemma hoare_conj: "hoare P m Q \<Longrightarrow> hoare P m Q' \<Longrightarrow> hoare P m (\<lambda>r s. Q r s \<and> Q' r s)"
  unfolding hoare_def by blast

lemma hoare_keeps_post: "keeps P m \<Longrightarrow> (\<And>r s. P s \<Longrightarrow> Q r s) \<Longrightarrow> hoare P m Q"
  unfolding hoare_def keeps_def by blast

subsection \<open>Effects that do not fail\<close>

text \<open>Effects that do not fail, whatever their error type.\<close>

definition infallible :: "('s, 'e, 'a) eff \<Rightarrow> bool" where
  "infallible m \<longleftrightarrow> (\<forall>s r s'. m s = Some (r, s') \<longrightarrow> is_ok r)"

named_theorems infallible_intros \<open>effects that do not fail\<close>

lemma infallible_pure [infallible_intros]:
  "infallible (eret a)" "infallible (emod f)" "infallible (eget g)" "infallible (etry m)" "infallible (eignore m)"
  by (auto simp: infallible_def eret_def emod_def eget_def etry_def eignore_def split: option.splits)

lemma infallibleD: "infallible m \<Longrightarrow> m s = Some (r, s') \<Longrightarrow> is_ok r"
  by (auto simp: infallible_def)

lemma infallible_ebind [infallible_intros]:
  assumes m: "infallible m" and f: "\<And>a. infallible (f a)"
  shows "infallible (ebind m f)"
  unfolding infallible_def
proof (intro allI impI)
  fix s r s' assume "ebind m f s = Some (r, s')"
  then obtain x s1 where x: "m s = Some (x, s1)" and rest: "(case x of Inl e \<Rightarrow> Some (Inl e, s1) | Inr a \<Rightarrow> f a s1) = Some (r, s')"
    by (auto simp: ebind_def split: option.splits)
  show "is_ok r" using infallibleD [OF m x] rest infallibleD [OF f] by (cases x) auto
qed

lemma infallible_ethen [infallible_intros]: "infallible m \<Longrightarrow> infallible k \<Longrightarrow> infallible (ethen m k)"
  by (simp add: ethen_def infallible_ebind)

lemma infallible_if [infallible_intros]: "(b \<Longrightarrow> infallible m) \<Longrightarrow> (\<not> b \<Longrightarrow> infallible k) \<Longrightarrow> infallible (if b then m else k)"
  by simp

lemma hoare_infallible: "hoare P m Q \<Longrightarrow> infallible m \<Longrightarrow> hoare P m (\<lambda>r s. is_ok r \<and> Q r s)"
  by (auto simp: hoare_def infallible_def)

lemma hoare_ethen_ok:
  assumes m: "keeps P m" "infallible m" and k: "hoare P k Q"
  shows "hoare P (ethen m k) Q"
proof (rule hoare_ethen [where R = "\<lambda>r s. is_ok r \<and> P s"])
  show "hoare P m (\<lambda>r s. is_ok r \<and> P s)" using m by (auto simp: hoare_def keeps_def infallible_def)
qed (auto intro: hoare_pre [OF k])

lemma hoare_ebind_ok: "keeps P m \<Longrightarrow> infallible m \<Longrightarrow> (\<And>a. hoare P (f a) Q) \<Longrightarrow> hoare P (ebind m f) Q"
  by (rule hoare_ebind [OF hoare_infallible [OF keeps_hoare]]) (auto elim: hoare_pre)

text \<open>Loops: what every pass establishes, the loop establishes when it returns.\<close>

lemma hoare_admissible: "option.admissible (\<lambda>f. \<forall>a. hoare P (\<lambda>s. f (g a s)) Q)"
proof -
  have "option.admissible (\<lambda>f. \<forall>x y. f x = Some y \<longrightarrow> (\<forall>a s. x = g a s \<longrightarrow> P s \<longrightarrow> Q (fst y) (snd y)))"
    by (rule option_admissible)
  then show ?thesis by (rule back_subst) (rule arg_cong [where f = option.admissible], rule ext, force simp: hoare_def)
qed

lemma hoare_none: "hoare P (\<lambda>_. None) Q"
  by (simp add: hoare_def)

text \<open>Values that loops and branches return.\<close>

lemma yields_hoare: "yields P m Q \<longleftrightarrow> hoare P m (\<lambda>r s. P s \<and> (\<forall>a. r = Inr a \<longrightarrow> Q a))"
  by (simp add: yields_def hoare_def)

lemma yields_admissible: "option.admissible (\<lambda>f. \<forall>a. yields P (\<lambda>s. f (g a s)) Q)"
  unfolding yields_hoare by (rule hoare_admissible)

lemma yields_none: "yields P (\<lambda>_. None) Q"
  by (simp add: yields_def)

lemma yields_after: "keeps P m \<Longrightarrow> (\<And>r. yields P (f r) Q) \<Longrightarrow> yields P (ebind m f) Q"
  by (rule yields_ebind [OF keeps_yields])

lemma yields_case_sum:
  "(\<And>e. x = Inl e \<Longrightarrow> yields P (g e) Q) \<Longrightarrow> (\<And>a. x = Inr a \<Longrightarrow> yields P (f a) Q) \<Longrightarrow>
   yields P (case x of Inl e \<Rightarrow> g e | Inr a \<Rightarrow> f a) Q"
  by (cases x) simp_all

lemma yields_case_option:
  "(x = None \<Longrightarrow> yields P m Q) \<Longrightarrow> (\<And>a. x = Some a \<Longrightarrow> yields P (f a) Q) \<Longrightarrow>
   yields P (case x of None \<Rightarrow> m | Some a \<Rightarrow> f a) Q"
  by (cases x) simp_all

lemma yields_etry:
  assumes "yields P m Q"
  shows "yields P (etry m) (\<lambda>r. \<forall>a. r = Inr a \<longrightarrow> Q a)"
  by (rule yieldsI) (use yieldsD [OF assms] in \<open>auto simp: etry_def split: option.splits\<close>)

lemmas yields_rules = yields_pure(1,2) yields_after yields_ethen yields_if yields_case_sum yields_case_option

end
