(* ===== verification/Backend_Kind.thy ===== *)
theory Backend_Kind
  imports Config Effect_Loops
begin

text \<open>
  \<^verbatim>\<open>src/src/backend.rs\<close>: the traits of the device backends and the wrapper \<open>BackendKind\<close> that the
  scheduler works with. A trait object is a record of its methods; the state of the device, its
  transport and everything else outside the scheduler is one world \<open>'w\<close> that the methods act on.
\<close>

record buffer_estimator =
  be_needs_clock :: bool
  be_fullness :: "instant \<Rightarrow> nat \<Rightarrow> nat"

record 'w dac_backend =
  db_dac_type :: "'w \<Rightarrow> dac_type"
  db_caps :: "'w \<Rightarrow> dac_capabilities"
  db_connect :: "('w, error, unit) eff"
  db_disconnect :: "('w, error, unit) eff"
  db_is_connected :: "'w \<Rightarrow> bool"
  db_stop :: "('w, error, unit) eff"
  db_set_shutter :: "bool \<Rightarrow> ('w, error, unit) eff"

record 'w fifo_backend =
  fb_base :: "'w dac_backend"
  fb_try_write_points :: "nat \<Rightarrow> laser_point list \<Rightarrow> ('w, error, write_outcome) eff"
  fb_estimator :: "'w \<Rightarrow> buffer_estimator"
  fb_target_buffer_ceiling :: "'w \<Rightarrow> nat option"
  fb_reset_device_buffer :: "('w, error, unit) eff"

record 'w frame_swap_backend =
  fs_base :: "'w dac_backend"
  fs_frame_capacity :: "'w \<Rightarrow> nat"
  fs_is_ready_for_frame :: "'w \<Rightarrow> (bool \<times> 'w) option"
  fs_write_frame :: "nat \<Rightarrow> laser_point list \<Rightarrow> ('w, error, write_outcome) eff"
  fs_write_frame_after_ready :: "nat \<Rightarrow> laser_point list \<Rightarrow> ('w, error, write_outcome) eff"

datatype 'w backend_kind = KFifo "'w fifo_backend" | KFrameSwap "'w frame_swap_backend"

subsection \<open>Delegation\<close>

fun bk_base :: "'w backend_kind \<Rightarrow> 'w dac_backend" where
  "bk_base (KFifo b) = fb_base b"
| "bk_base (KFrameSwap b) = fs_base b"

definition bk_is_frame_swap :: "'w backend_kind \<Rightarrow> bool" where
  "bk_is_frame_swap k = (case k of KFrameSwap _ \<Rightarrow> True | KFifo _ \<Rightarrow> False)"

definition bk_caps :: "'w backend_kind \<Rightarrow> 'w \<Rightarrow> dac_capabilities" where
  "bk_caps k = db_caps (bk_base k)"

definition validate_output_model :: "'w backend_kind \<Rightarrow> 'w \<Rightarrow> unit result" where
  "validate_output_model k w =
     (if (output_model_of (bk_caps k w) = UsbFrameSwap) = bk_is_frame_swap k then Inr ()
      else Inl (InvalidConfig ''backend kind disagrees with output model''))"

definition bk_fifo :: "'w fifo_backend \<Rightarrow> 'w \<Rightarrow> 'w backend_kind result" where
  "bk_fifo b w = (case validate_output_model (KFifo b) w of Inl e \<Rightarrow> Inl e | Inr _ \<Rightarrow> Inr (KFifo b))"

definition bk_frame_swap :: "'w frame_swap_backend \<Rightarrow> 'w \<Rightarrow> 'w backend_kind result" where
  "bk_frame_swap b w = (case validate_output_model (KFrameSwap b) w of Inl e \<Rightarrow> Inl e | Inr _ \<Rightarrow> Inr (KFrameSwap b))"

definition bk_disconnect :: "'w backend_kind \<Rightarrow> ('w, error, unit) eff" where
  "bk_disconnect k = db_disconnect (bk_base k)"

definition bk_connect :: "'w backend_kind \<Rightarrow> ('w, error, unit) eff" where
  "bk_connect k =
     ethen (elift (validate_output_model k))
     (ethen (db_connect (bk_base k))
     (ebind (eget (validate_output_model k)) (\<lambda>v. case v of
        Inr _ \<Rightarrow> eret ()
      | Inl invariant_err \<Rightarrow> ebind (etry (bk_disconnect k)) (\<lambda>cleanup. case cleanup of
            Inr _ \<Rightarrow> efail invariant_err
          | Inl _ \<Rightarrow> efail (InvalidConfig ''disconnect after invariant violation also failed'')))))"

definition bk_is_connected :: "'w backend_kind \<Rightarrow> 'w \<Rightarrow> bool" where
  "bk_is_connected k = db_is_connected (bk_base k)"

definition bk_stop :: "'w backend_kind \<Rightarrow> ('w, error, unit) eff" where
  "bk_stop k = db_stop (bk_base k)"

definition bk_set_shutter :: "'w backend_kind \<Rightarrow> bool \<Rightarrow> ('w, error, unit) eff" where
  "bk_set_shutter k = db_set_shutter (bk_base k)"

definition close_and_disconnect :: "'w backend_kind \<Rightarrow> ('w, 'e, unit) eff" where
  "close_and_disconnect k = ethen (eignore (bk_set_shutter k False)) (eignore (bk_disconnect k))"

fun bk_try_write :: "'w backend_kind \<Rightarrow> nat \<Rightarrow> laser_point list \<Rightarrow> ('w, error, write_outcome) eff" where
  "bk_try_write (KFifo b) pps points = fb_try_write_points b pps points"
| "bk_try_write (KFrameSwap b) pps points = fs_write_frame b pps points"

fun bk_write_frame_after_ready :: "'w backend_kind \<Rightarrow> nat \<Rightarrow> laser_point list \<Rightarrow> ('w, error, write_outcome) eff" where
  "bk_write_frame_after_ready (KFrameSwap b) pps points = fs_write_frame_after_ready b pps points"
| "bk_write_frame_after_ready (KFifo b) pps points = efail (InvalidConfig ''write_frame_after_ready called on a FIFO backend'')"

fun bk_estimator :: "'w backend_kind \<Rightarrow> 'w \<Rightarrow> buffer_estimator option" where
  "bk_estimator (KFifo b) w = Some (fb_estimator b w)"
| "bk_estimator (KFrameSwap b) w = None"

fun bk_target_buffer_ceiling :: "'w backend_kind \<Rightarrow> 'w \<Rightarrow> nat option" where
  "bk_target_buffer_ceiling (KFifo b) w = fb_target_buffer_ceiling b w"
| "bk_target_buffer_ceiling (KFrameSwap b) w = None"

fun bk_reset_device_buffer :: "'w backend_kind \<Rightarrow> ('w, error, unit) eff" where
  "bk_reset_device_buffer (KFifo b) = fb_reset_device_buffer b"
| "bk_reset_device_buffer (KFrameSwap b) = eret ()"

fun bk_is_ready_for_frame :: "'w backend_kind \<Rightarrow> ('w, error, bool) eff" where
  "bk_is_ready_for_frame (KFrameSwap b) = (\<lambda>w. map_option (\<lambda>(r, w'). (Inr r, w')) (fs_is_ready_for_frame b w))"
| "bk_is_ready_for_frame (KFifo b) = efail (InvalidConfig ''frame readiness queried on a FIFO backend'')"

fun bk_frame_capacity :: "'w backend_kind \<Rightarrow> 'w \<Rightarrow> nat option" where
  "bk_frame_capacity (KFifo b) w = None"
| "bk_frame_capacity (KFrameSwap b) w = Some (fs_frame_capacity b w)"

subsection \<open>The output model invariant\<close>

text \<open>A successful connect leaves a backend whose capabilities agree with its kind.\<close>

lemma bk_connect_valid:
  assumes "bk_connect k w = Some (Inr (), w')"
  shows "validate_output_model k w' = Inr ()"
  using assms by (auto simp: bk_connect_def elift_def ethen_def ebind_def eget_def etry_def efail_def eret_def
      split: option.splits sum.splits prod.splits)

end
