(* ===== verification/Output_Model.thy ===== *)
theory Output_Model
  imports Backend_Kind Session_Control Content_Source
begin

text \<open>
  \<^verbatim>\<open>src/src/presentation/output_model/\<close>: the state the driver threads through a session, the waits
  that stay responsive to control, and one adapter for each output model, which decides how many
  points are produced, when they are written and what a failed write leads to. The clock, the
  other threads and the sinks are parameters that act on the world: before each access of the
  driver to the shared control handle the other threads may have run.
\<close>

subsection \<open>The scheduler's surroundings\<close>

datatype mark = LoopActivity | WriteSuccess | ConnectedMark bool

record 'w sched =
  sc_now :: "'w \<Rightarrow> instant \<times> 'w"
  sc_sleep :: "duration \<Rightarrow> 'w \<Rightarrow> 'w"
  sc_yield :: "'w \<Rightarrow> 'w"
  sc_others :: "'w \<Rightarrow> 'w"
  sc_control :: "'w \<Rightarrow> session_control"
  sc_set_control :: "session_control \<Rightarrow> 'w \<Rightarrow> 'w"
  sc_mark :: "mark \<Rightarrow> 'w \<Rightarrow> 'w"
  sc_error_sink :: "error \<Rightarrow> 'w \<Rightarrow> 'w"
  sc_sentinel :: instant

text \<open>
  The content sources, as records of the trait's methods on a state. The colour delay that a
  source may read from the control handle while it produces is an argument of \<open>produce_chunk\<close>.
\<close>

record 's source_base =
  sb_cached_slice :: "'s \<Rightarrow> laser_point list option"
  sb_commit_written :: "nat \<Rightarrow> bool \<Rightarrow> 's \<Rightarrow> 's"
  sb_discard_cached :: "'s \<Rightarrow> 's"
  sb_on_reconnect :: "dac_info \<Rightarrow> 's \<Rightarrow> 's"
  sb_submit_frame :: "frame \<Rightarrow> 's \<Rightarrow> 's"
  sb_arm_startup_blank :: "nat \<Rightarrow> 's \<Rightarrow> 's"
  sb_on_disarm :: "'s \<Rightarrow> 's"
  sb_reset_output_filter :: "output_reset_reason \<Rightarrow> 's \<Rightarrow> 's"
  sb_set_color_delay :: "duration \<Rightarrow> 's \<Rightarrow> 's"

record 's fifo_content_source =
  fc_base :: "'s source_base"
  fc_produce_chunk :: "duration \<Rightarrow> 's \<Rightarrow> nat \<Rightarrow> nat \<Rightarrow> bool \<Rightarrow> ('s \<times> laser_point list) option"
  fc_reserve_buf :: "nat \<Rightarrow> 's \<Rightarrow> 's"
  fc_is_ended :: "'s \<Rightarrow> bool"
  fc_take_stop_error :: "'s \<Rightarrow> error option \<times> 's"

record 's frame_content_source =
  fr_base :: "'s source_base"
  fr_produce_frame :: "'s \<Rightarrow> nat \<Rightarrow> bool \<Rightarrow> ('s \<times> laser_point list) option"
  fr_set_frame_capacity :: "nat option \<Rightarrow> 's \<Rightarrow> 's"

datatype 's source_ops = SrcFifo "'s fifo_content_source" | SrcFrame "'s frame_content_source"

fun src_base :: "'s source_ops \<Rightarrow> 's source_base" where
  "src_base (SrcFifo s) = fc_base s"
| "src_base (SrcFrame s) = fr_base s"

datatype shutter_state = ShOpen | ShClosed | ShUnknown

datatype step_outcome = Continue | StateChanged | StepStopped | StepDisconnected

datatype control_action = NoAction | ActStateChanged | ActStop

record network_fifo =
  nf_max_points :: nat
  nf_written_pps :: "nat option"

record udp_timed =
  ut_next_send :: instant
  ut_chunk_points :: nat
  ut_chunk_pps :: nat
  ut_chunk_duration :: duration
  ut_has_retain :: bool
  ut_max_points_per_chunk :: nat

record blocking_fifo =
  bf_chunk_points :: nat
  bf_has_retain :: bool

record usb_frame_swap =
  us_write_pending :: bool
  us_transient_retries :: nat

datatype adapter = ANetworkFifo network_fifo | AUdpTimed udp_timed | ABlockingFifo blocking_fifo
  | AUsbFrameSwap usb_frame_swap

record ('w, 's) driver =
  dr_backend :: "'w backend_kind"
  dr_ops :: "'s source_ops"
  dr_source :: 's
  dr_adapter :: adapter
  dr_shutter :: shutter_state
  dr_handled :: desired_state
  dr_last_reconnect_at :: "instant option"
  dr_world :: 'w

subsection \<open>Access to the surroundings\<close>

definition on_world :: "('w, 'e, 'a) eff \<Rightarrow> (('w, 's) driver, 'e, 'a) eff" where
  "on_world = ezoom dr_world (\<lambda>w d. d\<lparr>dr_world := w\<rparr>)"

definition on_backend :: "('w backend_kind \<Rightarrow> ('w, 'e, 'a) eff) \<Rightarrow> (('w, 's) driver, 'e, 'a) eff" where
  "on_backend op = ebind (eget dr_backend) (\<lambda>k. on_world (op k))"

definition ask_backend :: "('w backend_kind \<Rightarrow> 'w \<Rightarrow> 'a) \<Rightarrow> (('w, 's) driver, 'e, 'a) eff" where
  "ask_backend g = eget (\<lambda>d. g (dr_backend d) (dr_world d))"

definition clock_now :: "'w sched \<Rightarrow> (('w, 's) driver, 'e, instant) eff" where
  "clock_now S = on_world (estep (sc_now S))"

definition clock_sleep :: "'w sched \<Rightarrow> duration \<Rightarrow> (('w, 's) driver, 'e, unit) eff" where
  "clock_sleep S t = on_world (emod (sc_sleep S t))"

definition marks :: "'w sched \<Rightarrow> mark \<Rightarrow> (('w, 's) driver, 'e, unit) eff" where
  "marks S m = on_world (emod (sc_mark S m))"

definition error_sink :: "'w sched \<Rightarrow> error \<Rightarrow> (('w, 's) driver, 'e, unit) eff" where
  "error_sink S e = on_world (emod (sc_error_sink S e))"

definition control_access :: "'w sched \<Rightarrow> (session_control \<Rightarrow> 'a \<times> session_control) \<Rightarrow> ('w, 'e, 'a) eff" where
  "control_access S f = estep (\<lambda>w. let w = sc_others S w; (a, c) = f (sc_control S w) in (a, sc_set_control S c w))"

definition control_read :: "'w sched \<Rightarrow> (session_control \<Rightarrow> 'a) \<Rightarrow> (('w, 's) driver, 'e, 'a) eff" where
  "control_read S g = on_world (estep (\<lambda>w. let w = sc_others S w in (g (sc_control S w), w)))"

text \<open>Receiving from the channel without waiting; \<open>None\<close> is \<open>Empty\<close> or \<open>Disconnected\<close>.\<close>

definition try_recv :: "session_control \<Rightarrow> control_msg option \<times> session_control" where
  "try_recv c = (case ctl_queue c of [] \<Rightarrow> (None, c) | m # ms \<Rightarrow> (Some m, c\<lparr>ctl_queue := ms\<rparr>))"

partial_function (option) process_messages ::
  "'w sched \<Rightarrow> control_action \<Rightarrow> ('w, 's) driver \<Rightarrow> (('e + control_action) \<times> ('w, 's) driver) option" where
  "process_messages S action d =
     ebind (on_world (control_access S try_recv)) (\<lambda>m.
       case m of None \<Rightarrow> eret action
       | Some x \<Rightarrow> if x = MsgStop then eret ActStop else process_messages S ActStateChanged) d"

definition process_control_messages :: "'w sched \<Rightarrow> (('w, 's) driver, 'e, control_action) eff" where
  "process_control_messages S = process_messages S NoAction"

text \<open>A shutter command and what the driver then knows of the shutter.\<close>

definition drive_shutter :: "bool \<Rightarrow> (('w, 's) driver, 'e, unit) eff" where
  "drive_shutter opn =
     ebind (etry (on_backend (\<lambda>k. bk_set_shutter k opn))) (\<lambda>r.
       emod (\<lambda>d. d\<lparr>dr_shutter := (case r of Inr _ \<Rightarrow> if opn then ShOpen else ShClosed | Inl _ \<Rightarrow> ShUnknown)\<rparr>))"

definition close_if_disarmed :: "'w sched \<Rightarrow> (('w, 's) driver, 'e, unit) eff" where
  "close_if_disarmed S =
     ebind (control_read S ctl_is_armed) (\<lambda>armed. ebind (eget dr_shutter) (\<lambda>sh.
       if \<not> armed \<and> sh \<noteq> ShClosed then drive_shutter False else eret ()))"

subsection \<open>Waits\<close>

text \<open>The part of both waits after their sleep: the stop flag, the safety closing, the messages.\<close>

definition wait_checks :: "'w sched \<Rightarrow> (('w, 's) driver, step_outcome, unit) eff" where
  "wait_checks S =
     ethen (marks S LoopActivity)
     (ebind (control_read S ctl_stop) (\<lambda>stop. if stop then efail StepStopped else
      ethen (close_if_disarmed S)
      (ebind (process_control_messages S) (\<lambda>a. case a of
         ActStop \<Rightarrow> efail StepStopped
       | ActStateChanged \<Rightarrow> efail StateChanged
       | NoAction \<Rightarrow> eret ()))))"

partial_function (option) control_check_loop ::
  "'w sched \<Rightarrow> instant \<Rightarrow> ('w, 's) driver \<Rightarrow> ((step_outcome + unit) \<times> ('w, 's) driver) option" where
  "control_check_loop S deadline d =
     ebind (clock_now S) (\<lambda>t. if deadline - t = 0 then eret ()
       else ethen (clock_sleep S (min (deadline - t) (from_millis 2)))
            (ethen (wait_checks S) (control_check_loop S deadline))) d"

definition sleep_with_control_check :: "'w sched \<Rightarrow> duration \<Rightarrow> (('w, 's) driver, step_outcome, unit) eff" where
  "sleep_with_control_check S dur = ebind (clock_now S) (\<lambda>t. control_check_loop S (t + dur))"

definition BUSY_WAIT_THRESHOLD :: duration where "BUSY_WAIT_THRESHOLD = from_micros 500"

partial_function (option) sleep_until_precise ::
  "'w sched \<Rightarrow> instant \<Rightarrow> ('w, 's) driver \<Rightarrow> ((step_outcome + unit) \<times> ('w, 's) driver) option" where
  "sleep_until_precise S deadline d =
     ebind (clock_now S) (\<lambda>t. if deadline \<le> t then eret ()
       else ethen (if BUSY_WAIT_THRESHOLD < deadline - t
                   then clock_sleep S (min (deadline - t - BUSY_WAIT_THRESHOLD) (from_millis 1))
                   else on_world (emod (sc_yield S)))
            (ethen (wait_checks S) (sleep_until_precise S deadline))) d"

definition sleep_and_mark_activity :: "'w sched \<Rightarrow> duration \<Rightarrow> (('w, 's) driver, 'e, unit) eff" where
  "sleep_and_mark_activity S t = ethen (clock_sleep S t) (marks S LoopActivity)"

subsection \<open>Shared by the adapters\<close>

definition estimator_fullness :: "'w sched \<Rightarrow> nat \<Rightarrow> (('w, 's) driver, 'e, nat) eff" where
  "estimator_fullness S pps =
     ebind (ask_backend bk_estimator) (\<lambda>est. case est of None \<Rightarrow> eret 0
       | Some e \<Rightarrow> ebind (if be_needs_clock e then clock_now S else eret (sc_sentinel S)) (\<lambda>t. eret (be_fullness e t pps)))"

definition blank_and_close_shutter :: "nat \<Rightarrow> (('w, 's) driver, 'e, unit) eff" where
  "blank_and_close_shutter pps =
     ethen (drive_shutter False)
       (eignore (on_backend (\<lambda>k. bk_try_write k pps (replicate 16 (blanked (Fin 0) (Fin 0))))))"

partial_function (option) drain_loop ::
  "'w sched \<Rightarrow> instant \<Rightarrow> nat \<Rightarrow> instant \<Rightarrow> ('w, 's) driver \<Rightarrow> (('e + unit) \<times> ('w, 's) driver) option" where
  "drain_loop S deadline drain_pps t d =
     (if \<not> t < deadline then eret () else
      ebind (estimator_fullness S drain_pps) (\<lambda>buffered. if buffered = 0 then eret () else
      ebind (control_read S ctl_stop) (\<lambda>stop. if stop then eret () else
      ethen (close_if_disarmed S)
      (ebind (process_control_messages S) (\<lambda>a. if a \<noteq> NoAction then eret () else
      ethen (clock_sleep S (from_millis 5))
      (ethen (marks S LoopActivity)
      (ebind (clock_now S) (\<lambda>t'. drain_loop S deadline drain_pps t')))))))) d"

definition drain_via_estimator :: "'w sched \<Rightarrow> nat \<Rightarrow> duration \<Rightarrow> (('w, 's) driver, 'e, unit) eff" where
  "drain_via_estimator S pps timeout =
     (if timeout = 0 then eret ()
      else ebind (ask_backend (\<lambda>k w. min pps (pps_max (bk_caps k w)))) (\<lambda>drain_pps.
           ebind (clock_now S) (\<lambda>start. drain_loop S (start + timeout) drain_pps start)))"

definition source_mismatch :: "'w sched \<Rightarrow> (('w, 's) driver, 'e, step_outcome) eff" where
  "source_mismatch S =
     ethen (error_sink S (InvalidConfig ''adapter requires a content source matching its output model''))
       (eret StepStopped)"

text \<open>The arms that every adapter has for a failed write.\<close>

definition failed_write :: "'w sched \<Rightarrow> error \<Rightarrow> (('w, 's) driver, 'e, step_outcome) eff" where
  "failed_write S e =
     (if is_stopped e then eret StepStopped
      else if is_disconnected e then ethen (error_sink S e) (eret StepDisconnected)
      else ethen (eignore (on_backend bk_disconnect)) (ethen (error_sink S e) (eret StepDisconnected)))"

definition mod_source :: "('s \<Rightarrow> 's) \<Rightarrow> (('w, 's) driver, 'e, unit) eff" where
  "mod_source h = emod (\<lambda>d. d\<lparr>dr_source := h (dr_source d)\<rparr>)"

definition set_adapter :: "adapter \<Rightarrow> (('w, 's) driver, 'e, unit) eff" where
  "set_adapter a = emod (\<lambda>d. d\<lparr>dr_adapter := a\<rparr>)"

definition produce_chunk :: "'w sched \<Rightarrow> 's fifo_content_source \<Rightarrow> nat \<Rightarrow> nat \<Rightarrow> bool \<Rightarrow> (('w, 's) driver, 'e, laser_point list) eff" where
  "produce_chunk S src n pps armed =
     ebind (control_read S ctl_color_delay) (\<lambda>delay. ebind (eget dr_source) (\<lambda>s.
     ebind (eoption (fc_produce_chunk src delay s n pps armed)) (\<lambda>(s', pts).
     ethen (emod (\<lambda>d. d\<lparr>dr_source := s'\<rparr>)) (eret pts))))"

definition cached_slice :: "(('w, 's) driver, 'e, laser_point list option) eff" where
  "cached_slice = eget (\<lambda>d. sb_cached_slice (src_base (dr_ops d)) (dr_source d))"

definition produce_frame :: "'s frame_content_source \<Rightarrow> nat \<Rightarrow> bool \<Rightarrow> (('w, 's) driver, 'e, laser_point list) eff" where
  "produce_frame src pps armed =
     ebind (eget dr_source) (\<lambda>s. ebind (eoption (fr_produce_frame src s pps armed)) (\<lambda>(s', pts).
     ethen (emod (\<lambda>d. d\<lparr>dr_source := s'\<rparr>)) (eret pts)))"

text \<open>The retained slice, if any, offered to the device: its length and the outcome of the write.\<close>

definition offer :: "('w backend_kind \<Rightarrow> laser_point list \<Rightarrow> ('w, error, write_outcome) eff) \<Rightarrow>
    (('w, 's) driver, 'e, (nat \<times> write_outcome result) option) eff" where
  "offer wr = ebind cached_slice (\<lambda>c. case c of None \<Rightarrow> eret None
     | Some sl \<Rightarrow> ebind (etry (on_backend (\<lambda>k. wr k sl))) (\<lambda>out. eret (Some (length sl, out))))"

definition commit_written :: "nat \<Rightarrow> bool \<Rightarrow> (('w, 's) driver, 'e, unit) eff" where
  "commit_written n armed = emod (\<lambda>d. d\<lparr>dr_source := sb_commit_written (src_base (dr_ops d)) n armed (dr_source d)\<rparr>)"

end
