(* ===== verification/Session_Sources.thy ===== *)
theory Session_Sources
  imports Slice_Pipeline Chunk_Producer Output_Model
begin

text \<open>
  The content sources of the two session kinds as the driver sees them: the trait implementations
  of \<open>SlicePipeline\<close> (both traits) and of \<open>ChunkProducer\<close>. The contract \<open>dark_source\<close> says what a
  source promises about darkness: from a state without light, everything a session does while
  disarmed leads to states without light. All three implementations keep it.
\<close>

definition pipeline_base :: "'f slice_pipeline source_base" where
  "pipeline_base =
     \<lparr>sb_cached_slice = sp_cached_slice, sb_commit_written = sp_commit_written, sb_discard_cached = sp_invalidate,
      sb_on_reconnect = (\<lambda>info. replay_after_reconnect), sb_submit_frame = sp_set_pending,
      sb_arm_startup_blank = sp_arm_startup_blank, sb_on_disarm = sp_reset_color_delay,
      sb_reset_output_filter = sp_reset_output_filter, sb_set_color_delay = sp_set_color_delay\<rparr>"

definition pipeline_fifo :: "'f slice_pipeline source_ops" where
  "pipeline_fifo = SrcFifo
     \<lparr>fc_base = pipeline_base, fc_produce_chunk = (\<lambda>delay. produce_fifo_chunk), fc_reserve_buf = sp_reserve_buf,
      fc_is_ended = (\<lambda>p. False), fc_take_stop_error = (\<lambda>p. (None, p))\<rparr>"

definition pipeline_frame :: "'f slice_pipeline source_ops" where
  "pipeline_frame = SrcFrame
     \<lparr>fr_base = pipeline_base, fr_produce_frame = produce_frame_swap, fr_set_frame_capacity = sp_set_frame_capacity\<rparr>"

text \<open>The streaming source takes no frames and has no filter: those methods are the trait's empty defaults.\<close>

definition producer_fifo :: "'p chunk_producer source_ops" where
  "producer_fifo = SrcFifo
     \<lparr>fc_base = \<lparr>sb_cached_slice = cp_cached_slice, sb_commit_written = cp_commit_written, sb_discard_cached = cp_invalidate,
        sb_on_reconnect = cp_on_reconnect, sb_submit_frame = (\<lambda>f c. c), sb_arm_startup_blank = cp_arm_startup_blank,
        sb_on_disarm = cp_on_disarm, sb_reset_output_filter = (\<lambda>r c. c), sb_set_color_delay = (\<lambda>d c. c)\<rparr>,
      fc_produce_chunk = cp_produce_chunk, fc_reserve_buf = ensure_buf, fc_is_ended = cp_ended,
      fc_take_stop_error = cp_take_stop_error\<rparr>"

subsection \<open>Darkness\<close>

locale dark_source =
  fixes ops :: "'s source_ops" and ok :: "'s \<Rightarrow> bool"
  assumes cached: "ok s \<Longrightarrow> sb_cached_slice (src_base ops) s = Some sl \<Longrightarrow> list_all dark sl"
    and chunk: "ok s \<Longrightarrow> ops = SrcFifo f \<Longrightarrow> fc_produce_chunk f delay s n pps False = Some (s', pts) \<Longrightarrow> ok s'"
    and frame: "ok s \<Longrightarrow> ops = SrcFrame g \<Longrightarrow> fr_produce_frame g s pps False = Some (s', pts) \<Longrightarrow> ok s'"
    and room: "ok s \<Longrightarrow> ops = SrcFifo f \<Longrightarrow> ok (fc_reserve_buf f n s)"
    and ending: "ok s \<Longrightarrow> ops = SrcFifo f \<Longrightarrow> ok (snd (fc_take_stop_error f s))"
    and capacity: "ok s \<Longrightarrow> ops = SrcFrame g \<Longrightarrow> ok (fr_set_frame_capacity g c s)"
    and lifecycle: "ok s \<Longrightarrow> ok (sb_commit_written (src_base ops) n False s)" "ok s \<Longrightarrow> ok (sb_discard_cached (src_base ops) s)"
      "ok s \<Longrightarrow> ok (sb_on_reconnect (src_base ops) info s)" "ok s \<Longrightarrow> ok (sb_submit_frame (src_base ops) fr s)"
      "ok s \<Longrightarrow> ok (sb_arm_startup_blank (src_base ops) pps s)" "ok s \<Longrightarrow> ok (sb_on_disarm (src_base ops) s)"
      "ok s \<Longrightarrow> ok (sb_reset_output_filter (src_base ops) r s)" "ok s \<Longrightarrow> ok (sb_set_color_delay (src_base ops) delay s)"

abbreviation black :: "color_delay \<Rightarrow> bool" where
  "black l \<equiv> \<forall>c\<in>set (cd_carry l). c = (0, 0, 0, 0)"

lemma black_ops [simp]: "black (cd_new n)" "black (cd_reset l)"
  by (simp_all add: cd_new_def cd_reset_def)

text \<open>Dark points through a black delay line.\<close>

lemma delayed_dark:
  assumes "cd_inv l" "black l" "\<forall>p\<in>set ps. dark p" "cd_apply (cd_resize n l) ps = Some (l', ps')"
  shows "cd_inv l'" "black l'" "list_all dark ps'" "length ps' = length ps"
proof -
  have i: "cd_inv (cd_resize n l)" using assms(1) by simp
  from cd_apply_dark [OF i assms(4) cd_resize_black [OF assms(2)] assms(3)]
  show "black l'" "list_all dark ps'" by (simp_all add: list_all_iff)
  obtain l1 ps1 where "cd_apply (cd_resize n l) ps = Some (l1, ps1)" "cd_inv l1" "map pxy ps1 = map pxy ps"
    using cd_apply_law [OF i, of ps] by blast
  then show "cd_inv l'" "length ps' = length ps" using assms(4) by (auto dest: map_eq_imp_length_eq)
qed

text \<open>A pipeline without light: no filter, a black delay line, and a dark slice if one is retained.\<close>

definition sp_dark :: "'f slice_pipeline \<Rightarrow> bool" where
  "sp_dark p \<longleftrightarrow> sp_output_filter p = None \<and> cd_inv (sp_color_delay p) \<and> black (sp_color_delay p) \<and>
     sp_cached_len p \<le> length (sp_buf p) \<and> (sp_cached p \<longrightarrow> list_all dark (take (sp_cached_len p) (sp_buf p)))"

lemma finish_slice_dark:
  assumes "sp_output_filter p = None" "cd_inv (sp_color_delay p)" "black (sp_color_delay p)" "n \<le> length (sp_buf p)"
    "finish_slice kind cyclic filtered n pps False p = Some (p', ps)"
  shows "sp_dark p'"
proof -
  let ?l = "cd_resize (duration_to_points (sp_color_delay_duration p) pps) (sp_color_delay p)"
  let ?park = "replicate n (park_point (sp_idle_policy p))"
  obtain l' qs where a: "cd_apply ?l ?park = Some (l', qs)"
    using assms(1,4,5) by (auto simp: finish_slice_def apply_blanking_def Let_def split: option.splits)
  have d: "\<forall>p\<in>set ?park. dark p" by simp
  note q = delayed_dark [OF assms(2,3) d a]
  have "sp_output_filter p' = None" "sp_color_delay p' = l'" "sp_buf p' = qs @ drop n (sp_buf p)" "sp_cached_len p' = n"
    using assms(1,4,5) a by (auto simp: finish_slice_def apply_blanking_def Let_def split: option.splits)
  then show ?thesis using q assms(4) by (simp add: sp_dark_def)
qed

lemma pipeline_produce_dark:
  assumes "sp_dark p"
  shows "produce_fifo_chunk p n pps False = Some (p', ps) \<Longrightarrow> sp_dark p'"
    "produce_frame_swap p pps False = Some (p', ps) \<Longrightarrow> sp_dark p'"
proof -
  show "sp_dark p'" if run: "produce_fifo_chunk p n pps False = Some (p', ps)"
  proof -
    obtain e out where e: "fill_chunk (sp_engine (sp_reserve_buf n p)) (length (sp_buf (sp_reserve_buf n p))) n pps = Some (e, out)"
      using run by (auto simp: produce_fifo_chunk_def Let_def split: option.splits)
    define p1 where "p1 = (sp_reserve_buf n p)\<lparr>sp_engine := e, sp_buf := out @ drop (length out) (sp_buf (sp_reserve_buf n p))\<rparr>"
    have p1: "sp_output_filter p1 = None" "cd_inv (sp_color_delay p1)" "black (sp_color_delay p1)" "length out \<le> length (sp_buf p1)"
      using assms by (auto simp: p1_def sp_dark_def sp_reserve_buf_def)
    have "(if length out = 0 then Some (sp_invalidate p1, [])
        else finish_slice FifoChunk False (has_logical_frame e) (length out) pps False p1) = Some (p', ps)"
      using run e by (cases "out = []") (auto simp: produce_fifo_chunk_def Let_def p1_def)
    then show ?thesis using finish_slice_dark [OF p1] p1 by (auto simp: sp_invalidate_def sp_dark_def split: if_splits)
  qed
  show "sp_dark p'" if run: "produce_frame_swap p pps False = Some (p', ps)"
  proof -
    obtain e where e: "compose_hardware_frame (sp_engine p) pps = Some e"
      using run by (auto simp: produce_frame_swap_def split: option.splits)
    let ?n = "length (drawable e)" and ?q = "p\<lparr>sp_engine := e\<rparr>"
    define p1 where "p1 = (sp_reserve_buf ?n ?q)\<lparr>sp_buf := drawable e @ drop ?n (sp_buf (sp_reserve_buf ?n ?q))\<rparr>"
    have p1: "sp_output_filter p1 = None" "cd_inv (sp_color_delay p1)" "black (sp_color_delay p1)" "?n \<le> length (sp_buf p1)"
      using assms by (auto simp: p1_def sp_dark_def sp_reserve_buf_def)
    have "(if drawable e = [] then Some (sp_invalidate ?q, []) else finish_slice FrameSwapFrame True True ?n pps False p1) = Some (p', ps)"
      using run e by (cases "drawable e = []") (auto simp: produce_frame_swap_def Let_def p1_def)
    then show ?thesis using finish_slice_dark [OF p1] assms by (auto simp: sp_invalidate_def sp_dark_def split: if_splits)
  qed
qed

lemma pipeline_ops_dark:
  assumes "sp_dark p"
  shows "sp_dark (sp_invalidate p)" "sp_dark (replay_after_reconnect p)" "sp_dark (sp_set_pending f p)" "sp_dark (sp_arm_startup_blank pps p)"
    "sp_dark (sp_reset_color_delay p)" "sp_dark (sp_reset_output_filter r p)" "sp_dark (sp_set_color_delay delay p)"
    "sp_dark (sp_reserve_buf n p)" "sp_dark (sp_set_frame_capacity c p)"
  using assms
  by (simp_all add: sp_dark_def sp_invalidate_def replay_after_reconnect_def sp_set_pending_def sp_arm_startup_blank_def
      sp_reset_color_delay_def sp_reset_output_filter_def sp_set_color_delay_def sp_reserve_buf_def sp_set_frame_capacity_def
      sp_reset_engine_def Let_def split: option.split)

lemma sp_dark_cached: "sp_dark p \<Longrightarrow> sp_cached_slice p = Some sl \<Longrightarrow> list_all dark sl"
  by (auto simp: sp_dark_def sp_cached_slice_def split: if_splits)

interpretation fifo_pipeline: dark_source pipeline_fifo sp_dark
  by unfold_locales
    (auto simp: pipeline_fifo_def pipeline_base_def sp_commit_written_def pipeline_ops_dark dest: sp_dark_cached pipeline_produce_dark)

interpretation frame_pipeline: dark_source pipeline_frame sp_dark
  by unfold_locales
    (auto simp: pipeline_frame_def pipeline_base_def sp_commit_written_def pipeline_ops_dark dest: sp_dark_cached pipeline_produce_dark)

text \<open>The same of the streaming source; its callback is any that writes within the buffer it is given.\<close>

definition cp_dark :: "'p chunk_producer \<Rightarrow> bool" where
  "cp_dark c \<longleftrightarrow> cp_inv c \<and> black (cp_color_delay_line c) \<and> (\<forall>sl. cp_cached_slice c = Some sl \<longrightarrow> list_all dark sl)"

lemma resolve_none: "resolve_result target armed result c = (None, d) \<Longrightarrow> \<not> cp_cached d"
  by (auto simp: resolve_result_def Let_def cp_invalidate_def split: chunk_result.splits if_splits prod.splits)

lemma cp_produce_empty:
  assumes i: "cp_inv c" and run: "cp_produce_chunk delay c n pps armed = Some (c', [])"
  shows "cp_color_delay_line c' = cp_color_delay_line c \<and> (cp_cached_slice c' = None \<or> cp_cached_slice c' = cp_cached_slice c)"
proof (cases "cp_ended c \<or> n = 0")
  case True
  then show ?thesis using run by (auto simp: cp_produce_chunk_def cp_invalidate_def cp_cached_slice_def split: if_splits)
next
  case False
  define c0 where "c0 = ensure_buf n c"
  obtain s' qs result where fl: "cp_fill c0 (cp_state c0) (build_request n pps c0) (take n (cp_buf c0)) = (s', qs, result)"
    using prod_cases3 by blast
  define c1 where "c1 = cp_write qs (c0\<lparr>cp_state := s'\<rparr>)"
  obtain m d where rr: "resolve_result n armed result c1 = (m, d)" by fastforce
  have c0: "n \<le> length (cp_buf c0)" "fill_keeps_length (cp_fill c0)" "cp_color_delay_line c0 = cp_color_delay_line c" "cd_inv (cp_color_delay_line c)"
    using i by (auto simp: c0_def ensure_buf_def cp_inv_def)
  then have "length qs = n" using fl unfolding fill_keeps_length_def by (metis fst_conv snd_conv length_take min.absorb2)
  then have c1: "0 < n" "n \<le> length (cp_buf c1)" "cp_color_delay_line c1 = cp_color_delay_line c"
    using False c0 by (simp_all add: c1_def cp_write_def)
  note fr = resolve_result_frame [OF c1(1,2) rr]
  let ?e = "\<lambda>k. d\<lparr>cp_pending_raw := take k (cp_buf d) @ drop k (cp_pending_raw d), cp_pending_raw_len := k\<rparr>"
  have eq: "cp_produce_chunk delay c n pps armed = (case m of None \<Rightarrow> Some (d, [])
      | Some k \<Rightarrow> (case apply_blanking_and_color_delay k pps armed delay (?e k) of None \<Rightarrow> None
          | Some c \<Rightarrow> Some (c\<lparr>cp_cached_len := k, cp_cached := True\<rparr>, take k (cp_buf c))))"
    using False fl rr by (cases m) (simp_all add: cp_produce_chunk_def Let_def flip: c0_def c1_def)
  have d: "cp_color_delay_line d = cp_color_delay_line c" "length (cp_buf d) = length (cp_buf c1)"
    using fr(1) c1(3) by (simp_all add: cp_frame_def)
  show ?thesis
  proof (cases m)
    case None
    then show ?thesis using run eq d resolve_none [of n armed result c1 d] rr by (simp add: cp_cached_slice_def)
  next
    case (Some k)
    have "0 < k" "k \<le> length (cp_buf (?e k))" using fr(2) [OF Some] d c1 by auto
    moreover have "cd_inv (cp_color_delay_line (?e k))" using d c0(4) by simp
    ultimately show ?thesis using blank_delay_spec [of "?e k" k pps armed delay] run eq Some by auto
  qed
qed

lemma cp_produce_dark:
  assumes c: "cp_dark c" and run: "cp_produce_chunk delay c n pps False = Some (c', ps)"
  shows "cp_dark c'"
proof (cases "ps = []")
  case False
  have i: "cp_inv c" "black (cp_color_delay_line c)" using c by (simp_all add: cp_dark_def)
  obtain d where s: "cp_inv c'" "cp_cached_slice c' = Some ps"
    "cd_apply (cd_resize (duration_to_points delay pps) (cp_color_delay_line c)) (cp_blanked (length ps) False (d :: 'a chunk_producer)) =
      Some (cp_color_delay_line c', ps)"
    using cp_produce_chunk_spec [OF i(1), of delay n pps False] run False by auto
  have "\<forall>p\<in>set (cp_blanked (length ps) False d). dark p" by (simp add: cp_blanked_def)
  from delayed_dark [OF _ i(2) this s(3)] s(1,2) i(1) show ?thesis by (simp add: cp_dark_def cp_inv_def)
next
  case True
  have i: "cp_inv c" using c by (simp add: cp_dark_def)
  have "cp_inv c'" using cp_produce_chunk_spec [OF i, of delay n pps False] run by auto
  then show ?thesis using cp_produce_empty [OF i run [unfolded True]] c by (auto simp: cp_dark_def)
qed

lemma cp_dark_cached: "cp_dark c \<Longrightarrow> cp_cached_slice c = Some sl \<Longrightarrow> list_all dark sl"
  by (simp add: cp_dark_def)

lemma cp_ops_dark:
  assumes "cp_dark c"
  shows "cp_dark (cp_commit_written n False c)" "cp_dark (cp_invalidate c)" "cp_dark (cp_on_reconnect info c)" "cp_dark (cp_arm_startup_blank pps c)"
    "cp_dark (cp_on_disarm c)" "cp_dark (ensure_buf n c)" "cp_dark (snd (cp_take_stop_error c))"
  using assms
  by (auto simp: cp_dark_def cp_commit_written_def cp_invalidate_def cp_on_reconnect_def cp_arm_startup_blank_def cp_on_disarm_def
      ensure_buf_def cp_take_stop_error_def cp_inv_def cp_cached_slice_def grow_to_def Let_def)

interpretation producer: dark_source producer_fifo cp_dark
  by unfold_locales
    (auto simp: producer_fifo_def cp_ops_dark cp_dark_cached dest: cp_produce_dark)

end
