(* ===== verification/Adapters.thy ===== *)
theory Adapters
  imports Output_Model
begin

text \<open>
  The four adapters of \<^verbatim>\<open>src/src/presentation/output_model/\<close>, one for each output model. A step is
  the whole \<open>step\<close> method, its early returns included; the adapter's own fields are a part of the
  driver's state. \<open>recompute_chunk\<close> and the pacing waits compute in \<open>f64\<close> as the source does, and
  the panic of \<open>Duration::from_secs_f64\<close> is a panic of the step.
\<close>

subsection \<open>NetworkFifo\<close>

definition MIN_WRITE_QUANTUM_SECS :: fp where "MIN_WRITE_QUANTUM_SECS = fround F64 (5 / 1000)"
definition MIN_WRITE_QUANTUM_FLOOR :: nat where "MIN_WRITE_QUANTUM_FLOOR = 16"
definition WOULDBLOCK_STALL_TIMEOUT :: duration where "WOULDBLOCK_STALL_TIMEOUT = 2 * nanos_per_sec"

definition nf_new :: "'w backend_kind \<Rightarrow> 'w \<Rightarrow> network_fifo" where
  "nf_new k w = \<lparr>nf_max_points = max_points_per_chunk (bk_caps k w), nf_written_pps = None\<rparr>"

definition target_buffer_f64 :: "duration \<Rightarrow> nat \<Rightarrow> nat option \<Rightarrow> fp" where
  "target_buffer_f64 target_buffer pps ceil =
     (let requested = fmul F64 (as_secs_f64 target_buffer) (fof_int F64 (int pps))
      in case ceil of Some c \<Rightarrow> fmin requested (fof_int F64 (int (max c 1))) | None \<Rightarrow> requested)"

definition write_quantum :: "nat \<Rightarrow> nat \<Rightarrow> nat \<Rightarrow> nat" where
  "write_quantum pps max_points target =
     min (min (max (f2nat 64 (fceil (fmul F64 MIN_WRITE_QUANTUM_SECS (fof_int F64 (int pps))))) MIN_WRITE_QUANTUM_FLOOR)
       max_points) target"

text \<open>The time in which \<open>n\<close> points play, as the pacing waits compute it.\<close>

definition play_time :: "nat \<Rightarrow> nat \<Rightarrow> duration option" where
  "play_time n pps = from_secs_f64 (fdiv F64 (fof_int F64 (int n)) (fmax (fof_int F64 (int pps)) (Fin 1)))"

text \<open>What follows a refused write inside the spin, up to the next attempt.\<close>

definition nf_backoff :: "'w sched \<Rightarrow> bool \<Rightarrow> instant \<Rightarrow> desired_state \<Rightarrow> (('w, 's) driver, step_outcome, unit) eff" where
  "nf_backoff S armed spin_start desired_at_start =
     ethen (marks S LoopActivity)
     (ethen (on_world (emod (sc_yield S)))
     (ebind (control_read S ctl_stop) (\<lambda>stop. if stop then efail StepStopped else
      ebind (process_control_messages S) (\<lambda>action.
      ethen (close_if_disarmed S)
      (if action = ActStop then efail StepStopped
       else if action = ActStateChanged then efail StateChanged
       else
         ebind (control_read S ctl_is_armed) (\<lambda>armed_now. if armed_now \<noteq> armed then efail StateChanged else
         ebind (control_read S ctl_desired) (\<lambda>desired. if desired \<noteq> desired_at_start then efail StateChanged else
         ebind (clock_now S) (\<lambda>t. if WOULDBLOCK_STALL_TIMEOUT \<le> t - spin_start
           then ethen (eignore (on_backend bk_disconnect))
                (ethen (error_sink S (DisconnectedErr ''write stalled: continuous WouldBlock''))
                (efail StepDisconnected))
           else ethen (clock_sleep S (from_micros 100)) (marks S LoopActivity)))))))))"

partial_function (option) nf_spin ::
  "'w sched \<Rightarrow> network_fifo \<Rightarrow> nat \<Rightarrow> bool \<Rightarrow> nat \<Rightarrow> instant \<Rightarrow> desired_state \<Rightarrow>
   ('w, 's) driver \<Rightarrow> ((step_outcome + step_outcome) \<times> ('w, 's) driver) option" where
  "nf_spin S a pps armed n spin_start desired_at_start d =
     ebind (offer (\<lambda>k. bk_try_write k pps)) (\<lambda>c. case c of None \<Rightarrow> efail Continue
     | Some x \<Rightarrow> (case snd x of
         Inl e \<Rightarrow> failed_write S e
       | Inr r \<Rightarrow> if r = Written
           then ethen (marks S WriteSuccess)
                (ethen (set_adapter (ANetworkFifo (a\<lparr>nf_written_pps := Some pps\<rparr>)))
                (ethen (commit_written n armed) (eret Continue)))
           else ethen (nf_backoff S armed spin_start desired_at_start)
                (nf_spin S a pps armed n spin_start desired_at_start))) d"

definition nf_step :: "'w sched \<Rightarrow> duration \<Rightarrow> network_fifo \<Rightarrow> nat \<Rightarrow> bool \<Rightarrow> (('w, 's) driver, 'e, step_outcome) eff" where
  "nf_step S target_buffer a pps armed = ebody (
     ebind (ask_backend bk_target_buffer_ceiling) (\<lambda>ceil.
     let target_f = target_buffer_f64 target_buffer pps ceil;
         target = f2nat 64 target_f;
         quantum = write_quantum pps (nf_max_points a) target;
         drain_pps = (case nf_written_pps a of Some p \<Rightarrow> p | None \<Rightarrow> pps);
         rate_pending = (drain_pps \<noteq> pps)
     in ebind (estimator_fullness S drain_pps) (\<lambda>buffered.
       if target < buffered \<and> \<not> rate_pending
       then ebind (eoption (play_time (buffered - target) pps)) (\<lambda>t.
            ethen (sleep_with_control_check S t) (efail Continue))
       else
         let deficit = fmax (fsub F64 target_f (fof_int F64 (int buffered))) (Fin 0);
             target_points = min (f2nat 64 (fceil deficit)) (nf_max_points a);
             target_points = (if rate_pending then max (max target_points quantum) 1 else target_points)
         in if target_points = 0 then ethen (sleep_and_mark_activity S (from_millis 1)) (efail Continue)
            else if target_points < quantum
            then ebind (eoption (play_time (quantum - target_points) pps)) (\<lambda>t.
                 ethen (sleep_with_control_check S t) (efail Continue))
            else ebind (eget dr_ops) (\<lambda>ops. case ops of
                SrcFrame _ \<Rightarrow> source_mismatch S
              | SrcFifo src \<Rightarrow> ebind (produce_chunk S src target_points pps armed) (\<lambda>pts.
                  if pts = [] then ethen (sleep_and_mark_activity S (from_millis 1)) (efail Continue)
                  else ebind (clock_now S) (\<lambda>spin_start. ebind (control_read S ctl_desired) (\<lambda>desired.
                       nf_spin S a pps armed (length pts) spin_start desired)))))))"

subsection \<open>UdpTimed\<close>

definition CHUNK_SECS :: fp where "CHUNK_SECS = fround F64 (10 / 1000)"
definition CATCH_UP_CHUNKS :: nat where "CATCH_UP_CHUNKS = 3"

definition ut_new :: "'w backend_kind \<Rightarrow> instant \<Rightarrow> 'w \<Rightarrow> udp_timed option" where
  "ut_new k t w = map_option (\<lambda>dur.
     \<lparr>ut_next_send = t, ut_chunk_points = 0, ut_chunk_pps = 0, ut_chunk_duration = dur, ut_has_retain = False,
      ut_max_points_per_chunk = max_points_per_chunk (bk_caps k w)\<rparr>) (from_secs_f64 CHUNK_SECS)"

definition recompute_chunk :: "nat \<Rightarrow> udp_timed \<Rightarrow> udp_timed option" where
  "recompute_chunk pps a =
     (let new_chunk = min (f2nat 64 (fceil (fmul F64 (fof_int F64 (int pps)) CHUNK_SECS))) (ut_max_points_per_chunk a)
      in if new_chunk \<noteq> ut_chunk_points a \<or> pps \<noteq> ut_chunk_pps a
         then map_option (\<lambda>dur. a\<lparr>ut_chunk_points := new_chunk, ut_chunk_pps := pps, ut_chunk_duration := dur\<rparr>)
                (play_time new_chunk pps)
         else Some a)"

text \<open>The next deadline: one chunk later, but at most \<open>CATCH_UP_CHUNKS\<close> chunks behind.\<close>

definition next_deadline :: "instant \<Rightarrow> udp_timed \<Rightarrow> instant" where
  "next_deadline t a =
     (let next_send = ut_next_send a + ut_chunk_duration a;
          max_lag = ut_chunk_duration a * CATCH_UP_CHUNKS;
          min_next = (if max_lag \<le> t then t - max_lag else t)
      in if next_send < min_next then min_next else next_send)"

definition ut_step :: "'w sched \<Rightarrow> udp_timed \<Rightarrow> bool \<Rightarrow> (('w, 's) driver, 'e, step_outcome) eff" where
  "ut_step S a armed = ebody (
     ethen (sleep_until_precise S (ut_next_send a))
     (ebind (clock_now S) (\<lambda>t.
      ebind (control_read S (\<lambda>c. rs_pps (ctl_rate c))) (\<lambda>pps.
      ebind (eoption (recompute_chunk pps (a\<lparr>ut_next_send := next_deadline t a\<rparr>))) (\<lambda>a.
      ethen (set_adapter (AUdpTimed a))
      (ebind (eget dr_ops) (\<lambda>ops. case ops of
         SrcFrame _ \<Rightarrow> source_mismatch S
       | SrcFifo src \<Rightarrow>
         ethen (mod_source (fc_reserve_buf src (ut_chunk_points a)))
         (ethen (if ut_has_retain a then eret ()
                 else ebind (produce_chunk S src (ut_chunk_points a) pps armed) (\<lambda>pts.
                      if pts = [] then efail Continue else set_adapter (AUdpTimed (a\<lparr>ut_has_retain := True\<rparr>))))
         (ebind (offer (\<lambda>k. bk_try_write k pps)) (\<lambda>c. case c of
            None \<Rightarrow> ethen (set_adapter (AUdpTimed (a\<lparr>ut_has_retain := False\<rparr>))) (efail Continue)
          | Some (n, out) \<Rightarrow> (case out of
              Inr Written \<Rightarrow> ethen (marks S WriteSuccess)
                (ethen (commit_written n armed)
                (ethen (set_adapter (AUdpTimed (a\<lparr>ut_has_retain := False\<rparr>))) (eret Continue)))
            | Inr WouldBlock \<Rightarrow> ethen (marks S LoopActivity) (eret Continue)
            | Inl e \<Rightarrow> failed_write S e)))))))))))"

subsection \<open>BlockingFifo\<close>

definition CHUNK_POINTS :: nat where "CHUNK_POINTS = 512"
definition IDLE_SLEEP :: duration where "IDLE_SLEEP = from_millis 2"

definition bf_new :: "'w backend_kind \<Rightarrow> 'w \<Rightarrow> blocking_fifo" where
  "bf_new k w = \<lparr>bf_chunk_points = min CHUNK_POINTS (max_points_per_chunk (bk_caps k w)), bf_has_retain = False\<rparr>"

definition bf_step :: "'w sched \<Rightarrow> blocking_fifo \<Rightarrow> nat \<Rightarrow> bool \<Rightarrow> (('w, 's) driver, 'e, step_outcome) eff" where
  "bf_step S a pps armed = ebody (
     if \<not> armed then ethen (sleep_with_control_check S IDLE_SLEEP) (eret Continue)
     else ebind (eget dr_ops) (\<lambda>ops. case ops of
         SrcFrame _ \<Rightarrow> source_mismatch S
       | SrcFifo src \<Rightarrow>
         ethen (mod_source (fc_reserve_buf src (bf_chunk_points a)))
         (ethen (if bf_has_retain a then eret ()
                 else ebind (produce_chunk S src (bf_chunk_points a) pps armed) (\<lambda>pts.
                      if pts = [] then ethen (sleep_and_mark_activity S (from_millis 1)) (efail Continue)
                      else set_adapter (ABlockingFifo (a\<lparr>bf_has_retain := True\<rparr>))))
         (ebind (offer (\<lambda>k. bk_try_write k pps)) (\<lambda>c. case c of
            None \<Rightarrow> ethen (set_adapter (ABlockingFifo (a\<lparr>bf_has_retain := False\<rparr>))) (efail Continue)
          | Some (n, out) \<Rightarrow> (case out of
              Inr Written \<Rightarrow> ethen (marks S WriteSuccess)
                (ethen (commit_written n armed)
                (ethen (set_adapter (ABlockingFifo (a\<lparr>bf_has_retain := False\<rparr>))) (eret Continue)))
            | Inr WouldBlock \<Rightarrow>
                ebind (control_read S ctl_stop) (\<lambda>stop. if stop then efail StepStopped else
                ethen (close_if_disarmed S)
                (ebind (control_read S ctl_is_armed) (\<lambda>armed_now. if \<not> armed_now then efail StateChanged
                 else ethen (sleep_and_mark_activity S (from_micros 100)) (eret Continue))))
            | Inl e \<Rightarrow> failed_write S e))))))"

subsection \<open>UsbFrameSwap\<close>

definition MAX_TRANSIENT_WRITE_RETRIES :: nat where "MAX_TRANSIENT_WRITE_RETRIES = 3"

definition us_new :: usb_frame_swap where
  "us_new = \<lparr>us_write_pending = False, us_transient_retries = 0\<rparr>"

text \<open>A transient write error: retry the cached frame, or give the connection up.\<close>

definition transient_error :: "'w sched \<Rightarrow> usb_frame_swap \<Rightarrow> error \<Rightarrow> (('w, 's) driver, step_outcome, unit) eff" where
  "transient_error S a e =
     (let retries = us_transient_retries a + 1 in
      if retries \<le> MAX_TRANSIENT_WRITE_RETRIES
      then ethen (set_adapter (AUsbFrameSwap (a\<lparr>us_transient_retries := retries\<rparr>)))
           (ethen (marks S LoopActivity) (sleep_and_mark_activity S (from_millis 1)))
      else ethen (set_adapter (AUsbFrameSwap (a\<lparr>us_transient_retries := 0, us_write_pending := False\<rparr>)))
           (ethen (eignore (on_backend bk_disconnect)) (ethen (error_sink S e) (efail StepDisconnected))))"

definition us_step :: "'w sched \<Rightarrow> usb_frame_swap \<Rightarrow> nat \<Rightarrow> bool \<Rightarrow> (('w, 's) driver, 'e, step_outcome) eff" where
  "us_step S a pps armed = ebody (
     ebind (etry (on_backend bk_is_ready_for_frame)) (\<lambda>ready. case ready of
       Inl err \<Rightarrow> ethen (error_sink S err) (efail StepStopped)
     | Inr r \<Rightarrow> if \<not> r then ethen (sleep_with_control_check S (from_millis 1)) (efail Continue)
       else ebind (eget dr_ops) (\<lambda>ops. case ops of
         SrcFifo _ \<Rightarrow> source_mismatch S
       | SrcFrame src \<Rightarrow>
         ethen (if us_write_pending a then eret ()
                else ebind (produce_frame src pps armed) (\<lambda>pts.
                     if pts = [] then ethen (sleep_and_mark_activity S (from_millis 1)) (efail Continue) else eret ()))
         (ethen (set_adapter (AUsbFrameSwap (a\<lparr>us_write_pending := True\<rparr>)))
         (ebind (offer (\<lambda>k. bk_write_frame_after_ready k pps)) (\<lambda>c. case c of
            None \<Rightarrow> ethen (set_adapter (AUsbFrameSwap (a\<lparr>us_write_pending := False\<rparr>))) (efail Continue)
          | Some (n, out) \<Rightarrow> (case out of
              Inr Written \<Rightarrow> ethen (marks S WriteSuccess)
                (ethen (commit_written n armed)
                (ethen (set_adapter (AUsbFrameSwap (a\<lparr>us_write_pending := False, us_transient_retries := 0\<rparr>)))
                (if 0 < pps \<and> 0 < n
                 then ebind (eoption (from_secs_f64 (fdiv F64
                        (fdiv F64 (fof_int F64 (int n)) (fof_int F64 (int pps))) (Fin 2)))) (\<lambda>half.
                      ethen (sleep_with_control_check S half) (eret Continue))
                 else eret Continue)))
            | Inr WouldBlock \<Rightarrow> ethen (marks S LoopActivity)
                (ethen (sleep_and_mark_activity S (from_millis 1)) (eret Continue))
            | Inl e \<Rightarrow>
                if is_stopped e then efail StepStopped
                else if is_disconnected e then ethen (error_sink S e) (efail StepDisconnected)
                else ethen (transient_error S (a\<lparr>us_write_pending := True\<rparr>) e) (eret Continue))))))))"

subsection \<open>Dispatch\<close>

definition adapter_step :: "'w sched \<Rightarrow> duration \<Rightarrow> nat \<Rightarrow> bool \<Rightarrow> (('w, 's) driver, 'e, step_outcome) eff" where
  "adapter_step S target_buffer pps armed = ebind (eget dr_adapter) (\<lambda>a. case a of
     ANetworkFifo a \<Rightarrow> nf_step S target_buffer a pps armed
   | AUdpTimed a \<Rightarrow> ut_step S a armed
   | ABlockingFifo a \<Rightarrow> bf_step S a pps armed
   | AUsbFrameSwap a \<Rightarrow> us_step S a pps armed)"

fun adapter_on_reconnect :: "dac_info \<Rightarrow> instant \<Rightarrow> adapter \<Rightarrow> adapter" where
  "adapter_on_reconnect info t (ANetworkFifo a) =
     ANetworkFifo (a\<lparr>nf_max_points := max_points_per_chunk (di_caps info), nf_written_pps := None\<rparr>)"
| "adapter_on_reconnect info t (AUdpTimed a) =
     AUdpTimed (a\<lparr>ut_next_send := t, ut_has_retain := False,
       ut_max_points_per_chunk := max_points_per_chunk (di_caps info), ut_chunk_points := 0\<rparr>)"
| "adapter_on_reconnect info t (ABlockingFifo a) =
     ABlockingFifo (a\<lparr>bf_chunk_points := min CHUNK_POINTS (max_points_per_chunk (di_caps info)), bf_has_retain := False\<rparr>)"
| "adapter_on_reconnect info t (AUsbFrameSwap a) = AUsbFrameSwap (a\<lparr>us_write_pending := False, us_transient_retries := 0\<rparr>)"

fun adapter_on_state_change :: "adapter \<Rightarrow> adapter" where
  "adapter_on_state_change (ANetworkFifo a) = ANetworkFifo a"
| "adapter_on_state_change (AUdpTimed a) = AUdpTimed (a\<lparr>ut_has_retain := False\<rparr>)"
| "adapter_on_state_change (ABlockingFifo a) = ABlockingFifo (a\<lparr>bf_has_retain := False\<rparr>)"
| "adapter_on_state_change (AUsbFrameSwap a) = AUsbFrameSwap (a\<lparr>us_write_pending := False, us_transient_retries := 0\<rparr>)"

definition drain_and_blank :: "'w sched \<Rightarrow> nat \<Rightarrow> duration \<Rightarrow> (('w, 's) driver, 'e, unit) eff" where
  "drain_and_blank S pps timeout = ebind (eget dr_adapter) (\<lambda>a. case a of
     ABlockingFifo _ \<Rightarrow> ethen (drain_via_estimator S pps timeout)
       (ethen (eignore (on_backend bk_reset_device_buffer)) (blank_and_close_shutter pps))
   | AUsbFrameSwap _ \<Rightarrow> blank_and_close_shutter pps
   | _ \<Rightarrow> ethen (drain_via_estimator S pps timeout) (blank_and_close_shutter pps))"

text \<open>The adapter of a backend; \<open>UdpTimedAdapter::new\<close> reads the clock and may panic.\<close>

definition for_backend :: "'w sched \<Rightarrow> 'w backend_kind \<Rightarrow> bool \<Rightarrow> ('w, error, adapter) eff" where
  "for_backend S k source_is_frame =
     ethen (elift (validate_output_model k))
     (ebind (eget (\<lambda>w. output_model_of (bk_caps k w))) (\<lambda>model.
      if (model = UsbFrameSwap) \<noteq> source_is_frame
      then efail (InvalidConfig ''output model requires a matching content source'')
      else case model of
        UsbFrameSwap \<Rightarrow> eret (AUsbFrameSwap us_new)
      | NetworkFifo \<Rightarrow> eget (\<lambda>w. ANetworkFifo (nf_new k w))
      | UdpTimed \<Rightarrow> ebind (estep (sc_now S)) (\<lambda>t. ebind (eget (ut_new k t)) (\<lambda>a. ebind (eoption a) (\<lambda>a. eret (AUdpTimed a))))
      | BlockingFifo \<Rightarrow> eget (\<lambda>w. ABlockingFifo (bf_new k w))))"

end
