(* ===== verification/Reconnect_Policy.thy ===== *)
theory Reconnect_Policy
  imports Adapters
begin

text \<open>
  \<^verbatim>\<open>src/src/reconnect.rs\<close>: the retry loop that reopens, validates and connects a backend. Opening a
  device is discovery, a field of the policy; the user callbacks act on the world.
\<close>

record 'w reconnect_policy =
  rp_open_device :: "('w, error, dac_info \<times> 'w backend_kind option) eff"
  rp_max_retries :: "nat option"
  rp_backoff :: duration
  rp_on_disconnect :: "(error \<Rightarrow> 'w \<Rightarrow> 'w) option"
  rp_on_reconnect :: "(dac_info \<Rightarrow> 'w \<Rightarrow> 'w) option"

definition is_retriable :: "error \<Rightarrow> bool" where
  "is_retriable e = (case e of InvalidConfig _ \<Rightarrow> False | StoppedErr \<Rightarrow> False | _ \<Rightarrow> True)"

definition stop_requested :: "'w sched \<Rightarrow> ('w, 'e, bool) eff" where
  "stop_requested S = estep (\<lambda>w. let w = sc_others S w in (ctl_stop (sc_control S w), w))"

definition progress :: "'w sched \<Rightarrow> ('w, 'e, unit) eff" where
  "progress S = emod (sc_mark S LoopActivity)"

partial_function (option) stop_sleep_loop :: "'w sched \<Rightarrow> instant \<Rightarrow> 'w \<Rightarrow> (('e + bool) \<times> 'w) option" where
  "stop_sleep_loop S deadline w =
     ebind (stop_requested S) (\<lambda>stop. if stop then eret True else
     ebind (estep (sc_now S)) (\<lambda>t. if deadline - t = 0 then stop_requested S
       else ethen (emod (sc_sleep S (min (deadline - t) (from_millis 50))))
            (ethen (progress S) (stop_sleep_loop S deadline)))) w"

definition sleep_with_stop :: "'w sched \<Rightarrow> duration \<Rightarrow> ('w, 'e, bool) eff" where
  "sleep_with_stop S dur = ebind (estep (sc_now S)) (\<lambda>t. stop_sleep_loop S (t + dur))"

definition is_flapping :: "'w sched \<Rightarrow> instant option \<Rightarrow> duration \<Rightarrow> ('w, 'e, bool) eff" where
  "is_flapping S last_reconnect backoff = (case last_reconnect of None \<Rightarrow> eret False
     | Some t \<Rightarrow> ebind (estep (sc_now S)) (\<lambda>now. eret (now - t < backoff)))"

text \<open>
  The body of the retry loop from \<open>open_device\<close> on: a usable backend, \<open>None\<close> for another try, or
  the exit of the session. \<open>validate\<close> is the caller's closure.
\<close>

definition accept_connected ::
  "(dac_info \<Rightarrow> 'w backend_kind \<Rightarrow> ('w, session_exit, unit) eff) \<Rightarrow> dac_info \<Rightarrow> 'w backend_kind \<Rightarrow>
   ('w, session_exit, (dac_info \<times> 'w backend_kind) option) eff" where
  "accept_connected validate info k =
     ebind (etry (bk_set_shutter k False)) (\<lambda>r. case r of
       Inl _ \<Rightarrow> ethen (close_and_disconnect k) (eret None)
     | Inr _ \<Rightarrow> ebind (eget (bk_caps k)) (\<lambda>caps. let info = info\<lparr>di_caps := caps\<rparr> in
         ebind (etry (validate info k)) (\<lambda>v. case v of
           Inl exit \<Rightarrow> ethen (close_and_disconnect k) (efail exit)
         | Inr _ \<Rightarrow> eret (Some (info, k)))))"

definition connect_failed :: "'w backend_kind \<Rightarrow> error \<Rightarrow> ('w, session_exit, (dac_info \<times> 'w backend_kind) option) eff" where
  "connect_failed k err =
     ebind (eget (validate_output_model k)) (\<lambda>v.
     ethen (close_and_disconnect k)
       (if \<not> is_ok v then efail IncompatibleDevice
        else if \<not> is_retriable err then efail SessDisconnected else eret None))"

definition reconnect_attempt ::
  "'w reconnect_policy \<Rightarrow> (dac_info \<Rightarrow> 'w backend_kind \<Rightarrow> ('w, session_exit, unit) eff) \<Rightarrow>
   ('w, session_exit, (dac_info \<times> 'w backend_kind) option) eff" where
  "reconnect_attempt P validate =
     ebind (etry (rp_open_device P)) (\<lambda>dev. case dev of
       Inl err \<Rightarrow> if \<not> is_retriable err then efail SessDisconnected else eret None
     | Inr (info, None) \<Rightarrow> eret None
     | Inr (info, Some k) \<Rightarrow>
         ebind (etry (validate info k)) (\<lambda>v. case v of
           Inl exit \<Rightarrow> ethen (close_and_disconnect k) (efail exit)
         | Inr _ \<Rightarrow> ebind (eget (bk_is_connected k)) (\<lambda>connected.
             ebind (if connected then eret (Inr ()) else etry (bk_connect k)) (\<lambda>c. case c of
               Inl err \<Rightarrow> connect_failed k err
             | Inr _ \<Rightarrow> accept_connected validate info k))))"

partial_function (option) retry_loop ::
  "'w sched \<Rightarrow> 'w reconnect_policy \<Rightarrow> (dac_info \<Rightarrow> 'w backend_kind \<Rightarrow> ('w, session_exit, unit) eff) \<Rightarrow> bool \<Rightarrow> nat \<Rightarrow>
   'w \<Rightarrow> ((session_exit + (dac_info \<times> 'w backend_kind)) \<times> 'w) option" where
  "retry_loop S P validate flapping retries w =
     ethen (progress S)
     (ebind (stop_requested S) (\<lambda>stop. if stop then efail SessStopped
      else if (case rp_max_retries P of Some m \<Rightarrow> m \<le> retries | None \<Rightarrow> False) then efail SessDisconnected
      else ebind (if 0 < retries \<or> flapping then sleep_with_stop S (rp_backoff P) else eret False) (\<lambda>stop.
           if stop then efail SessStopped
           else ethen (progress S)
                (ebind (reconnect_attempt P validate) (\<lambda>r. case r of
                   Some x \<Rightarrow> eret x
                 | None \<Rightarrow> retry_loop S P validate flapping (sat_add 32 retries 1)))))) w"

definition reconnect_backend_with_retry ::
  "'w sched \<Rightarrow> 'w reconnect_policy \<Rightarrow> instant option \<Rightarrow> (dac_info \<Rightarrow> 'w backend_kind \<Rightarrow> ('w, session_exit, unit) eff) \<Rightarrow>
   ('w, session_exit, dac_info \<times> 'w backend_kind) eff" where
  "reconnect_backend_with_retry S P last_reconnect validate =
     ethen (case rp_on_disconnect P of None \<Rightarrow> eret ()
            | Some cb \<Rightarrow> emod (cb (DisconnectedErr ''backend disconnected'')))
     (ebind (is_flapping S last_reconnect (rp_backoff P)) (\<lambda>flapping. retry_loop S P validate flapping 0))"

end
