(* ===== verification/Driver.thy ===== *)
theory Driver
  imports Reconnect_Policy
begin

text \<open>
  \<^verbatim>\<open>src/src/presentation/driver.rs\<close>: the loop that both session kinds run. It drains the control
  messages, handles arm and disarm edges, reconnects, and lets the adapter take one step. A pass
  of the loop either goes on or ends the session with the value that \<open>run\<close> returns.
\<close>

record 'w session_env =
  se_sched :: "'w sched"
  se_policy :: "'w reconnect_policy option"
  se_validator :: "dac_info \<Rightarrow> 'w backend_kind \<Rightarrow> nat \<Rightarrow> 'w \<Rightarrow> session_exit + unit"
  se_target_buffer :: duration
  se_drain_timeout :: duration
  se_pending_frame :: "('w \<Rightarrow> frame option \<times> 'w) option"

definition source_is_frame :: "'s source_ops \<Rightarrow> bool" where
  "source_is_frame ops = (case ops of SrcFrame _ \<Rightarrow> True | SrcFifo _ \<Rightarrow> False)"

fun source_is_ended :: "'s source_ops \<Rightarrow> 's \<Rightarrow> bool" where
  "source_is_ended (SrcFifo f) s = fc_is_ended f s"
| "source_is_ended (SrcFrame f) s = False"

fun source_take_stop_error :: "'s source_ops \<Rightarrow> 's \<Rightarrow> error option \<times> 's" where
  "source_take_stop_error (SrcFifo f) s = fc_take_stop_error f s"
| "source_take_stop_error (SrcFrame f) s = (None, s)"

fun set_frame_capacity_if_supported :: "nat option \<Rightarrow> 's source_ops \<Rightarrow> 's \<Rightarrow> 's" where
  "set_frame_capacity_if_supported cap (SrcFrame f) s = fr_set_frame_capacity f cap s"
| "set_frame_capacity_if_supported cap (SrcFifo f) s = s"

definition with_source :: "('s source_base \<Rightarrow> 's \<Rightarrow> 's) \<Rightarrow> (('w, 's) driver, 'e, unit) eff" where
  "with_source h = emod (\<lambda>d. d\<lparr>dr_source := h (src_base (dr_ops d)) (dr_source d)\<rparr>)"

subsection \<open>Reconnecting\<close>

definition validate_replacement :: "'w session_env \<Rightarrow> bool \<Rightarrow> dac_info \<Rightarrow> 'w backend_kind \<Rightarrow> ('w, session_exit, unit) eff" where
  "validate_replacement E expected_frame_swap info k =
     (if bk_is_frame_swap k \<noteq> expected_frame_swap then efail IncompatibleDevice
      else ebind (control_access (se_sched E) (\<lambda>c. (rs_pps (ctl_rate c), c))) (\<lambda>pps.
           elift (se_validator E info k pps)))"

definition adopt_backend :: "'w session_env \<Rightarrow> dac_info \<Rightarrow> 'w backend_kind \<Rightarrow> (('w, 's) driver, 'e, unit) eff" where
  "adopt_backend E info k =
     ebind (clock_now (se_sched E)) (\<lambda>t.
     ethen (emod (\<lambda>d. d\<lparr>dr_backend := k, dr_shutter := ShClosed, dr_handled := ds_initial, dr_last_reconnect_at := Some t\<rparr>))
     (ethen (marks (se_sched E) (ConnectedMark True))
     (ethen (with_source (\<lambda>b. sb_on_reconnect b info))
     (ethen (emod (\<lambda>d. if source_is_frame (dr_ops d)
        then d\<lparr>dr_source := set_frame_capacity_if_supported (bk_frame_capacity k (dr_world d)) (dr_ops d) (dr_source d)\<rparr>
        else d))
     (ebind (eget dr_adapter) (\<lambda>a. ebind (case a of AUdpTimed _ \<Rightarrow> clock_now (se_sched E) | _ \<Rightarrow> eret 0) (\<lambda>t.
        set_adapter (adapter_on_reconnect info t a))))))))"

definition driver_reconnect :: "'w session_env \<Rightarrow> (('w, 's) driver, session_exit, unit) eff" where
  "driver_reconnect E = (case se_policy E of None \<Rightarrow> efail SessDisconnected
   | Some P \<Rightarrow>
     ethen (marks (se_sched E) (ConnectedMark False))
     (ebind (eget (\<lambda>d. (dr_last_reconnect_at d, source_is_frame (dr_ops d)))) (\<lambda>(last_reconnect, expected).
      ebind (on_world (reconnect_backend_with_retry (se_sched E) P last_reconnect (validate_replacement E expected))) (\<lambda>(info, k).
      ebind (eget (\<lambda>d. bk_caps k (dr_world d))) (\<lambda>caps.
      ebind (on_world (control_access (se_sched E) (update_pps_bounds (pps_min caps) (pps_max caps)))) (\<lambda>r. case r of
        Inl _ \<Rightarrow> ethen (on_world (close_and_disconnect k)) (efail IncompatibleDevice)
      | Inr _ \<Rightarrow> ethen (adopt_backend E info k)
          (case rp_on_reconnect P of None \<Rightarrow> eret () | Some cb \<Rightarrow> on_world (emod (cb info)))))))))"

subsection \<open>Arm and disarm edges\<close>

datatype transition_outcome = TrContinue | TrDisconnected

definition command_close :: "bool \<Rightarrow> (('w, 's) driver, 'e, unit) eff" where
  "command_close force = ebind (eget dr_shutter) (\<lambda>sh. if force \<or> sh \<noteq> ShClosed then drive_shutter False else eret ())"

definition change_state :: "(('w, 's) driver, 'e, unit) eff" where
  "change_state = emod (\<lambda>d. d\<lparr>dr_adapter := adapter_on_state_change (dr_adapter d)\<rparr>)"

definition falling_edge :: "'w sched \<Rightarrow> desired_state \<Rightarrow> (('w, 's) driver, transition_outcome, unit) eff" where
  "falling_edge S desired =
     ethen (command_close False)
     (ethen (with_source sb_discard_cached)
     (ethen change_state
     (ethen (with_source sb_on_disarm)
     (ethen (with_source (\<lambda>b. sb_reset_output_filter b Disarm))
     (ethen (emod (\<lambda>d. d\<lparr>dr_handled := desired\<rparr>))
     (ebind (control_read S ctl_desired) (\<lambda>desired'. if desired' \<noteq> desired then efail TrContinue else eret ())))))))"

definition rising_edge :: "nat \<Rightarrow> desired_state \<Rightarrow> (('w, 's) driver, transition_outcome, unit) eff" where
  "rising_edge pps desired =
     ethen (with_source sb_discard_cached)
     (ethen change_state
     (ethen (with_source (\<lambda>b. sb_arm_startup_blank b pps))
     (ethen (with_source (\<lambda>b. sb_reset_output_filter b Arm))
     (ebind (etry (on_backend bk_reset_device_buffer)) (\<lambda>r. case r of
        Inl _ \<Rightarrow> ethen (command_close True) (ethen (eignore (on_backend bk_disconnect)) (efail TrDisconnected))
      | Inr _ \<Rightarrow> emod (\<lambda>d. d\<lparr>dr_handled := desired\<rparr>))))))"

definition settle_shutter :: "'w sched \<Rightarrow> desired_state \<Rightarrow> (('w, 's) driver, 'e, unit) eff" where
  "settle_shutter S desired =
     (if ds_is_armed desired
      then ebind (control_read S ctl_desired) (\<lambda>d1. if d1 \<noteq> desired then eret () else
           ethen (ebind (eget dr_shutter) (\<lambda>sh. if sh \<noteq> ShOpen then drive_shutter True else eret ()))
           (ebind (control_read S ctl_desired) (\<lambda>d2. if d2 \<noteq> desired then command_close True else eret ())))
      else command_close False)"

definition handle_shutter_transition :: "'w sched \<Rightarrow> nat \<Rightarrow> (('w, 's) driver, 'e, transition_outcome) eff" where
  "handle_shutter_transition S pps = ebody (
     ebind (control_read S ctl_desired) (\<lambda>desired. ebind (eget dr_handled) (\<lambda>handled.
     ethen (if desired \<noteq> handled
            then ethen (if ds_is_armed handled \<or> \<not> ds_is_armed desired then falling_edge S desired else eret ())
                 (if ds_is_armed desired then rising_edge pps desired else eret ())
            else eret ())
     (ethen (settle_shutter S desired) (eret TrContinue)))))"

subsection \<open>The loop\<close>

definition stop_and_close_shutter :: "(('w, 's) driver, 'e, session_exit) eff" where
  "stop_and_close_shutter = ethen (command_close True) (eret SessStopped)"

definition stop_exit :: "(('w, 's) driver, error + session_exit, unit) eff" where
  "stop_exit = ebind stop_and_close_shutter (\<lambda>x. efail (Inr x))"

definition end_check :: "'w session_env \<Rightarrow> nat \<Rightarrow> (('w, 's) driver, error + session_exit, unit) eff" where
  "end_check E pps =
     ebind (eget (\<lambda>d. source_is_ended (dr_ops d) (dr_source d))) (\<lambda>ended. if \<not> ended then eret () else
     ebind (estep (\<lambda>d. let (e, s) = source_take_stop_error (dr_ops d) (dr_source d) in (e, d\<lparr>dr_source := s\<rparr>))) (\<lambda>e. case e of
       Some err \<Rightarrow> ethen (command_close True) (efail (Inl err))
     | None \<Rightarrow> ethen (drain_and_blank (se_sched E) pps (se_drain_timeout E)) (efail (Inr ProducerEnded))))"

definition take_frame :: "'w session_env \<Rightarrow> (('w, 's) driver, 'e, unit) eff" where
  "take_frame E = (case se_pending_frame E of None \<Rightarrow> eret ()
     | Some slot \<Rightarrow> ebind (on_world (estep slot)) (\<lambda>f. case f of None \<Rightarrow> eret ()
         | Some fr \<Rightarrow> with_source (\<lambda>b. sb_submit_frame b fr)))"

definition driver_pass :: "'w session_env \<Rightarrow> (('w, 's) driver, error + session_exit, unit) eff" where
  "driver_pass E = (let S = se_sched E in
     ethen (marks S LoopActivity)
     (ebind (control_read S ctl_stop) (\<lambda>stop. if stop then stop_exit else
      ebind (control_read S (\<lambda>c. rs_pps (ctl_rate c))) (\<lambda>pps.
      ebind (control_read S ctl_color_delay) (\<lambda>delay.
      ethen (with_source (\<lambda>b. sb_set_color_delay b delay))
      (ethen (take_frame E)
      (ebind (ask_backend bk_is_connected) (\<lambda>connected. if \<not> connected then emap_err Inr (driver_reconnect E) else
       ebind (process_control_messages S) (\<lambda>action. if action = ActStop then stop_exit else
       ebind (handle_shutter_transition S pps) (\<lambda>tr. if tr = TrDisconnected then emap_err Inr (driver_reconnect E) else
       ebind (control_read S ctl_is_armed) (\<lambda>armed.
       ebind (adapter_step S (se_target_buffer E) pps armed) (\<lambda>outcome.
         if outcome = StepStopped then stop_exit
         else if outcome = StepDisconnected then emap_err Inr (driver_reconnect E)
         else end_check E pps))))))))))))"

partial_function (option) run_loop ::
  "'w session_env \<Rightarrow> ('w, 's) driver \<Rightarrow> (((error + session_exit) + unit) \<times> ('w, 's) driver) option" where
  "run_loop E d = ethen (driver_pass E) (run_loop E) d"

definition end_session :: "'w backend_kind \<Rightarrow> ('w, 'e, unit) eff" where
  "end_session k = ebind (eget (bk_is_connected k)) (\<lambda>connected. if \<not> connected then eret () else
     ethen (eignore (bk_stop k)) (eignore (bk_disconnect k)))"

definition driver_init :: "'w backend_kind \<Rightarrow> 's source_ops \<Rightarrow> 's \<Rightarrow> adapter \<Rightarrow> 'w \<Rightarrow> ('w, 's) driver" where
  "driver_init k ops s a w = \<lparr>dr_backend = k, dr_ops = ops, dr_source = s, dr_adapter = a, dr_shutter = ShClosed,
     dr_handled = ds_initial, dr_last_reconnect_at = None, dr_world = w\<rparr>"

definition run_session :: "'w session_env \<Rightarrow> 'w backend_kind \<Rightarrow> 's source_ops \<Rightarrow> 's \<Rightarrow> ('w, error, session_exit) eff" where
  "run_session E k ops s w = (case for_backend (se_sched E) k (source_is_frame ops) w of
     None \<Rightarrow> None
   | Some (Inl err, w) \<Rightarrow> ethen (close_and_disconnect k) (ethen (end_session k) (efail err)) w
   | Some (Inr a, w) \<Rightarrow> (case run_loop E (driver_init k ops s a w) of
       None \<Rightarrow> None
     | Some (Inl result, d) \<Rightarrow> ethen (end_session (dr_backend d)) (\<lambda>w. Some (result, w)) (dr_world d)
     | Some (Inr _, d) \<Rightarrow> None))"

end
