(* ===== verification/Driver_Record.thy ===== *)
theory Driver_Record
  imports Driver
begin

text \<open>
  A session under observation: the surroundings of the driver wrapped so that what the driver reads
  of the desired state and what it commands are written to a log, newest first. The wrapped
  session is any session, the log is only added. On the log, the discipline of the shutter is
  stated as a reader of the events.
\<close>

datatype event =
    EvWord desired_state
  | EvShutter bool bool
  | EvWrite "laser_point list"
  | EvReset bool
  | EvOpened
  | EvConnected bool

record 'w recorded =
  rw_inner :: 'w
  rw_log :: "event list"

definition rec_eff :: "('w, 'e, 'a) eff \<Rightarrow> ('w recorded, 'e, 'a) eff" where
  "rec_eff = ezoom rw_inner (\<lambda>w r. r\<lparr>rw_inner := w\<rparr>)"

definition rec_log :: "event \<Rightarrow> 'w recorded \<Rightarrow> 'w recorded" where
  "rec_log e r = r\<lparr>rw_log := e # rw_log r\<rparr>"

text \<open>An effect followed by the event of its result.\<close>

definition rec_call :: "('e + 'a \<Rightarrow> event) \<Rightarrow> ('w, 'e, 'a) eff \<Rightarrow> ('w recorded, 'e, 'a) eff" where
  "rec_call ev m r = (case rec_eff m r of None \<Rightarrow> None | Some (x, r') \<Rightarrow> Some (x, rec_log (ev x) r'))"

definition rec_sched :: "'w sched \<Rightarrow> 'w recorded sched" where
  "rec_sched S =
     \<lparr>sc_now = (\<lambda>r. let (t, w) = sc_now S (rw_inner r) in (t, r\<lparr>rw_inner := w\<rparr>)),
      sc_sleep = (\<lambda>t r. r\<lparr>rw_inner := sc_sleep S t (rw_inner r)\<rparr>),
      sc_yield = (\<lambda>r. r\<lparr>rw_inner := sc_yield S (rw_inner r)\<rparr>),
      sc_others = (\<lambda>r. let w = sc_others S (rw_inner r)
         in rec_log (EvWord (ctl_desired (sc_control S w))) (r\<lparr>rw_inner := w\<rparr>)),
      sc_control = (\<lambda>r. sc_control S (rw_inner r)),
      sc_set_control = (\<lambda>c r. r\<lparr>rw_inner := sc_set_control S c (rw_inner r)\<rparr>),
      sc_mark = (\<lambda>m r. (case m of ConnectedMark b \<Rightarrow> rec_log (EvConnected b) | _ \<Rightarrow> id)
         (r\<lparr>rw_inner := sc_mark S m (rw_inner r)\<rparr>)),
      sc_error_sink = (\<lambda>e r. r\<lparr>rw_inner := sc_error_sink S e (rw_inner r)\<rparr>),
      sc_sentinel = sc_sentinel S\<rparr>"

definition rec_base :: "'w dac_backend \<Rightarrow> 'w recorded dac_backend" where
  "rec_base b =
     \<lparr>db_dac_type = (\<lambda>r. db_dac_type b (rw_inner r)), db_caps = (\<lambda>r. db_caps b (rw_inner r)),
      db_connect = rec_eff (db_connect b), db_disconnect = rec_eff (db_disconnect b),
      db_is_connected = (\<lambda>r. db_is_connected b (rw_inner r)), db_stop = rec_eff (db_stop b),
      db_set_shutter = (\<lambda>opn. rec_call (\<lambda>x. EvShutter opn (is_ok x)) (db_set_shutter b opn))\<rparr>"

fun rec_kind :: "'w backend_kind \<Rightarrow> 'w recorded backend_kind" where
  "rec_kind (KFifo b) = KFifo
     \<lparr>fb_base = rec_base (fb_base b),
      fb_try_write_points = (\<lambda>pps pts. rec_call (\<lambda>_. EvWrite pts) (fb_try_write_points b pps pts)),
      fb_estimator = (\<lambda>r. fb_estimator b (rw_inner r)),
      fb_target_buffer_ceiling = (\<lambda>r. fb_target_buffer_ceiling b (rw_inner r)),
      fb_reset_device_buffer = rec_call (\<lambda>x. EvReset (is_ok x)) (fb_reset_device_buffer b)\<rparr>"
| "rec_kind (KFrameSwap b) = KFrameSwap
     \<lparr>fs_base = rec_base (fs_base b),
      fs_frame_capacity = (\<lambda>r. fs_frame_capacity b (rw_inner r)),
      fs_is_ready_for_frame = (\<lambda>r. map_option (\<lambda>(x, w). (x, r\<lparr>rw_inner := w\<rparr>)) (fs_is_ready_for_frame b (rw_inner r))),
      fs_write_frame = (\<lambda>pps pts. rec_call (\<lambda>_. EvWrite pts) (fs_write_frame b pps pts)),
      fs_write_frame_after_ready = (\<lambda>pps pts. rec_call (\<lambda>_. EvWrite pts) (fs_write_frame_after_ready b pps pts))\<rparr>"

text \<open>Opening a device that has a backend is logged, and the backend is observed too.\<close>

definition rec_open :: "('w, error, dac_info \<times> 'w backend_kind option) eff \<Rightarrow>
    ('w recorded, error, dac_info \<times> 'w recorded backend_kind option) eff" where
  "rec_open m = ebind (rec_eff m) (\<lambda>(info, k). case k of None \<Rightarrow> eret (info, None)
     | Some k \<Rightarrow> ethen (emod (rec_log EvOpened)) (eret (info, Some (rec_kind k))))"

definition rec_policy :: "'w reconnect_policy \<Rightarrow> 'w recorded reconnect_policy" where
  "rec_policy P =
     \<lparr>rp_open_device = rec_open (rp_open_device P), rp_max_retries = rp_max_retries P, rp_backoff = rp_backoff P,
      rp_on_disconnect = map_option (\<lambda>cb e r. r\<lparr>rw_inner := cb e (rw_inner r)\<rparr>) (rp_on_disconnect P),
      rp_on_reconnect = map_option (\<lambda>cb i r. r\<lparr>rw_inner := cb i (rw_inner r)\<rparr>) (rp_on_reconnect P)\<rparr>"

text \<open>The validator sees the backend it was given, which is the observed one; it may read anything of it.\<close>

definition rec_env :: "'w session_env \<Rightarrow> (dac_info \<Rightarrow> 'w recorded backend_kind \<Rightarrow> nat \<Rightarrow> 'w recorded \<Rightarrow> session_exit + unit) \<Rightarrow>
    'w recorded session_env" where
  "rec_env E validator =
     \<lparr>se_sched = rec_sched (se_sched E), se_policy = map_option rec_policy (se_policy E),
      se_validator = validator, se_target_buffer = se_target_buffer E, se_drain_timeout = se_drain_timeout E,
      se_pending_frame = map_option (\<lambda>slot r. let (f, w) = slot (rw_inner r) in (f, r\<lparr>rw_inner := w\<rparr>)) (se_pending_frame E)\<rparr>"

subsection \<open>The discipline of the shutter\<close>

fun latest_word :: "event list \<Rightarrow> desired_state option" where
  "latest_word [] = None"
| "latest_word (EvWord w # l) = Some w"
| "latest_word (_ # l) = latest_word l"

text \<open>
  The device was prepared for a desired word: the last reset of its buffer succeeded, on the
  backend in use, while that word was the last one read.
\<close>

fun prepared :: "desired_state \<Rightarrow> event list \<Rightarrow> bool" where
  "prepared w [] = False"
| "prepared w (EvReset ok # l) = (ok \<and> latest_word l = Some w)"
| "prepared w (EvOpened # l) = False"
| "prepared w (_ # l) = prepared w l"

text \<open>A replacement backend is in use only after it has confirmed that its shutter is closed.\<close>

fun usable :: "event list \<Rightarrow> bool" where
  "usable [] = True"
| "usable (EvOpened # l) = False"
| "usable (EvShutter opn ok # l) = ((\<not> opn \<and> ok) \<or> usable l)"
| "usable (_ # l) = usable l"

fun is_close :: "event \<Rightarrow> bool" where
  "is_close (EvShutter opn _) = (\<not> opn)"
| "is_close _ = False"

fun is_word :: "event \<Rightarrow> bool" where
  "is_word (EvWord _) = True"
| "is_word _ = False"

text \<open>
  What must come next: after an open command the desired state is read again, when it has changed
  the shutter is closed at once, and a failed reset is followed by a close.
\<close>

fun due :: "event list \<Rightarrow> event \<Rightarrow> bool" where
  "due (EvShutter True _ # l) e = is_word e"
| "due (EvWord w' # EvShutter True _ # EvWord w # l) e = (w' = w \<or> is_close e)"
| "due (EvReset False # l) e = is_close e"
| "due _ e = True"

fun openable :: "bool \<Rightarrow> event list \<Rightarrow> bool" where
  "openable fifo (EvWord w # l) = (ds_is_armed w \<and> (fifo \<longrightarrow> prepared w l))"
| "openable fifo _ = False"

fun allowed :: "bool \<Rightarrow> event \<Rightarrow> event list \<Rightarrow> bool" where
  "allowed fifo (EvShutter True ok) l = (openable fifo l \<and> usable l)"
| "allowed fifo (EvWrite pts) l = usable l"
| "allowed fifo _ l = True"

fun log_ok :: "bool \<Rightarrow> event list \<Rightarrow> bool" where
  "log_ok fifo [] = True"
| "log_ok fifo (e # l) = (allowed fifo e l \<and> due l e \<and> log_ok fifo l)"

text \<open>
  Words are generations: one that has been superseded does not come back (fewer than \<open>2 ^ 63\<close>
  edges, see the control handle).
\<close>

fun words :: "event list \<Rightarrow> desired_state list" where
  "words [] = []"
| "words (EvWord w # l) = w # words l"
| "words (_ # l) = words l"

fun non_returning_words :: "desired_state list \<Rightarrow> bool" where
  "non_returning_words [] = True"
| "non_returning_words (w # ws) = (non_returning_words ws \<and> (w \<in> set ws \<longrightarrow> hd ws = w))"

definition non_returning :: "event list \<Rightarrow> bool" where
  "non_returning l = non_returning_words (words l)"

text \<open>The last shutter command was a close, and the connection is being replaced.\<close>

fun closed_last :: "event list \<Rightarrow> bool" where
  "closed_last [] = False"
| "closed_last (EvShutter opn ok # l) = (\<not> opn)"
| "closed_last (_ # l) = closed_last l"

fun replacing :: "event list \<Rightarrow> bool" where
  "replacing [] = False"
| "replacing (EvConnected b # l) = (\<not> b)"
| "replacing (_ # l) = replacing l"

text \<open>
  How a session may end: after a lost connection with anything; with a stop request while a
  replacement was being looked for; otherwise with the shutter commanded closed.
\<close>

fun exit_ok :: "error + session_exit \<Rightarrow> event list \<Rightarrow> bool" where
  "exit_ok (Inr SessDisconnected) l = True"
| "exit_ok (Inr SessStopped) l = (closed_last l \<or> replacing l)"
| "exit_ok _ l = closed_last l"

end
