(* ===== verification/Step_Invariant.thy ===== *)
theory Step_Invariant
  imports Adapters
begin

text \<open>
  What a step of an adapter keeps. The contract lists the elementary operations that adapters use:
  access to the clock, the control handle and the sinks, the closing direction of the shutter,
  offers of the retained slice, and the production of points. Every invariant of them is an
  invariant of the waits, the drain and all four adapters.
\<close>

named_theorems step_keeps \<open>operations of an adapter that keep an invariant of the elementary ones\<close>

lemma keeps_case_source [keeps_intros]:
  "(\<And>f. x = SrcFifo f \<Longrightarrow> keeps P (m f)) \<Longrightarrow> (\<And>f. x = SrcFrame f \<Longrightarrow> keeps P (q f)) \<Longrightarrow>
   keeps P (case x of SrcFifo f \<Rightarrow> m f | SrcFrame f \<Rightarrow> q f)"
  by (cases x) simp_all

lemma keeps_case_outcome [keeps_intros]:
  "keeps P m \<Longrightarrow> keeps P q \<Longrightarrow> keeps P (case x of Written \<Rightarrow> m | WouldBlock \<Rightarrow> q)"
  by (cases x) simp_all

text \<open>An invariant may fix a part of the state that the effect leaves alone.\<close>

lemma keeps_fixed: "(\<And>x. keeps (\<lambda>s. P s \<and> g s = x) m) \<Longrightarrow> keeps P m"
  unfolding keeps_def by blast

lemma keeps_on_world:
  "(\<And>d. P d \<Longrightarrow> P (d\<lparr>dr_world := snd (f (dr_world d))\<rparr>)) \<Longrightarrow> keeps P (on_world (estep f))"
  "(\<And>d. P d \<Longrightarrow> P (d\<lparr>dr_world := h (dr_world d)\<rparr>)) \<Longrightarrow> keeps P (on_world (emod h))"
  unfolding on_world_def
  by (rule keepsI, erule meta_allE, erule (1) meta_impE, clarsimp simp: ezoom_def estep_def emod_def)+

locale step_invariant =
  fixes S :: "'w sched" and ops :: "'s source_ops" and armed :: bool and I :: "('w, 's) driver \<Rightarrow> bool"
  assumes ops: "I d \<Longrightarrow> dr_ops d = ops"
    and fields: "I d \<Longrightarrow> I (d\<lparr>dr_shutter := sh\<rparr>)" "I d \<Longrightarrow> I (d\<lparr>dr_adapter := a\<rparr>)"
    and clock: "I d \<Longrightarrow> I (d\<lparr>dr_world := snd (sc_now S (dr_world d))\<rparr>)"
      "I d \<Longrightarrow> I (d\<lparr>dr_world := sc_sleep S t (dr_world d)\<rparr>)" "I d \<Longrightarrow> I (d\<lparr>dr_world := sc_yield S (dr_world d)\<rparr>)"
    and control: "I d \<Longrightarrow> I (d\<lparr>dr_world := sc_others S (dr_world d)\<rparr>)"
      "I d \<Longrightarrow> I (d\<lparr>dr_world := sc_set_control S c (dr_world d)\<rparr>)"
    and sinks: "I d \<Longrightarrow> I (d\<lparr>dr_world := sc_error_sink S e (dr_world d)\<rparr>)"
      "I d \<Longrightarrow> I (d\<lparr>dr_world := sc_mark S LoopActivity (dr_world d)\<rparr>)"
      "I d \<Longrightarrow> I (d\<lparr>dr_world := sc_mark S WriteSuccess (dr_world d)\<rparr>)"
    and device: "keeps I (on_backend bk_disconnect)" "keeps I (on_backend (\<lambda>k. bk_set_shutter k False))"
      "keeps I (on_backend bk_is_ready_for_frame)"
    and slice: "I d \<Longrightarrow> sb_cached_slice (src_base ops) (dr_source d) = Some sl \<Longrightarrow>
        bk_try_write (dr_backend d) pps sl (dr_world d) = Some (r, w) \<Longrightarrow> I (d\<lparr>dr_world := w\<rparr>)"
      "I d \<Longrightarrow> sb_cached_slice (src_base ops) (dr_source d) = Some sl \<Longrightarrow>
        bk_write_frame_after_ready (dr_backend d) pps sl (dr_world d) = Some (r, w) \<Longrightarrow> I (d\<lparr>dr_world := w\<rparr>)"
    and blank: "keeps I (on_backend (\<lambda>k. bk_try_write k pps (replicate 16 (blanked (Fin 0) (Fin 0)))))"
    and commit: "I d \<Longrightarrow> I (d\<lparr>dr_source := sb_commit_written (src_base ops) n armed (dr_source d)\<rparr>)"
    and chunk: "I d \<Longrightarrow> ops = SrcFifo f \<Longrightarrow> fc_produce_chunk f delay (dr_source d) n pps armed = Some (s, pts) \<Longrightarrow>
        I (d\<lparr>dr_source := s\<rparr>)"
    and room: "I d \<Longrightarrow> ops = SrcFifo f \<Longrightarrow> I (d\<lparr>dr_source := fc_reserve_buf f n (dr_source d)\<rparr>)"
    and frame: "I d \<Longrightarrow> ops = SrcFrame g \<Longrightarrow> fr_produce_frame g (dr_source d) pps armed = Some (s, pts) \<Longrightarrow>
        I (d\<lparr>dr_source := s\<rparr>)"
begin

lemma surroundings_kept [step_keeps]:
  "keeps I (clock_now S)" "keeps I (clock_sleep S t)" "keeps I (on_world (emod (sc_yield S)))" "keeps I (error_sink S e)"
  "keeps I (marks S LoopActivity)" "keeps I (marks S WriteSuccess)" "keeps I (control_read S g)"
  unfolding clock_now_def clock_sleep_def error_sink_def marks_def control_read_def Let_def
  by (rule keeps_on_world, (unfold snd_conv)?, (erule clock | erule sinks | erule control))+

lemma access_kept [step_keeps]: "keeps I (on_world (control_access S f))"
  unfolding control_access_def
proof (rule keeps_on_world)
  fix d assume "I d"
  from control(2) [OF control(1) [OF this]]
  show "I (d\<lparr>dr_world := snd (let w = sc_others S (dr_world d); (a, c) = f (sc_control S w) in (a, sc_set_control S c w))\<rparr>)"
    by (simp add: Let_def split: prod.split)
qed

lemma local_kept [step_keeps]: "keeps I (set_adapter a)" "keeps I (commit_written n armed)" "keeps I (ask_backend p)"
  "keeps I (emod (\<lambda>d. d\<lparr>dr_shutter := sh\<rparr>))"
proof -
  have "I (d\<lparr>dr_source := sb_commit_written (src_base (dr_ops d)) n armed (dr_source d)\<rparr>)" if "I d" for d
    using commit [OF that] ops [OF that] by simp
  note this [intro]
  show "keeps I (set_adapter a)" "keeps I (commit_written n armed)" "keeps I (ask_backend p)" "keeps I (emod (\<lambda>d. d\<lparr>dr_shutter := sh\<rparr>))"
    unfolding set_adapter_def commit_written_def ask_backend_def by (intro keeps_intros; blast intro: fields)+
qed

lemma offered_kept:
  assumes wr: "\<And>d sl r w. I d \<Longrightarrow> sb_cached_slice (src_base ops) (dr_source d) = Some sl \<Longrightarrow>
    wr (dr_backend d) sl (dr_world d) = Some (r, w) \<Longrightarrow> I (d\<lparr>dr_world := w\<rparr>)"
  shows "keeps I (offer wr)"
  unfolding keeps_def
proof (intro allI impI)
  fix d r d' assume d: "I d" and run: "offer wr d = Some (r, d')"
  have o: "dr_ops d = ops" by (rule ops [OF d])
  show "I d'"
  proof (cases "sb_cached_slice (src_base ops) (dr_source d)")
    case None
    then show ?thesis using d run by (simp add: offer_def cached_slice_def eff_defs o)
  next
    case (Some sl)
    then obtain x w' where "wr (dr_backend d) sl (dr_world d) = Some (x, w')" "d' = d\<lparr>dr_world := w'\<rparr>"
      using run by (auto simp: offer_def cached_slice_def on_backend_def on_world_def eff_defs o split: option.splits)
    then show ?thesis using wr [OF d Some] by simp
  qed
qed

lemma offer_kept [step_keeps]: "keeps I (offer (\<lambda>k. bk_try_write k pps))" "keeps I (offer (\<lambda>k. bk_write_frame_after_ready k pps))"
  by (rule offered_kept, erule (2) slice)+

text \<open>Production replaces the state of the source by the one it returns.\<close>

lemma produced_kept:
  assumes "\<And>d s pts. I d \<Longrightarrow> p (dr_source d) = Some (s, pts) \<Longrightarrow> I (d\<lparr>dr_source := s\<rparr>)"
  shows "keeps I (ebind (eget dr_source) (\<lambda>s. ebind (eoption (p s)) (\<lambda>(s', pts). ethen (emod (\<lambda>d. d\<lparr>dr_source := s'\<rparr>)) (eret pts))))"
  unfolding keeps_def
proof (intro allI impI)
  fix d r d' assume d: "I d"
    and "ebind (eget dr_source) (\<lambda>s. ebind (eoption (p s)) (\<lambda>(s', pts). ethen (emod (\<lambda>d. d\<lparr>dr_source := s'\<rparr>)) (eret pts))) d = Some (r, d')"
  then obtain s pts where "p (dr_source d) = Some (s, pts)" "d' = d\<lparr>dr_source := s\<rparr>"
    by (cases "p (dr_source d)") (auto simp: eff_defs eoption_def)
  then show "I d'" using assms [OF d] by simp
qed

lemma sources_kept [step_keeps]:
  "ops = SrcFifo f \<Longrightarrow> keeps I (mod_source (fc_reserve_buf f n))"
  "ops = SrcFrame g \<Longrightarrow> keeps I (produce_frame g pps armed)"
  "ops = SrcFifo f \<Longrightarrow> keeps I (produce_chunk S f n pps armed)"
proof -
  show "keeps I (mod_source (fc_reserve_buf f n))" if "ops = SrcFifo f"
    unfolding mod_source_def by (rule keeps_emod) (rule room [OF _ that])
  show "keeps I (produce_frame g pps armed)" if "ops = SrcFrame g"
    unfolding produce_frame_def by (rule produced_kept) (rule frame [OF _ that])
  show "keeps I (produce_chunk S f n pps armed)" if "ops = SrcFifo f"
    unfolding produce_chunk_def by (rule keeps_ebind [OF surroundings_kept(7)], rule produced_kept, rule chunk [OF _ that])
qed

subsubsection \<open>Waits\<close>

lemma drive_close_kept [step_keeps]: "keeps I (drive_shutter False)"
  unfolding drive_shutter_def by (intro keeps_intros step_keeps device)

lemma close_kept [step_keeps]: "keeps I (close_if_disarmed S)" "keeps I (blank_and_close_shutter pps)"
  unfolding close_if_disarmed_def blank_and_close_shutter_def by (intro keeps_intros step_keeps blank)+

lemma process_messages_kept: "keeps I (process_messages S a)"
proof -
  have "\<forall>a. keeps I (process_messages S a)"
    by (rule process_messages.fixp_induct)
      (auto simp: curry_def keeps_admissible keeps_none intro!: keeps_intros step_keeps)
  then show ?thesis by blast
qed

lemma process_control_messages_kept [step_keeps]: "keeps I (process_control_messages S)"
  unfolding process_control_messages_def by (rule process_messages_kept)

lemma wait_checks_kept [step_keeps]: "keeps I (wait_checks S)"
  unfolding wait_checks_def
  by (intro keeps_intros step_keeps) (auto intro!: keeps_intros split: control_action.splits)

lemma control_check_loop_kept [step_keeps]: "keeps I (control_check_loop S t)"
  by (rule control_check_loop.fixp_induct)
    (auto simp: curry_def keeps_admissible1 keeps_none intro!: keeps_intros step_keeps)

lemma sleep_until_precise_kept [step_keeps]: "keeps I (sleep_until_precise S t)"
  by (rule sleep_until_precise.fixp_induct)
    (auto simp: curry_def keeps_admissible1 keeps_none intro!: keeps_intros step_keeps)

lemma waits_kept [step_keeps]:
  "keeps I (sleep_with_control_check S t)" "keeps I (sleep_and_mark_activity S t)" "keeps I (estimator_fullness S pps)"
  "keeps I (source_mismatch S)" "keeps I (failed_write S e)"
  unfolding sleep_with_control_check_def sleep_and_mark_activity_def estimator_fullness_def source_mismatch_def failed_write_def
  by (intro keeps_intros step_keeps device)+

lemma drain_loop_kept: "keeps I (drain_loop S dl pps t)"
proof -
  have "\<forall>t. keeps I (drain_loop S dl pps t)"
    by (rule drain_loop.fixp_induct)
      (auto simp: curry_def keeps_admissible keeps_none intro!: keeps_intros step_keeps)
  then show ?thesis by blast
qed

lemma drain_via_estimator_kept [step_keeps]: "keeps I (drain_via_estimator S pps t)"
  unfolding drain_via_estimator_def by (intro keeps_intros step_keeps drain_loop_kept)

subsubsection \<open>The adapters\<close>

text \<open>An adapter that has looked at the kind of the source uses the source of the invariant.\<close>

lemma source_case_kept:
  "(\<And>f. ops = SrcFifo f \<Longrightarrow> keeps I (m f)) \<Longrightarrow> (\<And>g. ops = SrcFrame g \<Longrightarrow> keeps I (q g)) \<Longrightarrow>
   keeps I (ebind (eget dr_ops) (\<lambda>x. case x of SrcFifo f \<Rightarrow> m f | SrcFrame g \<Rightarrow> q g))"
  by (rule keeps_eget_bind) (auto dest!: ops split: source_ops.split)

lemma nf_backoff_kept [step_keeps]: "keeps I (nf_backoff S armed t w)"
  unfolding nf_backoff_def by (intro keeps_intros step_keeps device)

lemma nf_spin_kept [step_keeps]: "keeps I (nf_spin S a pps armed n t w)"
  by (rule nf_spin.fixp_induct)
    (auto simp: curry_def keeps_admissible1 keeps_none intro!: keeps_intros step_keeps)

lemma nf_step_kept [step_keeps]: "keeps I (nf_step S tb a pps armed)"
  unfolding nf_step_def by (intro source_case_kept keeps_intros step_keeps; assumption)

lemma ut_step_kept [step_keeps]: "keeps I (ut_step S a armed)"
  unfolding ut_step_def by (intro source_case_kept keeps_intros step_keeps; assumption)

lemma bf_step_kept [step_keeps]: "keeps I (bf_step S a pps armed)"
  unfolding bf_step_def by (intro source_case_kept keeps_intros step_keeps; assumption)

lemma us_step_kept [step_keeps]: "keeps I (us_step S a pps armed)"
  unfolding us_step_def transient_error_def by (intro source_case_kept keeps_intros step_keeps device; assumption)

lemma adapter_step_kept [step_keeps]: "keeps I (adapter_step S tb pps armed)"
  unfolding adapter_step_def
  by (intro keeps_intros) (auto intro!: step_keeps split: adapter.splits)

end

end
