(* ===== verification/Driver_Safety.thy ===== *)
theory Driver_Safety
  imports Driver_Record Step_Invariant
begin

text \<open>
  The discipline of the shutter holds of every session: whatever the device, the content source and
  the other threads do, an open command is only given for an armed generation that has just been
  read and for which the device has been prepared, it is followed by another read of the desired
  state, and every orderly end of the session leaves a close command behind.
\<close>

subsection \<open>Logs\<close>

definition settled :: "event list \<Rightarrow> bool" where
  "settled l \<longleftrightarrow> (\<forall>e. due l e)"

definition superseded :: "desired_state \<Rightarrow> event list \<Rightarrow> bool" where
  "superseded w l \<longleftrightarrow> (\<exists>newer older. words l = newer @ older \<and> w \<in> set older \<and> (\<exists>w' \<in> set newer. w' \<noteq> w))"

lemma non_returning_Cons: "non_returning (e # l) \<Longrightarrow> non_returning l"
  by (cases e) (simp_all add: non_returning_def)

lemma superseded_stays_away:
  "non_returning_words (w # newer @ older) \<Longrightarrow> w \<in> set older \<Longrightarrow> w' \<in> set newer \<Longrightarrow> w' = w"
proof (induction newer)
  case (Cons a newer)
  have a: "a = w" using Cons.prems by simp
  have "non_returning_words (w # newer @ older)" using Cons.prems(1) a by (cases "newer @ older") auto
  then show ?case using Cons a by auto
qed simp

lemma superseded_not_read: "superseded w l \<Longrightarrow> non_returning (EvWord w # l) \<Longrightarrow> False"
  unfolding superseded_def non_returning_def words.simps by (metis superseded_stays_away)

lemma superseded_Cons: "superseded w l \<Longrightarrow> superseded w (e # l)"
  unfolding superseded_def by (cases e) (force intro: exI [where x = "_ # _"])+

lemma superseded_not_latest: "superseded w l \<Longrightarrow> non_returning l \<Longrightarrow> words l = w # ws \<Longrightarrow> False"
  unfolding superseded_def non_returning_def
proof (elim exE conjE bexE)
  fix newer older w' assume "non_returning_words (words l)" "words l = w # ws" "words l = newer @ older" "w \<in> set older"
    "w' \<in> set newer" "w' \<noteq> w"
  then show False using superseded_stays_away [of w "tl newer" older w'] by (cases newer) auto
qed

lemma latest_word_words: "latest_word l = (case words l of [] \<Rightarrow> None | w # ws \<Rightarrow> Some w)"
  by (induction l rule: words.induct) simp_all

lemma superseded_now: "latest_word l = Some w \<Longrightarrow> w' \<noteq> w \<Longrightarrow> superseded w (EvWord w' # l)"
  unfolding superseded_def latest_word_words
  by (rule exI [where x = "[w']"], rule exI [where x = "words l"]) (auto split: list.splits)

lemma settled_simps [simp]:
  "settled []" "settled (EvShutter False ok # l)" "settled (EvWrite pts # l)" "settled (EvOpened # l)"
  "settled (EvConnected b # l)" "settled (EvReset True # l)" "\<not> settled (EvShutter True ok # l)" "\<not> settled (EvReset False # l)"
proof -
  show "\<not> settled (EvShutter True ok # l)" unfolding settled_def by (auto intro!: exI [where x = EvOpened])
  show "\<not> settled (EvReset False # l)" unfolding settled_def by (auto intro!: exI [where x = EvOpened])
qed (auto simp: settled_def)

lemma settled_word: "settled l \<Longrightarrow> settled (EvWord w # l)"
proof -
  assume l: "settled l"
  have "due (EvWord w # l) e" for e
  proof (cases l)
    case (Cons a m)
    then show ?thesis using l by (cases "(EvWord w # l, e)" rule: due.cases) auto
  qed simp
  then show ?thesis by (simp add: settled_def)
qed

lemma settled_due [simp]: "settled l \<Longrightarrow> due l e"
  by (simp add: settled_def)

subsection \<open>The invariant of a session\<close>

abbreviation dlog :: "('w recorded, 's) driver \<Rightarrow> event list" where
  "dlog d \<equiv> rw_log (dr_world d)"

text \<open>Of the log at any point between two commands, and of a log on which the backend is in use.\<close>

definition log_fine :: "bool \<Rightarrow> event list \<Rightarrow> bool" where
  "log_fine fifo l \<longleftrightarrow> (non_returning l \<longrightarrow> log_ok fifo l \<and> settled l)"

definition handled_ok :: "bool \<Rightarrow> desired_state \<Rightarrow> event list \<Rightarrow> bool" where
  "handled_ok fifo h l \<longleftrightarrow> (ds_is_armed h \<longrightarrow> (fifo \<longrightarrow> prepared h l) \<or> superseded h l)"

text \<open>With the flag, the handled word is one the device is prepared for.\<close>

definition sinv :: "bool \<Rightarrow> bool \<Rightarrow> ('w recorded, 's) driver \<Rightarrow> bool" where
  "sinv fifo h d \<longleftrightarrow> (\<exists>k. dr_backend d = rec_kind k \<and> bk_is_frame_swap k = (\<not> fifo)) \<and>
     source_is_frame (dr_ops d) = (\<not> fifo) \<and> log_fine fifo (dlog d) \<and> usable (dlog d) \<and>
     (h \<longrightarrow> handled_ok fifo (dr_handled d) (dlog d))"

lemma log_fine_quiet:
  assumes "log_fine fifo l" "non_returning (e # l) \<Longrightarrow> allowed fifo e l" "settled l \<Longrightarrow> settled (e # l)"
  shows "log_fine fifo (e # l)"
  using assms non_returning_Cons [of e l] by (auto simp: log_fine_def)

lemma log_fine_word: "log_fine fifo l \<Longrightarrow> log_fine fifo (EvWord w # l)"
  by (rule log_fine_quiet) (simp_all add: settled_word)

lemma log_fine_close: "log_fine fifo l \<Longrightarrow> log_fine fifo (EvShutter False ok # l)"
  by (rule log_fine_quiet) simp_all

lemma log_fine_write: "log_fine fifo l \<Longrightarrow> usable l \<Longrightarrow> log_fine fifo (EvWrite pts # l)"
  by (rule log_fine_quiet) simp_all

lemma log_fine_others: "log_fine fifo l \<Longrightarrow> log_fine fifo (EvOpened # l)" "log_fine fifo l \<Longrightarrow> log_fine fifo (EvConnected b # l)"
    "log_fine fifo l \<Longrightarrow> log_fine fifo (EvReset True # l)"
  by (rule log_fine_quiet; simp)+

lemmas log_fine_intros = log_fine_word log_fine_close log_fine_write log_fine_others

lemma handled_ok_quiet:
  assumes "handled_ok fifo h l" "prepared h l \<Longrightarrow> prepared h (e # l)"
  shows "handled_ok fifo h (e # l)"
  using assms superseded_Cons [of h l e] unfolding handled_ok_def by blast

text \<open>Events that change neither the backend in use nor its preparation.\<close>

fun plain :: "event \<Rightarrow> bool" where
  "plain (EvWord w) = True"
| "plain (EvShutter opn ok) = (\<not> opn)"
| "plain (EvWrite pts) = True"
| "plain _ = False"

lemma plain_keeps:
  assumes "plain e"
  shows "log_fine fifo l \<Longrightarrow> usable l \<Longrightarrow> log_fine fifo (e # l)" "usable l \<Longrightarrow> usable (e # l)"
    "handled_ok fifo h l \<Longrightarrow> handled_ok fifo h (e # l)"
  using assms by (cases e; auto intro: log_fine_intros handled_ok_quiet)+

text \<open>
  An effect on the world that changes the log by events of some kind only. It is tame when they
  are plain; it then keeps the invariant.
\<close>

definition logs :: "(event \<Rightarrow> bool) \<Rightarrow> ('w recorded, 'e, 'a) eff \<Rightarrow> bool" where
  "logs p m \<longleftrightarrow> (\<forall>r x r'. m r = Some (x, r') \<longrightarrow> (\<exists>es. rw_log r' = es @ rw_log r \<and> list_all p es))"

abbreviation tame :: "('w recorded, 'e, 'a) eff \<Rightarrow> bool" where
  "tame \<equiv> logs plain"

lemma logsI:
  assumes "\<And>r x r'. m r = Some (x, r') \<Longrightarrow> rw_log r' = rw_log r \<or> (\<exists>e. rw_log r' = e # rw_log r \<and> p e)"
  shows "logs p m"
  unfolding logs_def
proof (intro allI impI)
  fix r x r' assume "m r = Some (x, r')"
  from assms [OF this] consider "rw_log r' = [] @ rw_log r" | e where "rw_log r' = [e] @ rw_log r" "p e" by auto
  then show "\<exists>es. rw_log r' = es @ rw_log r \<and> list_all p es" by cases (metis list.pred_inject(1), metis list.pred_inject)
qed

lemma plains_keep:
  assumes "list_all plain es"
  shows "log_fine fifo l \<and> usable l \<Longrightarrow> log_fine fifo (es @ l) \<and> usable (es @ l)"
    "handled_ok fifo h l \<Longrightarrow> handled_ok fifo h (es @ l)"
proof -
  have "log_fine fifo (es @ l) \<and> usable (es @ l)" if "log_fine fifo l \<and> usable l"
    using assms by (induction es) (simp_all add: that plain_keeps)
  then show "log_fine fifo l \<and> usable l \<Longrightarrow> log_fine fifo (es @ l) \<and> usable (es @ l)" .
  have "handled_ok fifo h (es @ l)" if "handled_ok fifo h l"
    using assms by (induction es) (simp_all add: that plain_keeps)
  then show "handled_ok fifo h l \<Longrightarrow> handled_ok fifo h (es @ l)" .
qed

lemma logs_run:
  assumes "logs p m" "on_world m d = Some (x, d')"
  obtains es where "dlog d' = es @ dlog d" "list_all p es" "dr_backend d' = dr_backend d" "dr_ops d' = dr_ops d"
    "dr_handled d' = dr_handled d" "dr_source d' = dr_source d"
proof -
  obtain r where r: "m (dr_world d) = Some (x, r)" "d' = d\<lparr>dr_world := r\<rparr>"
    using assms(2) by (auto simp: on_world_def ezoom_def split: option.splits)
  obtain es where "rw_log r = es @ rw_log (dr_world d)" "list_all p es"
    using assms(1) r(1) unfolding logs_def by blast
  thus thesis using that r(2) by simp
qed

lemma tame_keeps:
  assumes "tame m"
  shows "keeps (sinv fifo h) (on_world m)"
proof (rule keepsI)
  fix d d' :: "('a recorded, 'f) driver" and x assume d: "sinv fifo h d" and run: "on_world m d = Some (x, d')"
  obtain es where es: "dlog d' = es @ dlog d" "list_all plain es" and same: "dr_backend d' = dr_backend d" "dr_ops d' = dr_ops d"
      "dr_handled d' = dr_handled d"
    by (rule logs_run [OF assms run])
  have "handled_ok fifo hd (dlog d')" if "handled_ok fifo hd (dlog d)" for hd
    unfolding es(1) by (rule plains_keep(2) [OF es(2) that])
  moreover have "log_fine fifo (dlog d') \<and> usable (dlog d')"
    unfolding es(1) by (rule plains_keep(1) [OF es(2)]) (use d in \<open>simp add: sinv_def\<close>)
  ultimately show "sinv fifo h d'" using d unfolding sinv_def same by blast
qed

lemma logs_rec_eff: "logs p (rec_eff m)"
  by (rule logsI) (auto simp: rec_eff_def ezoom_def split: option.splits)

lemma logs_rec_call: "(\<And>x. p (ev x)) \<Longrightarrow> logs p (rec_call ev m)"
  by (rule logsI) (auto simp: rec_call_def rec_eff_def ezoom_def rec_log_def split: option.splits)

lemma logs_sched:
  "logs p (estep (sc_now (rec_sched S)))" "logs p (emod (sc_sleep (rec_sched S) t))" "logs p (emod (sc_yield (rec_sched S)))"
  "logs p (emod (sc_error_sink (rec_sched S) e))" "logs p (emod (sc_mark (rec_sched S) LoopActivity))"
  "logs p (emod (sc_mark (rec_sched S) WriteSuccess))" "logs p (emod (sc_set_control (rec_sched S) c))"
  by (rule logsI; auto simp: estep_def emod_def rec_sched_def rec_log_def Let_def split: prod.splits)+

lemma logs_words:
  assumes "\<And>w. p (EvWord w)"
  shows "logs p (emod (sc_others (rec_sched S)))" "logs p (control_access (rec_sched S) f)"
    "logs p (estep (\<lambda>w. let w = sc_others (rec_sched S) w in (g (sc_control (rec_sched S) w), w)))"
  by (rule logsI; auto simp: control_access_def estep_def emod_def rec_sched_def rec_log_def Let_def assms split: prod.splits)+

lemma logs_efail: "logs p (efail e)"
  by (rule logsI) (simp add: efail_def)

lemma logs_ready: "logs p (bk_is_ready_for_frame (rec_kind k))"
  by (cases k) (auto simp: efail_def intro!: logsI)

lemma logs_disconnect: "logs p (bk_disconnect (rec_kind k))"
  by (cases k) (simp_all add: bk_disconnect_def rec_base_def logs_rec_eff)

lemma logs_shutter: "(\<And>ok. p (EvShutter opn ok)) \<Longrightarrow> logs p (bk_set_shutter (rec_kind k) opn)"
  by (cases k) (simp_all add: bk_set_shutter_def rec_base_def logs_rec_call)

lemma logs_write:
  assumes "p (EvWrite pts)"
  shows "logs p (bk_try_write (rec_kind k) pps pts)" "logs p (bk_write_frame_after_ready (rec_kind k) pps pts)"
  by (cases k; simp add: logs_rec_call logs_efail assms)+

lemmas tame_sched = logs_sched [where p = plain]
lemmas tame_words = logs_words [where p = plain, OF plain.simps(1) [THEN iffD2, OF TrueI]]
lemmas tame_backend = logs_disconnect [where p = plain] logs_shutter [where p = plain and opn = False, simplified]
  logs_write [where p = plain, simplified]

named_theorems driver_keeps \<open>operations of the driver that keep the invariant of the session\<close>

lemma device_keeps_sinv:
  assumes "\<And>k. tame (op (rec_kind k))"
  shows "keeps (sinv fifo h) (on_backend op)"
  unfolding on_backend_def by (rule keeps_eget_bind) (auto simp: sinv_def intro!: tame_keeps assms)

lemma surroundings_keep [driver_keeps]:
  "keeps (sinv fifo h) (clock_now (rec_sched S))" "keeps (sinv fifo h) (clock_sleep (rec_sched S) t)"
  "keeps (sinv fifo h) (on_world (emod (sc_yield (rec_sched S))))" "keeps (sinv fifo h) (error_sink (rec_sched S) e)"
  "keeps (sinv fifo h) (marks (rec_sched S) LoopActivity)" "keeps (sinv fifo h) (marks (rec_sched S) WriteSuccess)"
  "keeps (sinv fifo h) (on_world (control_access (rec_sched S) f))" "keeps (sinv fifo h) (control_read (rec_sched S) g)"
  unfolding clock_now_def clock_sleep_def error_sink_def marks_def control_read_def
  by (intro tame_keeps tame_sched tame_words)+

lemma backend_keep [driver_keeps]:
  "keeps (sinv fifo h) (on_backend bk_disconnect)" "keeps (sinv fifo h) (on_backend (\<lambda>k. bk_set_shutter k False))"
  "keeps (sinv fifo h) (on_backend (\<lambda>k. bk_try_write k pps pts))"
  "keeps (sinv fifo h) (on_backend (\<lambda>k. bk_write_frame_after_ready k pps pts))"
  "keeps (sinv fifo h) (on_backend bk_is_ready_for_frame)"
  by (intro device_keeps_sinv tame_backend logs_ready)+

lemma local_keep [driver_keeps]:
  "keeps (sinv fifo h) (mod_source f)" "keeps (sinv fifo h) (set_adapter a)" "keeps (sinv fifo h) (commit_written n armed)"
  "keeps (sinv fifo h) (with_source q)" "keeps (sinv fifo h) change_state" "keeps (sinv fifo h) cached_slice"
  "keeps (sinv fifo h) (ask_backend p)"
  "keeps (sinv fifo h) (emod (\<lambda>d. d\<lparr>dr_shutter := sh\<rparr>))" "keeps (sinv fifo h) (emod (\<lambda>d. d\<lparr>dr_source := s\<rparr>))"
  by (auto simp: mod_source_def set_adapter_def commit_written_def with_source_def change_state_def cached_slice_def
      ask_backend_def sinv_def keeps_def emod_def eget_def)

lemma close_keep [driver_keeps]:
  "keeps (sinv fifo h) (drive_shutter False)" "keeps (sinv fifo h) (close_if_disarmed (rec_sched S))"
  "keeps (sinv fifo h) (command_close force)" "keeps (sinv fifo h) (blank_and_close_shutter pps)"
proof -
  show d: "keeps (sinv fifo h) (drive_shutter False)" for h and fifo
    unfolding drive_shutter_def by (intro keeps_intros driver_keeps)
  show "keeps (sinv fifo h) (close_if_disarmed (rec_sched S))" "keeps (sinv fifo h) (command_close force)"
    "keeps (sinv fifo h) (blank_and_close_shutter pps)"
    unfolding close_if_disarmed_def command_close_def blank_and_close_shutter_def by (intro keeps_intros driver_keeps d)+
qed

subsection \<open>The adapters\<close>

lemma tame_sinv:
  assumes "tame m" "sinv fifo h d" "m (dr_world d) = Some (r, w)"
  shows "sinv fifo h (d\<lparr>dr_world := w\<rparr>)"
proof -
  have "on_world m d = Some (r, d\<lparr>dr_world := w\<rparr>)" using assms(3) by (simp add: on_world_def ezoom_def)
  from keepsD [OF tame_keeps [OF assms(1)] assms(2) this] show ?thesis .
qed

lemma tame_sinv_step:
  "tame (estep f) \<Longrightarrow> sinv fifo h d \<Longrightarrow> sinv fifo h (d\<lparr>dr_world := snd (f (dr_world d))\<rparr>)"
  "tame (emod g) \<Longrightarrow> sinv fifo h d \<Longrightarrow> sinv fifo h (d\<lparr>dr_world := g (dr_world d)\<rparr>)"
  by (erule (1) tame_sinv, simp add: estep_def emod_def)+

lemmas sinv_sched = tame_sinv_step(1) [OF tame_sched(1)] tame_sinv_step(2) [OF tame_sched(2)] tame_sinv_step(2) [OF tame_sched(3)]
  tame_sinv_step(2) [OF tame_sched(4)] tame_sinv_step(2) [OF tame_sched(5)] tame_sinv_step(2) [OF tame_sched(6)]
  tame_sinv_step(2) [OF tame_sched(7)] tame_sinv_step(2) [OF tame_words(1)]

lemma ops_device: "keeps (\<lambda>d. dr_ops d = ops) (on_backend op)"
  by (auto simp: keeps_def on_backend_def on_world_def eff_defs split: option.splits)

lemma sinv_source [simp]: "sinv fifo h (d\<lparr>dr_source := s\<rparr>) = sinv fifo h d" "sinv fifo h (d\<lparr>dr_shutter := sh\<rparr>) = sinv fifo h d"
    "sinv fifo h (d\<lparr>dr_adapter := a\<rparr>) = sinv fifo h d"
  by (simp_all add: sinv_def)

lemma sinv_write:
  assumes "sinv fifo h d"
  shows "bk_try_write (dr_backend d) pps sl (dr_world d) = Some (r, w) \<Longrightarrow> sinv fifo h (d\<lparr>dr_world := w\<rparr>)"
    "bk_write_frame_after_ready (dr_backend d) pps sl (dr_world d) = Some (r, w) \<Longrightarrow> sinv fifo h (d\<lparr>dr_world := w\<rparr>)"
proof -
  obtain k where k: "dr_backend d = rec_kind k" using assms by (auto simp: sinv_def)
  show "sinv fifo h (d\<lparr>dr_world := w\<rparr>)" if "bk_try_write (dr_backend d) pps sl (dr_world d) = Some (r, w)"
    using tame_sinv [OF tame_backend(3) assms] that k by simp
  show "sinv fifo h (d\<lparr>dr_world := w\<rparr>)" if "bk_write_frame_after_ready (dr_backend d) pps sl (dr_world d) = Some (r, w)"
    using tame_sinv [OF tame_backend(4) assms] that k by simp
qed

text \<open>With the source that is in use, the invariant meets the contract of the adapters.\<close>

interpretation disc: step_invariant "rec_sched S" ops armed "\<lambda>d. sinv fifo h d \<and> dr_ops d = ops"
  for S :: "'w sched" and ops :: "'s source_ops" and armed fifo h
  by unfold_locales (auto intro: sinv_sched sinv_write keeps_conj [OF _ ops_device] backend_keep)

lemmas disc_fixed = keeps_fixed [where g = dr_ops]

lemma adapters_keep [driver_keeps]:
  "keeps (sinv fifo h) (process_control_messages (rec_sched S))" "keeps (sinv fifo h) (drain_via_estimator (rec_sched S) pps t)"
  "keeps (sinv fifo h) (adapter_step (rec_sched S) tb pps armed)"
  by (rule disc_fixed, rule disc.process_control_messages_kept disc.drain_via_estimator_kept disc.adapter_step_kept)+

subsection \<open>Arm and disarm edges\<close>

text \<open>The parts of the invariant beside the discipline itself.\<close>

definition scond :: "bool \<Rightarrow> bool \<Rightarrow> ('w recorded, 's) driver \<Rightarrow> bool" where
  "scond fifo h d \<longleftrightarrow> (\<exists>k. dr_backend d = rec_kind k \<and> bk_is_frame_swap k = (\<not> fifo)) \<and>
     source_is_frame (dr_ops d) = (\<not> fifo) \<and> usable (dlog d) \<and>
     (h \<longrightarrow> handled_ok fifo (dr_handled d) (dlog d))"

lemma sinv_scond: "sinv fifo h d \<longleftrightarrow> scond fifo h d \<and> log_fine fifo (dlog d)"
  by (auto simp: sinv_def scond_def)

definition ready :: "bool \<Rightarrow> desired_state \<Rightarrow> event list \<Rightarrow> bool" where
  "ready fifo w l \<longleftrightarrow> (non_returning l \<longrightarrow> fifo \<longrightarrow> prepared w l)"

lemma ready_word: "ready fifo w l \<Longrightarrow> ready fifo w (EvWord w' # l)"
  using non_returning_Cons [of "EvWord w'" l] by (auto simp: ready_def)

lemma control_read_run:
  assumes "control_read (rec_sched S) ctl_desired d = Some (r, d')"
  obtains w i where "r = Inr w" "d' = d\<lparr>dr_world := (dr_world d)\<lparr>rw_inner := i, rw_log := EvWord w # dlog d\<rparr>\<rparr>"
  using assms by (auto simp: control_read_def on_world_def ezoom_def estep_def rec_sched_def rec_log_def Let_def)

lemma drive_shutter_run:
  assumes "drive_shutter opn d = Some (r, d')" "dr_backend d = rec_kind k"
  obtains i ok sh where "r = Inr ()" "d' = d\<lparr>dr_world := (dr_world d)\<lparr>rw_inner := i, rw_log := EvShutter opn ok # dlog d\<rparr>, dr_shutter := sh\<rparr>"
  using assms
  by (cases k) (auto simp: drive_shutter_def on_backend_def on_world_def bk_set_shutter_def rec_base_def rec_call_def
      rec_eff_def rec_log_def eff_defs split: option.splits)

definition opened :: "bool \<Rightarrow> bool \<Rightarrow> desired_state \<Rightarrow> ('w recorded, 's) driver \<Rightarrow> bool" where
  "opened fifo h w d \<longleftrightarrow> scond fifo h d \<and> (\<exists>ok l. dlog d = EvShutter True ok # EvWord w # l) \<and>
     (non_returning (dlog d) \<longrightarrow> log_ok fifo (dlog d))"

definition rechecked :: "bool \<Rightarrow> bool \<Rightarrow> desired_state \<Rightarrow> desired_state \<Rightarrow> ('w recorded, 's) driver \<Rightarrow> bool" where
  "rechecked fifo h w w' d \<longleftrightarrow> scond fifo h d \<and> (\<exists>ok l. dlog d = EvWord w' # EvShutter True ok # EvWord w # l) \<and>
     (non_returning (dlog d) \<longrightarrow> log_ok fifo (dlog d))"

lemma handled_ok_shutter: "handled_ok fifo h l \<Longrightarrow> handled_ok fifo h (EvShutter opn ok # l)"
  by (rule handled_ok_quiet) simp_all

lemma drive_open:
  "hoare (\<lambda>d. sinv fifo h d \<and> (\<exists>l. dlog d = EvWord w # l) \<and> ready fifo w (dlog d) \<and> ds_is_armed w)
     (drive_shutter True) (\<lambda>r d. r = Inr () \<and> opened fifo h w d)"
proof (rule hoareI)
  fix d d' :: "('a recorded, 'b) driver" and r :: "'c + unit"
  assume pre: "sinv fifo h d \<and> (\<exists>l. dlog d = EvWord w # l) \<and> ready fifo w (dlog d) \<and> ds_is_armed w"
    and run: "drive_shutter True d = Some (r, d')"
  obtain k l where k: "dr_backend d = rec_kind k" and l: "dlog d = EvWord w # l" using pre by (auto simp: sinv_def)
  obtain i ok sh where r: "r = Inr ()"
    and d': "d' = d\<lparr>dr_world := (dr_world d)\<lparr>rw_inner := i, rw_log := EvShutter True ok # dlog d\<rparr>, dr_shutter := sh\<rparr>"
    using drive_shutter_run [OF run k] by blast
  have "log_ok fifo (dlog d')" if n: "non_returning (dlog d')"
  proof -
    have "non_returning (dlog d)" using n d' non_returning_Cons by simp
    then show ?thesis using pre l d' by (auto simp: sinv_def log_fine_def ready_def)
  qed
  then show "r = Inr () \<and> opened fifo h w d'"
    using pre l d' r by (auto simp: opened_def sinv_def scond_def handled_ok_shutter)
qed

lemma reread:
  "hoare (opened fifo h w) (control_read (rec_sched S) ctl_desired) (\<lambda>r d. \<exists>w'. r = Inr w' \<and> rechecked fifo h w w' d)"
proof (rule hoareI)
  fix d d' :: "('a recorded, 'b) driver" and r :: "'c + desired_state"
  assume pre: "opened fifo h w d" and run: "control_read (rec_sched S) ctl_desired d = Some (r, d')"
  obtain w' i where r: "r = Inr w'" and d': "d' = d\<lparr>dr_world := (dr_world d)\<lparr>rw_inner := i, rw_log := EvWord w' # dlog d\<rparr>\<rparr>"
    using control_read_run [OF run] by blast
  have "handled_ok fifo (dr_handled d) (dlog d')" if "handled_ok fifo (dr_handled d) (dlog d)"
    using plain_keeps(3) [OF _ that, of "EvWord w'"] d' by simp
  then show "\<exists>w'. r = Inr w' \<and> rechecked fifo h w w' d'"
    using pre r d' non_returning_Cons [of "EvWord w'" "dlog d"] by (auto simp: opened_def rechecked_def scond_def)
qed

lemma rechecked_same: "rechecked fifo h w w d \<Longrightarrow> sinv fifo h d"
  by (auto simp: rechecked_def sinv_scond log_fine_def settled_def)

lemma reclose: "hoare (rechecked fifo h w w') (command_close True) (\<lambda>_. sinv fifo h)"
proof (rule hoareI)
  fix d d' :: "('a recorded, 'b) driver" and r :: "'c + unit"
  assume pre: "rechecked fifo h w w' d" and run: "command_close True d = Some (r, d')"
  obtain k where k: "dr_backend d = rec_kind k" using pre by (auto simp: rechecked_def scond_def)
  have "drive_shutter False d = Some (r, d')" using run by (simp add: command_close_def ebind_def eget_def)
  then obtain i ok sh where
    d': "d' = d\<lparr>dr_world := (dr_world d)\<lparr>rw_inner := i, rw_log := EvShutter False ok # dlog d\<rparr>, dr_shutter := sh\<rparr>"
    using drive_shutter_run k by blast
  have "log_fine fifo (dlog d')"
    using pre d' non_returning_Cons [of "EvShutter False ok" "dlog d"] by (auto simp: rechecked_def log_fine_def)
  then show "sinv fifo h d'" using pre d' by (auto simp: rechecked_def sinv_scond scond_def handled_ok_shutter)
qed

lemma read_word:
  "hoare (\<lambda>d. sinv fifo h d \<and> (a \<longrightarrow> ready fifo w (dlog d))) (control_read (rec_sched S) ctl_desired)
     (\<lambda>r d. \<exists>w'. r = Inr w' \<and> sinv fifo h d \<and> (\<exists>l. dlog d = EvWord w' # l) \<and> (a \<longrightarrow> ready fifo w (dlog d)))"
proof (rule hoareI)
  fix d d' :: "('a recorded, 'b) driver" and r :: "'c + desired_state"
  assume pre: "sinv fifo h d \<and> (a \<longrightarrow> ready fifo w (dlog d))" and run: "control_read (rec_sched S) ctl_desired d = Some (r, d')"
  have k: "sinv fifo h d'" using keepsD [OF surroundings_keep(8) _ run] pre by blast
  show "\<exists>w'. r = Inr w' \<and> sinv fifo h d' \<and> (\<exists>l. dlog d' = EvWord w' # l) \<and> (a \<longrightarrow> ready fifo w (dlog d'))"
    by (rule control_read_run [OF run]) (use pre k ready_word in auto)
qed

lemma settle_shutter_safe:
  "hoare (\<lambda>d. sinv fifo h d \<and> (ds_is_armed w \<longrightarrow> ready fifo w (dlog d))) (settle_shutter (rec_sched S) w) (\<lambda>_. sinv fifo h)"
proof (cases "ds_is_armed w")
  case True
  let ?rest = "ebind (control_read (rec_sched S) ctl_desired) (\<lambda>d2. if d2 \<noteq> w then command_close True else eret ())"
  have "hoare (opened fifo h w) ?rest (\<lambda>_. sinv fifo h)"
    by (rule hoare_ebind [OF reread]) (auto intro!: hoare_if hoare_eret rechecked_same hoare_pre [OF reclose])
  moreover have "hoare (sinv fifo h) ?rest (\<lambda>_. sinv fifo h)"
    by (intro keeps_hoare keeps_intros driver_keeps)
  ultimately have rest: "hoare (\<lambda>d. opened fifo h w d \<or> sinv fifo h d) ?rest (\<lambda>_. sinv fifo h)" by (rule hoare_disj)
  have opens: "hoare (\<lambda>d. sinv fifo h d \<and> (\<exists>l. dlog d = EvWord w # l) \<and> ready fifo w (dlog d))
      (ebind (eget dr_shutter) (\<lambda>sh. if sh \<noteq> ShOpen then drive_shutter True else eret ()))
      (\<lambda>r d. r = Inr () \<and> (opened fifo h w d \<or> sinv fifo h d))"
    by (intro hoare_eget_bind hoare_if hoare_eret)
      (auto intro: hoare_pre [OF hoare_post [OF drive_open]] simp: True)
  show ?thesis unfolding settle_shutter_def
    apply (simp add: True)
    apply (rule hoare_ebind [OF read_word [where a = True, simplified]])
     apply (rule hoare_if)
      apply (auto intro!: hoare_eret)[1]
     apply (rule hoare_ethen [OF hoare_pre [OF opens] hoare_pre [OF rest]])
       apply auto
    done
next
  case False
  then show ?thesis unfolding settle_shutter_def by (auto intro!: hoare_keeps_post [OF close_keep(3)])
qed

lemma infallible_world [infallible_intros]: "infallible (on_world (estep f))" "infallible (control_read S g)"
  by (auto simp: infallible_def control_read_def on_world_def ezoom_def estep_def)

lemma infallible_driver [infallible_intros]:
  "infallible (with_source q)" "infallible change_state" "infallible (drive_shutter opn)" "infallible (command_close force)"
  unfolding with_source_def change_state_def drive_shutter_def command_close_def by (intro infallible_intros)+

lemma settle_infallible [infallible_intros]: "infallible (settle_shutter S w)"
  unfolding settle_shutter_def by (intro infallible_intros)

text \<open>The last word read, between reading and the commands that follow from it.\<close>

definition seen :: "bool \<Rightarrow> bool \<Rightarrow> desired_state \<Rightarrow> ('w recorded, 's) driver \<Rightarrow> bool" where
  "seen fifo h w d \<longleftrightarrow> sinv fifo h d \<and> latest_word (dlog d) = Some w"

lemma seen_local [driver_keeps]:
  "keeps (seen fifo h w) (with_source q)" "keeps (seen fifo h w) change_state"
  using local_keep(4) [of fifo h q] local_keep(5) [of fifo h]
  by (auto simp: keeps_def seen_def with_source_def change_state_def emod_def)

lemma seen_close [driver_keeps]: "keeps (seen fifo h w) (command_close force)"
  unfolding keeps_def
proof (intro allI impI)
  fix d d' :: "('a recorded, 'b) driver" and r :: "'c + unit"
  assume d: "seen fifo h w d" and run: "command_close force d = Some (r, d')"
  have "sinv fifo h d'" using keepsD [OF close_keep(3) _ run] d by (simp add: seen_def)
  moreover obtain k where k: "dr_backend d = rec_kind k" using d by (auto simp: seen_def sinv_def)
  have "d' = d \<or> drive_shutter False d = Some (r, d')"
    using run by (auto simp: command_close_def ebind_def eget_def eret_def split: if_splits)
  then have "latest_word (dlog d') = latest_word (dlog d)" using drive_shutter_run [OF _ k, of False r d'] by fastforce
  ultimately show "seen fifo h w d'" using d by (simp add: seen_def)
qed

lemma falling_edge_safe:
  fixes S :: "'w sched"
  shows "hoare (seen fifo True w :: ('w recorded, 's) driver \<Rightarrow> bool) (falling_edge (rec_sched S) w)
     (\<lambda>r d. case r of Inl x \<Rightarrow> x = TrContinue \<and> sinv fifo True d | Inr _ \<Rightarrow> seen fifo False w d \<and> dr_handled d = w)"
proof -
  let ?mark = "emod (\<lambda>d :: ('w recorded, 's) driver. d\<lparr>dr_handled := w\<rparr>)"
  have mark: "hoare (seen fifo True w) ?mark (\<lambda>r d. r = Inr () \<and> seen fifo False w d \<and> dr_handled d = w)"
    by (rule hoare_emod) (auto simp: seen_def sinv_def)
  have last: "hoare (\<lambda>d :: ('w recorded, 's) driver. seen fifo False w d \<and> dr_handled d = w)
      (ebind (control_read (rec_sched S) ctl_desired) (\<lambda>w'. if w' \<noteq> w then efail TrContinue else eret ()))
      (\<lambda>r d. case r of Inl x \<Rightarrow> x = TrContinue \<and> sinv fifo True d | Inr _ \<Rightarrow> seen fifo False w d \<and> dr_handled d = w)"
  proof (rule hoareI)
    fix d d' :: "('w recorded, 's) driver" and r
    assume d: "seen fifo False w d \<and> dr_handled d = w"
      and run: "ebind (control_read (rec_sched S) ctl_desired) (\<lambda>w'. if w' \<noteq> w then efail TrContinue else eret ()) d = Some (r, d')"
    obtain x :: "transition_outcome + desired_state" and d1 where x: "control_read (rec_sched S) ctl_desired d = Some (x, d1)"
      using run by (auto simp: ebind_def split: option.splits)
    obtain w' i where x': "x = Inr w'" and d1: "d1 = d\<lparr>dr_world := (dr_world d)\<lparr>rw_inner := i, rw_log := EvWord w' # dlog d\<rparr>\<rparr>"
      using control_read_run [OF x] by blast
    have s: "sinv fifo False d1" using keepsD [OF surroundings_keep(8) _ x] d by (simp add: seen_def)
    show "case r of Inl x \<Rightarrow> x = TrContinue \<and> sinv fifo True d' | Inr _ \<Rightarrow> seen fifo False w d' \<and> dr_handled d' = w"
    proof (cases "w' = w")
      case True
      then show ?thesis using run x x' d d1 s by (auto simp: ebind_def eret_def seen_def)
    next
      case False
      then have "superseded w (dlog d1)" using d d1 superseded_now by (simp add: seen_def)
      then have "sinv fifo True d1" using s d d1 by (simp add: sinv_def handled_ok_def)
      then show ?thesis using False run x x' by (auto simp: ebind_def efail_def)
    qed
  qed
  show ?thesis unfolding falling_edge_def
    by (rule hoare_ethen_ok, rule driver_keeps, rule infallible_intros)+ (rule hoare_ethen [OF mark hoare_pre [OF last]]; simp)
qed

lemma reset_run:
  assumes "on_backend bk_reset_device_buffer d = Some (r, d')" "dr_backend d = rec_kind k"
  obtains i es where "d' = d\<lparr>dr_world := (dr_world d)\<lparr>rw_inner := i, rw_log := es @ dlog d\<rparr>\<rparr>"
    "bk_is_frame_swap k \<Longrightarrow> es = [] \<and> is_ok r" "\<not> bk_is_frame_swap k \<Longrightarrow> es = [EvReset (is_ok r)]"
proof (cases k)
  case (KFifo b)
  then show ?thesis using assms that
    by (auto simp: on_backend_def on_world_def rec_call_def rec_eff_def rec_log_def bk_is_frame_swap_def eff_defs split: option.splits)
next
  case (KFrameSwap b)
  then have "d' = d" "is_ok r" using assms by (auto simp: on_backend_def on_world_def eff_defs)
  then show ?thesis using that [where i = "rw_inner (dr_world d)" and es = "[]"] KFrameSwap by (simp add: bk_is_frame_swap_def)
qed

lemma rising_edge_safe:
  "hoare (seen fifo False w :: ('w recorded, 's) driver \<Rightarrow> bool) (rising_edge pps w)
     (\<lambda>r d. case r of Inl x \<Rightarrow> x = TrDisconnected \<and> sinv fifo False d | Inr _ \<Rightarrow> sinv fifo True d \<and> ready fifo w (dlog d))"
proof -
  let ?post = "\<lambda>r d. case r of Inl x \<Rightarrow> x = TrDisconnected \<and> sinv fifo False d | Inr _ \<Rightarrow> sinv fifo True d \<and> ready fifo w (dlog d)"
  let ?failed = "\<lambda>d :: ('w recorded, 's) driver. scond fifo False d \<and> (\<exists>l. dlog d = EvReset False # l \<and> log_fine fifo l)"
  let ?reset = "\<lambda>r d. if is_ok r then sinv fifo False d \<and> (fifo \<longrightarrow> prepared w (dlog d)) else ?failed d"
  have reset: "hoare (seen fifo False w) (on_backend bk_reset_device_buffer) ?reset"
  proof (rule hoareI)
    fix d d' :: "('w recorded, 's) driver" and r :: "error + unit"
    assume d: "seen fifo False w d" and run: "on_backend bk_reset_device_buffer d = Some (r, d')"
    obtain k where k: "dr_backend d = rec_kind k" "bk_is_frame_swap k = (\<not> fifo)" using d by (auto simp: seen_def sinv_def)
    show "?reset r d'"
      by (rule reset_run [OF run k(1)]) (use d k(2) in \<open>cases fifo; cases r; auto simp: seen_def sinv_def scond_def log_fine_others\<close>)
  qed
  have close: "hoare ?failed (command_close True) (\<lambda>(r :: transition_outcome + unit) d. r = Inr () \<and> sinv fifo False d)"
  proof (rule hoareI)
    fix d d' :: "('w recorded, 's) driver" and r :: "transition_outcome + unit"
    assume d: "?failed d" and run: "command_close True d = Some (r, d')"
    obtain k where k: "dr_backend d = rec_kind k" using d by (auto simp: scond_def)
    have run': "drive_shutter False d = Some (r, d')" using run by (simp add: command_close_def ebind_def eget_def)
    obtain l where l: "dlog d = EvReset False # l" "log_fine fifo l" using d by blast
    have "log_fine fifo (EvShutter False ok # EvReset False # l)" for ok
      using l(2) non_returning_Cons [of "EvShutter False ok" "EvReset False # l"] non_returning_Cons [of "EvReset False" l]
      by (auto simp: log_fine_def)
    note fine = this
    show "r = Inr () \<and> sinv fifo False d'"
      by (rule drive_shutter_run [OF run' k]) (use d l(1) fine in \<open>auto simp: sinv_def scond_def\<close>)
  qed
  have "hoare (sinv fifo False :: ('w recorded, 's) driver \<Rightarrow> bool) (ethen (eignore (on_backend bk_disconnect)) (efail TrDisconnected)) ?post"
    by (rule hoare_ethen_ok, intro keeps_intros driver_keeps, rule infallible_intros, rule hoare_efail) simp
  then have fail: "hoare ?failed (ethen (command_close True) (ethen (eignore (on_backend bk_disconnect)) (efail TrDisconnected))) ?post"
    by (intro hoare_ethen [OF close]) (auto elim: hoare_pre)
  have handled: "hoare (\<lambda>d :: ('w recorded, 's) driver. sinv fifo False d \<and> (fifo \<longrightarrow> prepared w (dlog d))) (emod (\<lambda>d. d\<lparr>dr_handled := w\<rparr>)) ?post"
    by (rule hoare_emod) (auto simp: sinv_def handled_ok_def ready_def)
  have "hoare (seen fifo False w :: ('w recorded, 's) driver \<Rightarrow> bool) (ebind (etry (on_backend bk_reset_device_buffer)) (\<lambda>r. case r of
        Inl _ \<Rightarrow> ethen (command_close True) (ethen (eignore (on_backend bk_disconnect)) (efail TrDisconnected))
      | Inr _ \<Rightarrow> emod (\<lambda>d. d\<lparr>dr_handled := w\<rparr>))) ?post"
  proof (rule hoare_try_bind [OF reset], goal_cases)
    case (1 x)
    show ?case by (cases x) (use fail handled in simp_all)
  qed
  then show ?thesis unfolding rising_edge_def
    by (intro hoare_ethen_ok driver_keeps infallible_intros)
qed

lemma edges_safe:
  fixes S :: "'w sched"
  shows "hoare (\<lambda>d :: ('w recorded, 's) driver. seen fifo True w d \<and> dr_handled d = handled) (if w \<noteq> handled
            then ethen (if ds_is_armed handled \<or> \<not> ds_is_armed w then falling_edge (rec_sched S) w else eret ())
                 (if ds_is_armed w then rising_edge pps w else eret ())
            else eret ())
     (\<lambda>r d. case r of Inl x \<Rightarrow> sinv fifo (x = TrContinue) d
        | Inr _ \<Rightarrow> sinv fifo True d \<and> (ds_is_armed w \<longrightarrow> ready fifo w (dlog d)))" (is "hoare ?pre ?m ?post")
proof (cases "w = handled")
  case True
  have "ready fifo w (dlog d)" if "seen fifo True w d" "dr_handled d = w" "ds_is_armed w" for d :: "('w recorded, 's) driver"
    using that superseded_not_latest [of w "dlog d"]
    by (auto simp: seen_def sinv_def handled_ok_def ready_def latest_word_words split: list.splits)
  then show ?thesis using True by (auto intro!: hoare_eret simp: seen_def)
next
  case False
  let ?mid = "\<lambda>(r :: transition_outcome + unit) (d :: ('w recorded, 's) driver). case r of Inl x \<Rightarrow> x = TrContinue \<and> sinv fifo True d
     | Inr _ \<Rightarrow> seen fifo False w d \<and> (\<not> ds_is_armed w \<longrightarrow> dr_handled d = w)"
  have A: "hoare ?pre (if ds_is_armed handled \<or> \<not> ds_is_armed w then falling_edge (rec_sched S) w else eret ()) ?mid"
  proof (rule hoare_if)
    show "hoare ?pre (falling_edge (rec_sched S) w) ?mid"
      by (rule hoare_pre [OF hoare_post [OF falling_edge_safe]]) (auto split: sum.splits)
    show "hoare ?pre (eret ()) ?mid" if "\<not> (ds_is_armed handled \<or> \<not> ds_is_armed w)"
      by (rule hoare_eret) (use that in \<open>auto simp: seen_def sinv_def\<close>)
  qed
  have B: "hoare (?mid (Inr ())) (if ds_is_armed w then rising_edge pps w else eret ()) ?post"
  proof (rule hoare_if)
    show "hoare (?mid (Inr ())) (rising_edge pps w) ?post"
      by (rule hoare_pre [OF hoare_post [OF rising_edge_safe]]) (auto split: sum.splits)
    show "hoare (?mid (Inr ())) (eret ()) ?post" if "\<not> ds_is_armed w"
      by (rule hoare_eret) (use that in \<open>auto simp: seen_def sinv_def handled_ok_def\<close>)
  qed
  have "hoare ?pre (ethen (if ds_is_armed handled \<or> \<not> ds_is_armed w then falling_edge (rec_sched S) w else eret ())
      (if ds_is_armed w then rising_edge pps w else eret ())) ?post"
    by (rule hoare_ethen [OF A B]) simp
  then show ?thesis by (simp only: False not_False_eq_True if_True)
qed

lemma transition_safe:
  fixes S :: "'w sched"
  shows "hoare (sinv fifo True :: ('w recorded, 's) driver \<Rightarrow> bool) (handle_shutter_transition (rec_sched S) pps)
     (\<lambda>r d. \<exists>x. r = Inr x \<and> sinv fifo (x = TrContinue) d)"
proof -
  let ?after = "\<lambda>w (d :: ('w recorded, 's) driver). sinv fifo True d \<and> (ds_is_armed w \<longrightarrow> ready fifo w (dlog d))"
  let ?post = "\<lambda>(r :: transition_outcome + transition_outcome) (d :: ('w recorded, 's) driver).
    sinv fifo ((case r of Inl a \<Rightarrow> a | Inr a \<Rightarrow> a) = TrContinue) d"
  have settle: "hoare (?after w) (ethen (settle_shutter (rec_sched S) w) (eret TrContinue)) ?post" for w
    by (rule hoare_ethen [OF hoare_infallible [OF settle_shutter_safe settle_infallible]]) (auto intro: hoare_eret)
  have read: "hoare (sinv fifo True :: ('w recorded, 's) driver \<Rightarrow> bool) (control_read (rec_sched S) ctl_desired)
      (\<lambda>r d. \<exists>w. r = Inr w \<and> seen fifo True w d)"
    by (rule hoare_pre [OF hoare_post [OF read_word [where a = False]]]) (auto simp: seen_def)
  show ?thesis unfolding handle_shutter_transition_def
    apply (rule hoare_ebody, rule hoare_post [where Q = ?post])
     apply (rule hoare_ebind [OF read])
     apply (rule hoare_eget_bind)
     apply (rule hoare_ethen [OF hoare_pre [OF edges_safe] hoare_pre [OF settle]])
      apply (auto split: sum.splits)
    done
qed

end
