(* ===== verification/Driver_Session.thy ===== *)
theory Driver_Session
  imports Driver_Safety
begin

text \<open>
  The discipline of the shutter through a reconnect, a pass of the driver and a whole session.
\<close>

subsection \<open>Reconnecting\<close>

text \<open>While a replacement is being looked for; with the flag, the backend at hand has confirmed its closed shutter.\<close>

definition wfine :: "bool \<Rightarrow> bool \<Rightarrow> 'w recorded \<Rightarrow> bool" where
  "wfine fifo u r \<longleftrightarrow> log_fine fifo (rw_log r) \<and> replacing (rw_log r) \<and> (u \<longrightarrow> usable (rw_log r))"

named_theorems world_keeps \<open>effects on the world that keep the state of a reconnect\<close>

lemma wfine_rec_eff [world_keeps]: "keeps (wfine fifo u) (rec_eff m)"
  by (auto simp: keeps_def rec_eff_def ezoom_def wfine_def split: option.splits)

lemma wfine_sched [world_keeps]:
  "keeps (wfine fifo u) (estep (sc_now (rec_sched S)))" "keeps (wfine fifo u) (emod (sc_sleep (rec_sched S) t))"
  "keeps (wfine fifo u) (progress (rec_sched S))" "keeps (wfine fifo u) (stop_requested (rec_sched S))"
  "keeps (wfine fifo u) (control_access (rec_sched S) f)"
  by (auto simp: keeps_def estep_def emod_def progress_def stop_requested_def control_access_def rec_sched_def rec_log_def
      Let_def wfine_def log_fine_word split: prod.splits)

lemma wfine_close:
  "hoare (wfine fifo u) (bk_set_shutter (rec_kind k) False)
     (\<lambda>x r. wfine fifo (u \<or> is_ok x) r \<and> closed_last (rw_log r))"
  by (cases k) (auto simp: hoare_def bk_set_shutter_def rec_base_def rec_call_def rec_eff_def rec_log_def ezoom_def wfine_def
      log_fine_close split: option.splits)

lemma wfine_backend [world_keeps]:
  "keeps (wfine fifo u) (bk_disconnect (rec_kind k))" "keeps (wfine fifo u) (bk_connect (rec_kind k))"
proof -
  show d: "keeps (wfine fifo u) (bk_disconnect (rec_kind k))"
    by (cases k) (auto simp: bk_disconnect_def rec_base_def intro!: world_keeps)
  have "keeps (wfine fifo u) (db_connect (bk_base (rec_kind k)))"
    by (cases k) (auto simp: rec_base_def intro!: world_keeps)
  then show "keeps (wfine fifo u) (bk_connect (rec_kind k))"
    unfolding bk_connect_def by (intro keeps_intros d)
qed

lemma rec_kind_frame [simp]: "bk_is_frame_swap (rec_kind k) = bk_is_frame_swap k"
  by (cases k) (simp_all add: bk_is_frame_swap_def)

lemma close_and_disconnect_safe:
  "hoare (wfine fifo u) (close_and_disconnect (rec_kind k)) (\<lambda>x r. is_ok x \<and> wfine fifo u r \<and> closed_last (rw_log r))"
proof -
  have c: "hoare (wfine fifo u) (eignore (bk_set_shutter (rec_kind k) False))
      (\<lambda>x r. is_ok x \<and> wfine fifo u r \<and> closed_last (rw_log r))"
    by (rule hoare_eignore [OF hoare_post [OF wfine_close]]) (auto simp: wfine_def)
  have "keeps (\<lambda>r. wfine fifo u r \<and> closed_last (rw_log r)) (bk_disconnect (rec_kind k))"
    by (cases k) (auto simp: keeps_def bk_disconnect_def rec_base_def rec_eff_def ezoom_def wfine_def split: option.splits)
  then have d: "hoare (\<lambda>r. wfine fifo u r \<and> closed_last (rw_log r)) (eignore (bk_disconnect (rec_kind k)))
      (\<lambda>x r. is_ok x \<and> wfine fifo u r \<and> closed_last (rw_log r))"
    by (intro hoare_eignore hoare_keeps_post) simp_all
  show ?thesis unfolding close_and_disconnect_def by (rule hoare_ethen [OF c hoare_pre [OF d]]) auto
qed

lemma validate_safe:
  assumes "se_sched E = rec_sched S"
  shows "hoare (wfine fifo u) (validate_replacement E expected info (rec_kind k))
     (\<lambda>x r. wfine fifo u r \<and> (is_ok x \<longrightarrow> bk_is_frame_swap k = expected))"
proof -
  have "keeps (wfine fifo u) (validate_replacement E expected info (rec_kind k))"
    unfolding validate_replacement_def assms by (intro keeps_intros world_keeps)
  moreover have "hoare (wfine fifo u) (validate_replacement E expected info (rec_kind k))
      (\<lambda>x r. is_ok x \<longrightarrow> bk_is_frame_swap k = expected)"
    by (rule hoareI) (auto simp: validate_replacement_def efail_def split: if_splits)
  ultimately show ?thesis using keeps_hoare hoare_conj by blast
qed

text \<open>What an attempt ends with.\<close>

definition attempt_ok :: "bool \<Rightarrow> session_exit + (dac_info \<times> 'w recorded backend_kind) option \<Rightarrow> 'w recorded \<Rightarrow> bool" where
  "attempt_ok fifo x r \<longleftrightarrow> wfine fifo False r \<and> (case x of
     Inl exit \<Rightarrow> exit = SessDisconnected \<or> closed_last (rw_log r)
   | Inr None \<Rightarrow> True
   | Inr (Some (info, k)) \<Rightarrow> (\<exists>k0. k = rec_kind k0 \<and> bk_is_frame_swap k0 = (\<not> fifo)) \<and> usable (rw_log r))"

lemma give_up_safe:
  assumes "\<And>r. wfine fifo u r \<and> closed_last (rw_log r) \<Longrightarrow> attempt_ok fifo y r" "\<And>r. m r = Some (y, r)"
  shows "hoare (wfine fifo u) (ethen (close_and_disconnect (rec_kind k)) m) (attempt_ok fifo)"
proof (rule hoare_ethen [OF close_and_disconnect_safe])
  show "hoare (\<lambda>r. is_ok (Inr ()) \<and> wfine fifo u r \<and> closed_last (rw_log r)) m (attempt_ok fifo)"
    by (rule hoareI) (use assms in simp)
qed simp

lemma accept_connected_safe:
  assumes "se_sched E = rec_sched S"
  shows "hoare (wfine fifo False) (accept_connected (validate_replacement E (\<not> fifo)) info (rec_kind k)) (attempt_ok fifo)"
proof -
  let ?validated = "\<lambda>info. ebind (etry (validate_replacement E (\<not> fifo) info (rec_kind k))) (\<lambda>v. case v of
           Inl exit \<Rightarrow> ethen (close_and_disconnect (rec_kind k)) (efail exit)
         | Inr _ \<Rightarrow> eret (Some (info, rec_kind k)))"
  have v: "hoare (wfine fifo True) (?validated info) (attempt_ok fifo)" for info
  proof (rule hoare_try_bind [OF validate_safe [OF assms]], goal_cases)
    case (1 x)
    show ?case
    proof (cases x)
      case (Inl exit)
      have "hoare (wfine fifo True) (ethen (close_and_disconnect (rec_kind k)) (efail exit)) (attempt_ok fifo)"
        by (rule give_up_safe [where y = "Inl exit"]) (auto simp: attempt_ok_def wfine_def efail_def)
      then show ?thesis using Inl by (auto elim: hoare_pre)
    next
      case (Inr y)
      then show ?thesis by (auto intro!: hoare_eret simp: attempt_ok_def wfine_def)
    qed
  qed
  show ?thesis unfolding accept_connected_def Let_def
  proof (rule hoare_try_bind [OF wfine_close], goal_cases)
    case (1 x)
    show ?case
    proof (cases x)
      case (Inl e)
      have "hoare (wfine fifo False) (ethen (close_and_disconnect (rec_kind k)) (eret None)) (attempt_ok fifo)"
        by (rule give_up_safe [where y = "Inr None"]) (auto simp: attempt_ok_def wfine_def eret_def)
      then show ?thesis using Inl by (auto elim: hoare_pre)
    next
      case (Inr y)
      have "hoare (wfine fifo True) (ebind (eget (bk_caps (rec_kind k))) (\<lambda>caps. ?validated (info\<lparr>di_caps := caps\<rparr>))) (attempt_ok fifo)"
        by (rule hoare_eget_bind) (rule hoare_pre [OF v], simp)
      then show ?thesis using Inr by (auto elim: hoare_pre)
    qed
  qed
qed

lemma connect_failed_safe: "hoare (wfine fifo False) (connect_failed (rec_kind k) err) (attempt_ok fifo)"
  unfolding connect_failed_def
proof (rule hoare_eget_bind)
  fix v :: "unit result"
  let ?rest = "if \<not> is_ok v then efail IncompatibleDevice else if \<not> is_retriable err then efail SessDisconnected else eret None"
  let ?y = "if \<not> is_ok v then Inl IncompatibleDevice else if \<not> is_retriable err then Inl SessDisconnected else Inr None"
  have "hoare (wfine fifo False) (ethen (close_and_disconnect (rec_kind k)) ?rest) (attempt_ok fifo)"
    by (rule give_up_safe [where y = ?y]) (auto simp: attempt_ok_def wfine_def efail_def eret_def)
  then show "hoare (\<lambda>r. wfine fifo False r \<and> validate_output_model (rec_kind k) r = v)
      (ethen (close_and_disconnect (rec_kind k)) ?rest) (attempt_ok fifo)"
    by (rule hoare_pre) simp
qed

lemma rec_open_safe:
  "hoare (wfine fifo False) (rec_open m)
     (\<lambda>x r. wfine fifo False r \<and> (\<forall>info k. x = Inr (info, Some k) \<longrightarrow> (\<exists>k0. k = rec_kind k0)))"
proof (rule hoareI)
  fix r r' x assume r: "wfine fifo False r" and run: "rec_open m r = Some (x, r')"
  obtain y r1 where y: "rec_eff m r = Some (y, r1)" using run by (auto simp: rec_open_def ebind_def split: option.splits)
  have r1: "wfine fifo False r1" using keepsD [OF wfine_rec_eff r y] .
  then have "wfine fifo False (rec_log EvOpened r1)" by (auto simp: wfine_def rec_log_def log_fine_others)
  then show "wfine fifo False r' \<and> (\<forall>info k. x = Inr (info, Some k) \<longrightarrow> (\<exists>k0. k = rec_kind k0))"
    using run y r1 by (cases y) (auto simp: rec_open_def eff_defs split: option.splits)
qed

lemma reconnect_attempt_safe:
  assumes "se_sched E = rec_sched S"
  shows "hoare (wfine fifo False) (reconnect_attempt (rec_policy P) (validate_replacement E (\<not> fifo))) (attempt_ok fifo)"
proof -
  let ?connect = "\<lambda>info k. ebind (eget (bk_is_connected (rec_kind k))) (\<lambda>connected.
      ebind (if connected then eret (Inr ()) else etry (bk_connect (rec_kind k))) (\<lambda>c. case c of
        Inl err \<Rightarrow> connect_failed (rec_kind k) err
      | Inr _ \<Rightarrow> accept_connected (validate_replacement E (\<not> fifo)) info (rec_kind k)))"
  have connect: "hoare (wfine fifo False) (?connect info k) (attempt_ok fifo)" for info k
    by (intro hoare_ebind_ok keeps_intros world_keeps infallible_intros hoare_case_sum connect_failed_safe
        accept_connected_safe [OF assms])
  have validated: "hoare (wfine fifo False) (ebind (etry (validate_replacement E (\<not> fifo) info (rec_kind k))) (\<lambda>v. case v of
           Inl exit \<Rightarrow> ethen (close_and_disconnect (rec_kind k)) (efail exit)
         | Inr _ \<Rightarrow> ?connect info k)) (attempt_ok fifo)" for info k
  proof (rule hoare_try_bind [OF validate_safe [OF assms]], goal_cases)
    case (1 x)
    have give_up: "hoare (wfine fifo False) (ethen (close_and_disconnect (rec_kind k)) (efail exit)) (attempt_ok fifo)" for exit
      by (rule give_up_safe [where y = "Inl exit"]) (auto simp: attempt_ok_def wfine_def efail_def)
    show ?case
    proof (cases x)
      case (Inl exit)
      show ?thesis unfolding Inl sum.case by (rule hoare_pre [OF give_up]) simp
    next
      case (Inr y)
      show ?thesis unfolding Inr sum.case by (rule hoare_pre [OF connect]) simp
    qed
  qed
  have open_policy: "rp_open_device (rec_policy P) = rec_open (rp_open_device P)" by (simp add: rec_policy_def)
  show ?thesis unfolding reconnect_attempt_def open_policy
  proof (rule hoare_try_bind [OF rec_open_safe], goal_cases)
    case (1 x)
    show ?case
    proof (cases x)
      case (Inl err)
      then show ?thesis by (auto intro!: hoare_efail hoare_eret simp: attempt_ok_def)
    next
      case (Inr y)
      show ?thesis
      proof (cases "snd y")
        case None
        then show ?thesis using Inr by (cases y) (auto intro!: hoare_eret simp: attempt_ok_def)
      next
        case (Some k)
        then obtain info where y: "y = (info, Some k)" by (cases y) simp
        show ?thesis
        proof (cases "\<exists>k0. k = rec_kind k0")
          case True
          then obtain k0 where k: "k = rec_kind k0" by blast
          show ?thesis unfolding Inr y k sum.case prod.case option.case by (rule hoare_pre [OF validated]) simp
        next
          case False
          then show ?thesis using Inr y by (auto simp: hoare_def)
        qed
      qed
    qed
  qed
qed

definition replaced_ok :: "bool \<Rightarrow> session_exit + (dac_info \<times> 'w recorded backend_kind) \<Rightarrow> 'w recorded \<Rightarrow> bool" where
  "replaced_ok fifo x r \<longleftrightarrow> wfine fifo False r \<and> (case x of
     Inl exit \<Rightarrow> exit = SessDisconnected \<or> exit = SessStopped \<or> closed_last (rw_log r)
   | Inr (info, k) \<Rightarrow> (\<exists>k0. k = rec_kind k0 \<and> bk_is_frame_swap k0 = (\<not> fifo)) \<and> usable (rw_log r))"

lemma infallible_reconnect [infallible_intros]:
  "infallible (progress S)" "infallible (stop_requested S)" "infallible (estep f)"
  by (auto simp: infallible_def progress_def stop_requested_def estep_def emod_def)

lemma stop_sleep_safe: "hoare (wfine fifo u) (stop_sleep_loop (rec_sched S) t) (\<lambda>x r. is_ok x \<and> wfine fifo u r)"
proof -
  have last: "hoare (wfine fifo u) (stop_requested (rec_sched S)) (\<lambda>x r. is_ok x \<and> wfine fifo u r)"
    by (intro hoare_infallible keeps_hoare world_keeps infallible_intros)
  show ?thesis
  proof (rule stop_sleep_loop.fixp_induct, goal_cases)
    case 1
    show ?case using hoare_admissible [where g = "\<lambda>_ :: unit. \<lambda>s. ((rec_sched S, t), s)"] by (simp add: curry_def)
  next
    case 3
    then show ?case
      by (intro hoare_ebind_ok hoare_ethen_ok world_keeps infallible_intros hoare_if last hoare_eret) auto
  qed (rule hoare_none)
qed

lemma retry_loop_safe:
  assumes E: "se_sched E = rec_sched S"
  shows "hoare (wfine fifo False) (retry_loop (rec_sched S) (rec_policy P) (validate_replacement E (\<not> fifo)) flapping n) (replaced_ok fifo)"
proof -
  have sleep: "hoare (wfine fifo False) (sleep_with_stop (rec_sched S) t) (\<lambda>(x :: session_exit + bool) r. is_ok x \<and> wfine fifo False r)" for t
    unfolding sleep_with_stop_def by (intro hoare_ebind_ok world_keeps infallible_intros stop_sleep_safe)
  have wait: "hoare (wfine fifo False) (if b then sleep_with_stop (rec_sched S) t else eret False)
      (\<lambda>(x :: session_exit + bool) r. is_ok x \<and> wfine fifo False r)" for b t
    by (intro hoare_if sleep hoare_eret) simp
  have stopped: "hoare (wfine fifo False) (efail e) (replaced_ok fifo)" if "e = SessStopped \<or> e = SessDisconnected" for e
    by (rule hoare_efail) (use that in \<open>auto simp: replaced_ok_def\<close>)
  have "\<forall>n. hoare (wfine fifo False) (retry_loop (rec_sched S) (rec_policy P) (validate_replacement E (\<not> fifo)) flapping n) (replaced_ok fifo)"
  proof (rule retry_loop.fixp_induct, goal_cases)
    case 1
    show ?case by (simp add: curry_def hoare_admissible)
  next
    case 2
    show ?case by (simp add: hoare_none)
  next
    case (3 f)
    have attempt: "hoare (wfine fifo False) (ebind (reconnect_attempt (rec_policy P) (validate_replacement E (\<not> fifo))) (\<lambda>r. case r of
        Some x \<Rightarrow> eret x | None \<Rightarrow> f (rec_sched S) (rec_policy P) (validate_replacement E (\<not> fifo)) flapping m)) (replaced_ok fifo)" for m
    proof (rule hoare_ebind [OF reconnect_attempt_safe [OF E]])
      fix a show "hoare (attempt_ok fifo (Inr a)) (case a of Some x \<Rightarrow> eret x
          | None \<Rightarrow> f (rec_sched S) (rec_policy P) (validate_replacement E (\<not> fifo)) flapping m) (replaced_ok fifo)"
      proof (cases a)
        case None
        show ?thesis unfolding None option.case by (rule hoare_pre [OF 3 [rule_format]]) (simp add: attempt_ok_def)
      next
        case (Some x)
        then show ?thesis by (auto intro!: hoare_eret simp: attempt_ok_def replaced_ok_def)
      qed
    qed (auto simp: attempt_ok_def replaced_ok_def)
    have waited: "hoare (\<lambda>r. is_ok (Inr stop :: session_exit + bool) \<and> wfine fifo False r) (if stop then efail SessStopped
           else ethen (progress (rec_sched S))
                (ebind (reconnect_attempt (rec_policy P) (validate_replacement E (\<not> fifo))) (\<lambda>r. case r of
                   Some x \<Rightarrow> eret x
                 | None \<Rightarrow> f (rec_sched S) (rec_policy P) (validate_replacement E (\<not> fifo)) flapping m))) (replaced_ok fifo)" for stop m
    proof (rule hoare_pre [where P = "wfine fifo False"])
      show "hoare (wfine fifo False) (if stop then efail SessStopped
           else ethen (progress (rec_sched S))
                (ebind (reconnect_attempt (rec_policy P) (validate_replacement E (\<not> fifo))) (\<lambda>r. case r of
                   Some x \<Rightarrow> eret x
                 | None \<Rightarrow> f (rec_sched S) (rec_policy P) (validate_replacement E (\<not> fifo)) flapping m))) (replaced_ok fifo)"
        by (intro hoare_if hoare_ethen_ok attempt world_keeps infallible_intros) (rule stopped, simp)
    qed simp
    show ?case
      apply (rule allI)
      apply (rule hoare_ethen_ok, rule world_keeps, rule infallible_intros)
      apply (rule hoare_ebind_ok, rule world_keeps, rule infallible_intros)
      apply (rule hoare_if, rule stopped, simp)
      apply (rule hoare_if, rule stopped, simp)
      apply (rule hoare_ebind [OF wait waited])
      apply simp
      done
  qed
  then show ?thesis by blast
qed

lemma reconnect_backend_safe:
  assumes "se_sched E = rec_sched S"
  shows "hoare (wfine fifo False) (reconnect_backend_with_retry (rec_sched S) (rec_policy P) t (validate_replacement E (\<not> fifo)))
     (replaced_ok fifo)"
proof -
  have cb: "keeps (wfine fifo False) (case rp_on_disconnect (rec_policy P) of None \<Rightarrow> eret () | Some cb \<Rightarrow> emod (cb e))"
      "infallible (case rp_on_disconnect (rec_policy P) of None \<Rightarrow> eret () | Some cb \<Rightarrow> emod (cb e))" for e
    by (cases "rp_on_disconnect P"; auto simp: rec_policy_def wfine_def intro!: keeps_intros infallible_intros)+
  have flap: "keeps (wfine fifo False) (is_flapping (rec_sched S) t b)" "infallible (is_flapping (rec_sched S) t b)" for b
    unfolding is_flapping_def by (cases t; auto intro!: keeps_intros world_keeps infallible_intros)+
  show ?thesis unfolding reconnect_backend_with_retry_def
    by (intro hoare_ethen_ok hoare_ebind_ok cb flap retry_loop_safe [OF assms])
qed

text \<open>The state of the driver between losing a backend and adopting another.\<close>

definition rstate :: "bool \<Rightarrow> bool \<Rightarrow> ('w recorded, 's) driver \<Rightarrow> bool" where
  "rstate fifo u d \<longleftrightarrow> wfine fifo u (dr_world d) \<and> source_is_frame (dr_ops d) = (\<not> fifo) \<and> dr_backend d \<in> range rec_kind"

definition pass_ok :: "bool \<Rightarrow> (error + session_exit) + 'a \<Rightarrow> ('w recorded, 's) driver \<Rightarrow> bool" where
  "pass_ok fifo x d = (case x of Inr _ \<Rightarrow> sinv fifo True d | Inl e \<Rightarrow> log_fine fifo (dlog d) \<and> exit_ok e (dlog d) \<and> dr_backend d \<in> range rec_kind)"

lemma exit_ok_closed: "closed_last l \<Longrightarrow> exit_ok e l"
  by (cases "(e, l)" rule: exit_ok.cases) auto

lemma rstate_world: "keeps (wfine fifo u) m \<Longrightarrow> keeps (rstate fifo u) (on_world m)"
  unfolding on_world_def by (rule keeps_ezoom [where Q = "wfine fifo u"]) (auto simp: rstate_def)

lemma mark_connected_run:
  assumes "marks (rec_sched S) (ConnectedMark b) d = Some (r, d')"
  obtains i where "r = Inr ()" "d' = d\<lparr>dr_world := (dr_world d)\<lparr>rw_inner := i, rw_log := EvConnected b # dlog d\<rparr>\<rparr>"
  using assms by (auto simp: marks_def on_world_def ezoom_def emod_def rec_sched_def rec_log_def)

lemma start_replacing:
  fixes S :: "'w sched"
  shows "hoare (sinv fifo False :: ('w recorded, 's) driver \<Rightarrow> bool) (marks (rec_sched S) (ConnectedMark False))
     (\<lambda>(r :: session_exit + unit) d. is_ok r \<and> rstate fifo False d)"
proof (rule hoareI)
  fix d d' :: "('w recorded, 's) driver" and r :: "session_exit + unit"
  assume d: "sinv fifo False d" and run: "marks (rec_sched S) (ConnectedMark False) d = Some (r, d')"
  show "is_ok r \<and> rstate fifo False d'"
    by (rule mark_connected_run [OF run]) (use d in \<open>auto simp: sinv_def rstate_def wfine_def log_fine_others\<close>)
qed

lemma adopt_backend_safe:
  fixes k :: "'w backend_kind"
  assumes E: "se_sched E = rec_sched S" and k: "bk_is_frame_swap k = (\<not> fifo)"
  shows "hoare (rstate fifo True :: ('w recorded, 's) driver \<Rightarrow> bool) (adopt_backend E info (rec_kind k))
     (\<lambda>(r :: 'e + unit) d. is_ok r \<and> sinv fifo True d)"
proof -
  let ?adopt = "\<lambda>t. emod (\<lambda>d :: ('w recorded, 's) driver. d\<lparr>dr_backend := rec_kind k, dr_shutter := ShClosed, dr_handled := ds_initial,
      dr_last_reconnect_at := Some t\<rparr>)"
  have initial: "handled_ok fifo ds_initial l" for l by (simp add: handled_ok_def ds_initial_def ds_is_armed_def)
  have adopt: "hoare (rstate fifo True) (?adopt t) (\<lambda>r d. is_ok r \<and> sinv fifo True d)" for t
    by (rule hoare_emod) (use k initial in \<open>auto simp: rstate_def wfine_def sinv_def\<close>)
  have mark: "hoare (sinv fifo True :: ('w recorded, 's) driver \<Rightarrow> bool) (marks (rec_sched S) (ConnectedMark True))
      (\<lambda>(r :: 'e + unit) d. is_ok r \<and> sinv fifo True d)"
  proof (rule hoareI)
    fix d d' :: "('w recorded, 's) driver" and r :: "'e + unit"
    assume d: "sinv fifo True d" and run: "marks (rec_sched S) (ConnectedMark True) d = Some (r, d')"
    show "is_ok r \<and> sinv fifo True d'"
      by (rule mark_connected_run [OF run]) (use d in \<open>auto simp: sinv_def log_fine_others intro: handled_ok_quiet\<close>)
  qed
  have clock: "keeps (rstate fifo True) (clock_now (rec_sched S))" "infallible (clock_now (rec_sched S))"
    unfolding clock_now_def by (intro rstate_world world_keeps infallible_intros)+
  have capacity: "keeps (sinv fifo True) (emod (\<lambda>d. if source_is_frame (dr_ops d) then d\<lparr>dr_source := h d\<rparr> else d))" for h
    by (rule keeps_emod) (auto simp: sinv_def)
  have udp: "keeps (sinv fifo True) (case a of AUdpTimed _ \<Rightarrow> clock_now (rec_sched S) | _ \<Rightarrow> eret 0)"
      "infallible (case a of AUdpTimed _ \<Rightarrow> clock_now (rec_sched S) | _ \<Rightarrow> eret 0)" for a
    by (cases a; auto simp: clock_now_def intro!: keeps_intros tame_keeps tame_sched infallible_intros)+
  have set: "infallible (set_adapter a)" for a unfolding set_adapter_def by (rule infallible_intros)
  show ?thesis unfolding adopt_backend_def E
    apply (rule hoare_ebind_ok [OF clock])
    apply (rule hoare_ethen [OF adopt])
     apply (rule hoare_pre [where P = "sinv fifo True"])
      apply (rule hoare_ethen [OF mark])
       apply (rule hoare_pre [where P = "sinv fifo True"])
        apply (intro hoare_ethen_ok hoare_ebind_ok driver_keeps infallible_intros capacity udp keeps_intros
        hoare_infallible [OF keeps_hoare] set)
       apply simp_all
    done
qed

lemma hoare_on_world:
  assumes "hoare P m Q"
  shows "hoare (\<lambda>d. P (dr_world d) \<and> R (dr_ops d) (dr_backend d)) (on_world m)
     (\<lambda>x d. Q x (dr_world d) \<and> R (dr_ops d) (dr_backend d))"
  by (rule hoareI) (use hoareD [OF assms] in \<open>auto simp: on_world_def ezoom_def split: option.splits\<close>)

definition reconnect_ok :: "bool \<Rightarrow> session_exit + unit \<Rightarrow> ('w recorded, 's) driver \<Rightarrow> bool" where
  "reconnect_ok fifo x d = (case x of Inr _ \<Rightarrow> sinv fifo True d | Inl exit \<Rightarrow> log_fine fifo (dlog d) \<and> exit_ok (Inr exit) (dlog d) \<and>
     dr_backend d \<in> range rec_kind)"

lemma reject_backend_safe:
  "hoare (rstate fifo u :: ('w recorded, 's) driver \<Rightarrow> bool) (ethen (on_world (close_and_disconnect (rec_kind k))) (efail IncompatibleDevice))
     (reconnect_ok fifo)"
proof -
  have "hoare (rstate fifo u :: ('w recorded, 's) driver \<Rightarrow> bool) (on_world (close_and_disconnect (rec_kind k)))
      (\<lambda>(r :: session_exit + unit) d. is_ok r \<and> rstate fifo u d \<and> closed_last (dlog d))"
    by (rule hoare_pre [OF hoare_post [OF hoare_on_world [OF close_and_disconnect_safe [of fifo u k], where R = "\<lambda>ops k. source_is_frame ops = (\<not> fifo) \<and> k \<in> range rec_kind"]]])
      (auto simp: rstate_def)
  then show ?thesis
    by (rule hoare_ethen) (auto intro!: hoare_efail simp: reconnect_ok_def rstate_def wfine_def)
qed

lemma driver_reconnect_safe:
  fixes S :: "'w sched"
  assumes E: "se_sched E = rec_sched S" "se_policy E = map_option rec_policy P"
  shows "hoare (sinv fifo False :: ('w recorded, 's) driver \<Rightarrow> bool) (driver_reconnect E) (reconnect_ok fifo)"
proof (cases P)
  case None
  then show ?thesis by (auto simp: driver_reconnect_def E intro!: hoare_efail simp: reconnect_ok_def sinv_def)
next
  case (Some P)
  have retry: "hoare (rstate fifo False :: ('w recorded, 's) driver \<Rightarrow> bool)
      (on_world (reconnect_backend_with_retry (rec_sched S) (rec_policy P) t (validate_replacement E (\<not> fifo))))
      (\<lambda>x d. replaced_ok fifo x (dr_world d) \<and> source_is_frame (dr_ops d) = (\<not> fifo) \<and> dr_backend d \<in> range rec_kind)" for t
    by (rule hoare_pre [OF hoare_on_world [OF reconnect_backend_safe [OF E(1), of fifo P t],
          where R = "\<lambda>ops k. source_is_frame ops = (\<not> fifo) \<and> k \<in> range rec_kind"]]) (simp add: rstate_def)
  have access: "keeps (rstate fifo True) (on_world (control_access (rec_sched S) f))" "infallible (on_world (control_access (rec_sched S) f))" for f
    by (intro rstate_world world_keeps) (simp add: control_access_def infallible_world)
  have callback: "keeps (sinv fifo True) (case rp_on_reconnect (rec_policy P) of None \<Rightarrow> eret () | Some cb \<Rightarrow> on_world (emod (cb info)))"
      "infallible (case rp_on_reconnect (rec_policy P) of None \<Rightarrow> eret () | Some cb \<Rightarrow> on_world (emod (cb info)))" for info
    by (cases "rp_on_reconnect P"; auto simp: rec_policy_def sinv_def keeps_def infallible_def on_world_def ezoom_def emod_def eret_def)+
  note called = hoare_infallible [OF keeps_hoare [OF callback(1)] callback(2)]
  have bounds: "hoare (rstate fifo True :: ('w recorded, 's) driver \<Rightarrow> bool)
      (ebind (on_world (control_access (rec_sched S) (update_pps_bounds lo hi))) (\<lambda>r. case r of
        Inl _ \<Rightarrow> ethen (on_world (close_and_disconnect (rec_kind k))) (efail IncompatibleDevice)
      | Inr _ \<Rightarrow> ethen (adopt_backend E info (rec_kind k))
          (case rp_on_reconnect (rec_policy P) of None \<Rightarrow> eret () | Some cb \<Rightarrow> on_world (emod (cb info))))) (reconnect_ok fifo)"
    if k: "bk_is_frame_swap k = (\<not> fifo)" for lo hi info k
  proof (intro hoare_ebind_ok access hoare_case_sum reject_backend_safe)
    show "hoare (rstate fifo True :: ('w recorded, 's) driver \<Rightarrow> bool) (ethen (adopt_backend E info (rec_kind k))
          (case rp_on_reconnect (rec_policy P) of None \<Rightarrow> eret () | Some cb \<Rightarrow> on_world (emod (cb info)))) (reconnect_ok fifo)"
      by (rule hoare_ethen [OF adopt_backend_safe [OF E(1) k] hoare_pre [OF hoare_post [OF called]]])
        (auto simp: reconnect_ok_def split: sum.splits)
  qed
  have found: "hoare (\<lambda>d :: ('w recorded, 's) driver. replaced_ok fifo (Inr x) (dr_world d) \<and>
      source_is_frame (dr_ops d) = (\<not> fifo) \<and> dr_backend d \<in> range rec_kind)
      (case x of (info, k) \<Rightarrow> ebind (eget (\<lambda>d. bk_caps k (dr_world d))) (\<lambda>caps.
      ebind (on_world (control_access (rec_sched S) (update_pps_bounds (pps_min caps) (pps_max caps)))) (\<lambda>r. case r of
        Inl _ \<Rightarrow> ethen (on_world (close_and_disconnect k)) (efail IncompatibleDevice)
      | Inr _ \<Rightarrow> ethen (adopt_backend E info k)
          (case rp_on_reconnect (rec_policy P) of None \<Rightarrow> eret () | Some cb \<Rightarrow> on_world (emod (cb info)))))) (reconnect_ok fifo)" for x
  proof (cases x)
    case (Pair info k)
    show ?thesis
    proof (cases "\<exists>k0. k = rec_kind k0 \<and> bk_is_frame_swap k0 = (\<not> fifo)")
      case True
      then obtain k0 where k: "k = rec_kind k0" "bk_is_frame_swap k0 = (\<not> fifo)" by blast
      show ?thesis unfolding Pair prod.case k(1)
        by (rule hoare_eget_bind, rule hoare_pre [OF bounds [OF k(2)]]) (auto simp: replaced_ok_def rstate_def wfine_def)
    next
      case False
      then have none: "\<not> replaced_ok fifo (Inr x) (dr_world d)" for d :: "('w recorded, 's) driver"
        using Pair by (auto simp: replaced_ok_def)
      show ?thesis by (rule hoare_pre [OF hoare_False]) (use none in blast)
    qed
  qed
  have lost: "replaced_ok fifo (Inl e) (dr_world d) \<Longrightarrow> dr_backend d \<in> range rec_kind \<Longrightarrow> reconnect_ok fifo (Inl e) d" for e and d :: "('w recorded, 's) driver"
    using exit_ok_closed [of "dlog d" "Inr e"] by (auto simp: replaced_ok_def reconnect_ok_def wfine_def)
  show ?thesis unfolding driver_reconnect_def E Some option.map option.case
  proof (rule hoare_ethen [OF start_replacing hoare_pre [OF hoare_eget_bind [where P = "rstate fifo False"]]], goal_cases)
    case (1 x)
    obtain t expected where x: "x = (t, expected)" by fastforce
    show ?case
    proof (cases "expected = (\<not> fifo)")
      case True
      show ?thesis unfolding x prod.case True by (rule hoare_ebind [OF hoare_pre [OF retry] found]) (auto intro: lost)
    next
      case False
      show ?thesis by (rule hoare_pre [OF hoare_False]) (use False x in \<open>auto simp: rstate_def\<close>)
    qed
  qed simp_all
qed

subsection \<open>A pass of the driver\<close>

lemma tame_keeps_closed:
  assumes "tame m"
  shows "keeps (\<lambda>d. sinv fifo h d \<and> closed_last (dlog d)) (on_world m)"
proof -
  have "closed_last (es @ l)" if "list_all plain es" "closed_last l" for es l
    using that
  proof (induction es)
    case (Cons e es)
    then show ?case by (cases e) auto
  qed simp
  moreover have "\<exists>es. dlog d' = es @ dlog d \<and> list_all plain es" if "on_world m d = Some (x, d')" for d d' :: "('a recorded, 'f) driver" and x
    by (rule logs_run [OF assms that]) blast
  ultimately show ?thesis
    unfolding keeps_def using keepsD [OF tame_keeps [OF assms]] by metis
qed

definition reset_failed :: "bool \<Rightarrow> ('w recorded, 's) driver \<Rightarrow> bool" where
  "reset_failed fifo d \<longleftrightarrow> scond fifo False d \<and> (\<exists>l. dlog d = EvReset False # l \<and> log_fine fifo l)"

lemma final_close:
  "hoare (\<lambda>d :: ('w recorded, 's) driver. sinv fifo False d \<or> reset_failed fifo d) (drive_shutter False)
     (\<lambda>(r :: 'e + unit) d. is_ok r \<and> sinv fifo False d \<and> closed_last (dlog d))"
proof (rule hoareI)
  fix d d' :: "('w recorded, 's) driver" and r :: "'e + unit"
  assume d: "sinv fifo False d \<or> reset_failed fifo d" and run: "drive_shutter False d = Some (r, d')"
  obtain k where k: "dr_backend d = rec_kind k" using d by (auto simp: sinv_def scond_def reset_failed_def)
  have "log_fine fifo (EvShutter False ok # dlog d)" for ok
    using d non_returning_Cons [of "EvShutter False ok" "dlog d"] non_returning_Cons [of "EvReset False"]
    by (auto simp: sinv_def reset_failed_def log_fine_def)
  note fine = this
  show "is_ok r \<and> sinv fifo False d' \<and> closed_last (dlog d')"
    by (rule drive_shutter_run [OF run k]) (use d fine in \<open>auto simp: sinv_def scond_def reset_failed_def\<close>)
qed

lemma blank_and_close_safe:
  "hoare (\<lambda>d :: ('w recorded, 's) driver. sinv fifo False d \<or> reset_failed fifo d) (blank_and_close_shutter pps)
     (\<lambda>(r :: 'e + unit) d. is_ok r \<and> sinv fifo False d \<and> closed_last (dlog d))"
proof -
  have "keeps (\<lambda>d :: ('w recorded, 's) driver. sinv fifo False d \<and> closed_last (dlog d)) (on_backend (\<lambda>k. bk_try_write k pps pts))" for pts
    unfolding on_backend_def
  proof (rule keeps_eget_bind)
    fix d :: "('w recorded, 's) driver" assume "sinv fifo False d \<and> closed_last (dlog d)"
    then obtain k where "dr_backend d = rec_kind k" by (auto simp: sinv_def)
    then show "keeps (\<lambda>d. sinv fifo False d \<and> closed_last (dlog d)) (on_world (bk_try_write (dr_backend d) pps pts))"
      using tame_keeps_closed tame_backend(3) by metis
  qed
  then have "hoare (\<lambda>d :: ('w recorded, 's) driver. sinv fifo False d \<and> closed_last (dlog d)) (eignore (on_backend (\<lambda>k. bk_try_write k pps pts)))
      (\<lambda>(r :: 'e + unit) d. is_ok r \<and> sinv fifo False d \<and> closed_last (dlog d))" for pts
    by (intro hoare_infallible [OF keeps_hoare] keeps_intros infallible_intros)
  then show ?thesis unfolding blank_and_close_shutter_def
    by (rule hoare_ethen [OF final_close hoare_pre]) auto
qed

lemma sinv_weaken: "sinv fifo h d \<Longrightarrow> sinv fifo False d"
  by (simp add: sinv_def)

lemma infallible_ebody [infallible_intros]: "infallible (ebody m)"
  by (auto simp: infallible_def ebody_def split: option.splits sum.splits)

lemma infallible_hoare: "infallible m \<longleftrightarrow> hoare (\<lambda>_. True) m (\<lambda>r _. is_ok r)"
  by (auto simp: infallible_def hoare_def)

lemma infallible_step [infallible_intros]: "infallible (adapter_step S tb pps armed)"
proof -
  have "infallible (case a of ANetworkFifo a \<Rightarrow> nf_step S tb a pps armed | AUdpTimed a \<Rightarrow> ut_step S a armed
     | ABlockingFifo a \<Rightarrow> bf_step S a pps armed | AUsbFrameSwap a \<Rightarrow> us_step S a pps armed)" for a
    by (cases a) (simp_all add: nf_step_def ut_step_def bf_step_def us_step_def infallible_ebody)
  then show ?thesis unfolding adapter_step_def by (intro infallible_intros)
qed

lemma infallible_messages [infallible_intros]: "infallible (process_messages S a)"
proof -
  have access: "infallible (on_world (control_access S f))" for f by (simp add: control_access_def infallible_world)
  have "\<forall>a. infallible (process_messages S a)"
    unfolding infallible_hoare
  proof (rule process_messages.fixp_induct, goal_cases)
    case (3 f)
    then show ?case unfolding infallible_hoare [symmetric]
      by (auto intro!: infallible_intros access split: option.split)
  qed (simp_all add: curry_def hoare_admissible hoare_none)
  then show ?thesis by blast
qed

lemma infallible_control [infallible_intros]: "infallible (process_control_messages S)"
  unfolding process_control_messages_def by (rule infallible_intros)

lemma reset_ignored:
  "hoare (sinv fifo False :: ('w recorded, 's) driver \<Rightarrow> bool) (eignore (on_backend bk_reset_device_buffer))
     (\<lambda>(r :: 'e + unit) d. is_ok r \<and> (sinv fifo False d \<or> reset_failed fifo d))"
proof (rule hoare_eignore, rule hoareI)
  fix d d' :: "('w recorded, 's) driver" and r :: "error + unit"
  assume d: "sinv fifo False d" and run: "on_backend bk_reset_device_buffer d = Some (r, d')"
  obtain k where k: "dr_backend d = rec_kind k" "bk_is_frame_swap k = (\<not> fifo)" using d by (auto simp: sinv_def)
  show "is_ok (Inr () :: 'e + unit) \<and> (sinv fifo False d' \<or> reset_failed fifo d')"
    by (rule reset_run [OF run k(1)])
      (use d k(2) in \<open>cases fifo; cases r; auto simp: sinv_def scond_def reset_failed_def log_fine_others\<close>)
qed

lemma infallible_clock [infallible_intros]:
  "infallible (clock_now S)" "infallible (clock_sleep S t)" "infallible (marks S m)" "infallible (ask_backend g)"
  by (auto simp: infallible_def clock_now_def clock_sleep_def marks_def ask_backend_def on_world_def ezoom_def estep_def emod_def eget_def)

lemma infallible_waits [infallible_intros]: "infallible (close_if_disarmed S)" "infallible (estimator_fullness S pps)"
  unfolding close_if_disarmed_def estimator_fullness_def
  by (auto intro!: infallible_intros split: option.split)

lemma infallible_drain [infallible_intros]: "infallible (drain_loop S dl pps t)"
proof -
  have "\<forall>t. infallible (drain_loop S dl pps t)"
    unfolding infallible_hoare
  proof (rule drain_loop.fixp_induct, goal_cases)
    case (3 f)
    then show ?case unfolding infallible_hoare [symmetric] by (auto intro!: infallible_intros)
  qed (simp_all add: curry_def hoare_admissible hoare_none)
  then show ?thesis by blast
qed

lemma drain_and_blank_safe:
  fixes S :: "'w sched"
  shows "hoare (sinv fifo False :: ('w recorded, 's) driver \<Rightarrow> bool) (drain_and_blank (rec_sched S) pps t)
     (\<lambda>(r :: 'e + unit) d. is_ok r \<and> sinv fifo False d \<and> closed_last (dlog d))"
proof -
  have drain: "infallible (drain_via_estimator (rec_sched S) pps t)"
    unfolding drain_via_estimator_def by (intro infallible_intros)
  have blank: "hoare (sinv fifo False :: ('w recorded, 's) driver \<Rightarrow> bool) (blank_and_close_shutter pps)
     (\<lambda>(r :: 'e + unit) d. is_ok r \<and> sinv fifo False d \<and> closed_last (dlog d))"
    by (rule hoare_pre [OF blank_and_close_safe]) simp
  have reset: "hoare (sinv fifo False :: ('w recorded, 's) driver \<Rightarrow> bool) (ethen (eignore (on_backend bk_reset_device_buffer)) (blank_and_close_shutter pps))
     (\<lambda>(r :: 'e + unit) d. is_ok r \<and> sinv fifo False d \<and> closed_last (dlog d))"
    by (rule hoare_ethen [OF reset_ignored hoare_pre [OF blank_and_close_safe]]) auto
  show ?thesis unfolding drain_and_blank_def
  proof (intro hoare_ebind_ok keeps_intros infallible_intros)
    fix a show "hoare (sinv fifo False :: ('w recorded, 's) driver \<Rightarrow> bool) (case a of
       ABlockingFifo _ \<Rightarrow> ethen (drain_via_estimator (rec_sched S) pps t)
         (ethen (eignore (on_backend bk_reset_device_buffer)) (blank_and_close_shutter pps))
     | AUsbFrameSwap _ \<Rightarrow> blank_and_close_shutter pps
     | _ \<Rightarrow> ethen (drain_via_estimator (rec_sched S) pps t) (blank_and_close_shutter pps))
     (\<lambda>(r :: 'e + unit) d. is_ok r \<and> sinv fifo False d \<and> closed_last (dlog d))"
      by (cases a) (auto intro!: hoare_ethen_ok blank reset driver_keeps drain)
  qed
qed

lemma forced_close:
  "hoare (sinv fifo h :: ('w recorded, 's) driver \<Rightarrow> bool) (command_close True)
     (\<lambda>(r :: 'e + unit) d. is_ok r \<and> sinv fifo False d \<and> closed_last (dlog d))"
proof (rule hoareI)
  fix d d' :: "('w recorded, 's) driver" and r :: "'e + unit"
  assume d: "sinv fifo h d" and run: "command_close True d = Some (r, d')"
  have "drive_shutter False d = Some (r, d')" using run by (simp add: command_close_def ebind_def eget_def)
  then show "is_ok r \<and> sinv fifo False d' \<and> closed_last (dlog d')" using hoareD [OF final_close] sinv_weaken [OF d] by blast
qed

lemma end_pass: "sinv fifo False d \<Longrightarrow> closed_last (dlog d) \<Longrightarrow> pass_ok fifo (Inl e) d"
  by (auto simp: pass_ok_def sinv_def exit_ok_closed)

lemma stop_exit_safe: "hoare (sinv fifo h) stop_exit (pass_ok fifo)"
proof -
  have "hoare (sinv fifo h) stop_and_close_shutter (\<lambda>r d. is_ok r \<and> sinv fifo False d \<and> closed_last (dlog d))"
    unfolding stop_and_close_shutter_def by (rule hoare_ethen [OF forced_close]) (auto intro!: hoare_eret)
  then show ?thesis unfolding stop_exit_def by (rule hoare_ebind) (auto intro!: hoare_efail end_pass)
qed

lemma reconnect_pass: 
  assumes "se_sched E = rec_sched S" "se_policy E = map_option rec_policy P"
  shows "hoare (sinv fifo h) (emap_err Inr (driver_reconnect E)) (pass_ok fifo)"
proof (rule hoare_emap_err, rule hoare_pre [OF hoare_post [OF driver_reconnect_safe [OF assms, of fifo]]])
qed (auto simp: reconnect_ok_def pass_ok_def sinv_weaken split: sum.splits)

lemma end_check_safe:
  assumes E: "se_sched E = rec_sched S"
  shows "hoare (sinv fifo True) (end_check E pps) (pass_ok fifo)"
proof -
  have ended: "hoare (sinv fifo True) (case e of Some err \<Rightarrow> ethen (command_close True) (efail (Inl err))
      | None \<Rightarrow> ethen (drain_and_blank (rec_sched S) pps (se_drain_timeout E)) (efail (Inr ProducerEnded))) (pass_ok fifo)" for e
  proof (cases e)
    case None
    then show ?thesis
      by (auto intro!: hoare_pre [OF hoare_ethen [OF drain_and_blank_safe]] hoare_efail end_pass sinv_weaken)
  next
    case (Some err)
    then show ?thesis by (auto intro!: hoare_ethen [OF forced_close] hoare_efail end_pass)
  qed
  have take: "keeps (sinv fifo True) (estep (\<lambda>d. let (e, s) = source_take_stop_error (dr_ops d) (dr_source d) in (e, d\<lparr>dr_source := s\<rparr>)))"
    by (rule keeps_estep) (auto simp: sinv_def split: prod.splits)
  show ?thesis unfolding end_check_def E
    by (intro hoare_ebind_ok keeps_intros infallible_intros hoare_if take ended hoare_eret) (simp add: pass_ok_def)
qed

lemma take_frame_keep:
  fixes slot :: "('w \<Rightarrow> frame option \<times> 'w) option"
  assumes "se_pending_frame E = map_option (\<lambda>slot r. let (f, w) = slot (rw_inner r) in (f, r\<lparr>rw_inner := w\<rparr>)) slot"
  shows "keeps (sinv fifo h) (take_frame E)" "infallible (take_frame E)"
proof -
  have "tame (estep (\<lambda>r. let (f, w) = m (rw_inner r) in (f, r\<lparr>rw_inner := w\<rparr>)))" for m :: "'w \<Rightarrow> frame option \<times> 'w"
    by (rule logsI) (auto simp: estep_def split: prod.splits)
  then show "keeps (sinv fifo h) (take_frame E)"
    unfolding take_frame_def assms
    by (cases slot) (auto intro!: keeps_intros tame_keeps driver_keeps split: option.split)
  show "infallible (take_frame E)" unfolding take_frame_def assms
    by (cases slot) (auto intro!: infallible_intros split: option.split)
qed

lemma driver_pass_safe:
  fixes E :: "'w session_env"
  shows "hoare (sinv fifo True :: ('w recorded, 's) driver \<Rightarrow> bool) (driver_pass (rec_env E v)) (pass_ok fifo)"
proof -
  let ?E = "rec_env E v" and ?S = "rec_sched (se_sched E)"
  have E: "se_sched ?E = ?S" "se_policy ?E = map_option rec_policy (se_policy E)"
    "se_pending_frame ?E = map_option (\<lambda>slot r. let (f, w) = slot (rw_inner r) in (f, r\<lparr>rw_inner := w\<rparr>)) (se_pending_frame E)"
    by (simp_all add: rec_env_def)
  note reconnect = reconnect_pass [OF E(1,2)]
  have transition: "hoare (sinv fifo True :: ('w recorded, 's) driver \<Rightarrow> bool) (ebind (handle_shutter_transition ?S pps) (\<lambda>tr.
       if tr = TrDisconnected then emap_err Inr (driver_reconnect ?E) else
       ebind (control_read ?S ctl_is_armed) (\<lambda>armed.
       ebind (adapter_step ?S (se_target_buffer ?E) pps armed) (\<lambda>outcome.
         if outcome = StepStopped then stop_exit
         else if outcome = StepDisconnected then emap_err Inr (driver_reconnect ?E)
         else end_check ?E pps)))) (pass_ok fifo)" for pps
  proof (rule hoare_ebind [OF transition_safe], goal_cases)
    case (1 tr)
    show ?case
    proof (cases "tr = TrDisconnected")
      case True
      show ?thesis unfolding True by (simp add: hoare_pre [OF reconnect])
    next
      case False
      then have "tr = TrContinue" by (cases tr) simp_all
      then show ?thesis
        by (simp, intro hoare_ebind_ok hoare_if driver_keeps infallible_intros stop_exit_safe reconnect end_check_safe [OF E(1)])
    qed
  qed simp
  show ?thesis unfolding driver_pass_def E Let_def
    by (intro hoare_ethen_ok hoare_ebind_ok hoare_if driver_keeps infallible_intros stop_exit_safe reconnect transition
        take_frame_keep [OF E(3)])
qed

subsection \<open>Whole sessions\<close>

primrec driver_passes :: "nat \<Rightarrow> 'w session_env \<Rightarrow> (('w, 's) driver, error + session_exit, unit) eff" where
  "driver_passes 0 E = eret ()"
| "driver_passes (Suc n) E = ethen (driver_pass E) (driver_passes n E)"

lemma driver_passes_safe: "hoare (sinv fifo True) (driver_passes n (rec_env E v)) (pass_ok fifo)"
proof (induction n)
  case 0
  show ?case by (auto intro!: hoare_eret simp: pass_ok_def)
next
  case (Suc n)
  show ?case unfolding driver_passes.simps
    by (rule hoare_ethen [OF driver_pass_safe hoare_pre [OF Suc]]) (auto simp: pass_ok_def)
qed

lemma run_loop_safe: "hoare (sinv fifo True) (run_loop (rec_env E v)) (pass_ok fifo)"
proof (rule run_loop.fixp_induct, goal_cases)
  case 1
  show ?case using hoare_admissible [where g = "\<lambda>_ :: unit. \<lambda>s. (rec_env E v, s)"] by (simp add: curry_def)
next
  case (3 f)
  show ?case by (rule hoare_ethen [OF driver_pass_safe hoare_pre [OF 3]]) (auto simp: pass_ok_def)
qed (rule hoare_none)

text \<open>A run of the loop is a number of passes: sessions that go on for ever are covered pass by pass.\<close>

lemma run_loop_passes:
  assumes "run_loop E d = Some y"
  shows "\<exists>n. driver_passes n E d = Some y"
proof (rule run_loop.raw_induct [where P = "\<lambda>E d y. \<exists>n. driver_passes n E d = Some y", OF _ assms])
  fix f and E :: "'w session_env" and d :: "('w, 's) driver" and y
  assume IH: "\<And>E d y. f E d = Some y \<Longrightarrow> \<exists>n. driver_passes n E d = Some y"
    and run: "ethen (driver_pass E) (f E) d = Some y"
  obtain x d1 where x: "driver_pass E d = Some (x, d1)" using run by (auto simp: ethen_def ebind_def split: option.splits)
  show "\<exists>n. driver_passes n E d = Some y"
  proof (cases x)
    case (Inl e)
    then have "driver_passes (Suc 0) E d = Some y" using x run by (auto simp: ethen_def ebind_def)
    then show ?thesis by blast
  next
    case (Inr u)
    then have "f E d1 = Some y" using x run by (simp add: ethen_def ebind_def)
    then obtain n where "driver_passes n E d1 = Some y" using IH by blast
    then have "driver_passes (Suc n) E d = Some y" using x Inr by (simp add: ethen_def ebind_def)
    then show ?thesis by blast
  qed
qed

definition observed :: "'w \<Rightarrow> 'w recorded" where
  "observed w = \<lparr>rw_inner = w, rw_log = []\<rparr>"

lemma session_start:
  "bk_is_frame_swap k = source_is_frame ops \<Longrightarrow>
   sinv (\<not> source_is_frame ops) True (driver_init (rec_kind k) ops s a (observed w))"
  by (auto simp: sinv_def driver_init_def observed_def log_fine_def handled_ok_def ds_initial_def ds_is_armed_def)

lemma end_session_log: "end_session (rec_kind k) r = Some (x, r') \<Longrightarrow> is_ok x \<and> rw_log r' = rw_log r"
  by (cases k) (auto simp: end_session_def bk_is_connected_def bk_stop_def bk_disconnect_def rec_base_def eignore_def rec_eff_def eff_defs
      split: option.splits if_splits)

lemma ethen_run:
  assumes "ethen m f s = Some (r, s')" "\<And>x s1. m s = Some (x, s1) \<Longrightarrow> is_ok x"
  obtains s1 where "m s = Some (Inr (), s1)" "f s1 = Some (r, s')"
proof -
  obtain x s1 where x: "m s = Some (x, s1)" using assms(1) by (auto simp: ethen_def ebind_def split: option.splits)
  then obtain u where "x = Inr u" using assms(2) by (cases x) fastforce+
  then show thesis using that assms(1) x by (simp add: ethen_def ebind_def)
qed

lemma close_log: "close_and_disconnect (rec_kind k) r = Some (x, r') \<Longrightarrow> is_ok x \<and> (\<exists>ok. rw_log r' = EvShutter False ok # rw_log r)"
  by (cases k) (auto simp: close_and_disconnect_def bk_set_shutter_def bk_disconnect_def rec_base_def eignore_def rec_call_def
      rec_eff_def rec_log_def eff_defs split: option.splits)

lemma for_backend_run:
  assumes "for_backend (rec_sched S) (rec_kind k) frame r = Some (x, r')"
  shows "rw_log r' = rw_log r" "is_ok x \<Longrightarrow> bk_is_frame_swap k = frame"
proof -
  have "keeps (\<lambda>r'. rw_log r' = rw_log r) (for_backend (rec_sched S) (rec_kind k) frame)"
    unfolding for_backend_def
  proof (intro keeps_intros)
    fix m show "keeps (\<lambda>r'. rw_log r' = rw_log r) (case m of UsbFrameSwap \<Rightarrow> eret (AUsbFrameSwap us_new)
      | NetworkFifo \<Rightarrow> eget (\<lambda>w. ANetworkFifo (nf_new (rec_kind k) w))
      | UdpTimed \<Rightarrow> ebind (estep (sc_now (rec_sched S))) (\<lambda>t. ebind (eget (ut_new (rec_kind k) t))
          (\<lambda>a. ebind (eoption a) (\<lambda>a. eret (AUdpTimed a))))
      | BlockingFifo \<Rightarrow> eget (\<lambda>w. ABlockingFifo (bf_new (rec_kind k) w)))"
      by (cases m) (auto intro!: keeps_intros simp: rec_sched_def split: prod.splits)
  qed
  from keepsD [OF this _ assms] show "rw_log r' = rw_log r" by simp
  show "bk_is_frame_swap k = frame" if "is_ok x"
    using assms that
    by (auto simp: for_backend_def validate_output_model_def elift_def ethen_def ebind_def eget_def efail_def split: if_splits)
qed

lemma run_session_safe:
  assumes run: "run_session (rec_env E v) (rec_kind k) ops s (observed w) = Some (result, r')"
  shows "log_fine (\<not> source_is_frame ops) (rw_log r') \<and> exit_ok result (rw_log r')"
proof -
  let ?fifo = "\<not> source_is_frame ops" and ?E = "rec_env E v"
  have sched: "se_sched ?E = rec_sched (se_sched E)" by (simp add: rec_env_def)
  obtain x r1 where x: "for_backend (rec_sched (se_sched E)) (rec_kind k) (source_is_frame ops) (observed w) = Some (x, r1)"
    using run by (auto simp: run_session_def sched split: option.splits)
  have log: "rw_log r1 = []" using for_backend_run(1) [OF x] by (simp add: observed_def)
  show ?thesis
  proof (cases x)
    case (Inl err)
    then have "ethen (close_and_disconnect (rec_kind k)) (ethen (end_session (rec_kind k)) (efail err)) r1 = Some (result, r')"
      using run x by (simp add: run_session_def sched)
    then obtain r2 where r2: "close_and_disconnect (rec_kind k) r1 = Some (Inr () :: error + unit, r2)"
      and rest: "ethen (end_session (rec_kind k)) (efail err) r2 = Some (result, r')"
      by (rule ethen_run) (use close_log in blast)
    obtain r3 where r3: "end_session (rec_kind k) r2 = Some (Inr () :: error + unit, r3)" "efail err r3 = Some (result, r')"
      using rest by (rule ethen_run) (use end_session_log in blast)
    then have "result = Inl err \<and> rw_log r' = rw_log r2" using end_session_log [OF r3(1)] by (auto simp: efail_def)
    moreover have "\<exists>ok. rw_log r2 = [EvShutter False ok]" using close_log [OF r2] log by simp
    ultimately show ?thesis using log by (auto simp: log_fine_def)
  next
    case (Inr a)
    have r1: "r1 = observed (rw_inner r1)" using log by (simp add: observed_def)
    have "bk_is_frame_swap k = source_is_frame ops" using for_backend_run(2) [OF x] Inr by simp
    from session_start [OF this, of s a "rw_inner r1"] r1
    have start: "sinv ?fifo True (driver_init (rec_kind k) ops s a r1)" by simp
    obtain y d where y: "run_loop ?E (driver_init (rec_kind k) ops s a r1) = Some (y, d)"
      using run x Inr by (auto simp: run_session_def sched split: option.splits)
    obtain e where e: "y = Inl e" using run x Inr y by (auto simp: run_session_def sched split: sum.splits)
    have ok: "pass_ok ?fifo (Inl e :: (error + session_exit) + unit) d" using hoareD [OF run_loop_safe start y] e by simp
    then obtain k' where k': "dr_backend d = rec_kind k'" by (auto simp: pass_ok_def)
    have "ethen (end_session (rec_kind k')) (\<lambda>w. Some (e, w)) (dr_world d) = Some (result, r')"
      using run x Inr y e k' by (simp add: run_session_def sched)
    then obtain r3 where r3: "end_session (rec_kind k') (dr_world d) = Some (Inr () :: error + unit, r3)" "Some (e, r3) = Some (result, r')"
      by (rule ethen_run) (use end_session_log in blast)
    then have "result = e \<and> rw_log r' = dlog d" using end_session_log [OF r3(1)] by simp
    then show ?thesis using ok by (simp add: pass_ok_def)
  qed
qed

end
