(* ===== verification/Driver_Shutter.thy ===== *)
theory Driver_Shutter
  imports Driver_Session
begin

text \<open>
  The discipline of the shutter as properties of sessions, and a small scripted world in which a
  session can be run step by step.
\<close>

subsection \<open>Words of the control handle\<close>

text \<open>
  The words a session reads, newest first, when the other threads change the desired state only by
  edges of the control handle, at most \<open>n\<close> in all.
\<close>

fun edge_run :: "desired_state list \<Rightarrow> nat \<Rightarrow> bool" where
  "edge_run (w # w' # ws) n \<longleftrightarrow> (\<exists>as. w = edges as w' \<and> length as \<le> n \<and> edge_run (w' # ws) (n - length as))"
| "edge_run _ n \<longleftrightarrow> True"

lemma edge_run_generation:
  "edge_run (w # ws) n \<Longrightarrow> x \<in> set ws \<Longrightarrow>
   \<exists>m \<le> n. generation w = (generation x + m) mod 2 ^ 63 \<and> (m = 0 \<longrightarrow> hd ws = w)"
proof (induction "w # ws" n arbitrary: w ws rule: edge_run.induct)
  case (1 w w' ws n)
  obtain as where as: "w = edges as w'" "length as \<le> n" "edge_run (w' # ws) (n - length as)" using "1.prems"(1) by auto
  have same: "as = [] \<Longrightarrow> w = w'" using as(1) by simp
  have gen: "generation w = (generation w' + length as) mod 2 ^ 63" using as(1) generation_edges by simp
  show ?case
  proof (cases "x = w'")
    case True
    then show ?thesis using as(2) gen same by (intro exI [where x = "length as"]) auto
  next
    case False
    then have "x \<in> set ws" using "1.prems"(2) by simp
    from "1.hyps" [OF as(3) this] obtain m where m: "m \<le> n - length as" "generation w' = (generation x + m) mod 2 ^ 63" by blast
    then have "generation w = (generation x + (m + length as)) mod 2 ^ 63" using gen by (simp add: mod_simps add.assoc)
    then show ?thesis using m(1) as(2) same by (intro exI [where x = "m + length as"]) auto
  qed
qed auto

lemma edge_run_tl: "edge_run (w # ws) n \<Longrightarrow> \<exists>m \<le> n. edge_run ws m"
  by (cases ws) (auto, meson diff_le_self)

lemma edge_run_non_returning: "edge_run ws n \<Longrightarrow> n < 2 ^ 63 \<Longrightarrow> non_returning_words ws"
proof (induction ws arbitrary: n)
  case (Cons w ws)
  obtain m where m: "m \<le> n" "edge_run ws m" using edge_run_tl [OF Cons.prems(1)] by blast
  have "hd ws = w" if x: "w \<in> set ws"
  proof -
    obtain m where m: "m \<le> n" "generation w = (generation w + m) mod 2 ^ 63" "m = 0 \<longrightarrow> hd ws = w"
      using edge_run_generation [OF Cons.prems(1) x] by blast
    have "generation w mod 2 ^ 63 = (generation w + m) mod 2 ^ 63" using m(2) by simp
    then have "m mod 2 ^ 63 = 0" by (metis add_diff_cancel_left' dvd_imp_mod_0 le_add1 mod_eq_dvd_iff_nat)
    then show ?thesis using m(1,3) Cons.prems(2) by simp
  qed
  then show ?case using Cons.IH [OF m(2)] m(1) Cons.prems(2) by simp
qed simp

subsection \<open>A scripted world\<close>

text \<open>
  The other threads follow a script: before each access of the driver to the control handle the
  next entry is applied. The clock stands still, every command of the device succeeds.
\<close>

record script =
  sx_control :: session_control
  sx_script :: "(session_control \<Rightarrow> session_control) list"

definition script_sched :: "script sched" where
  "script_sched =
     \<lparr>sc_now = (\<lambda>w. (0, w)), sc_sleep = (\<lambda>t w. w), sc_yield = (\<lambda>w. w),
      sc_others = (\<lambda>w. case sx_script w of [] \<Rightarrow> w | f # fs \<Rightarrow> w\<lparr>sx_control := f (sx_control w), sx_script := fs\<rparr>),
      sc_control = sx_control, sc_set_control = (\<lambda>c w. w\<lparr>sx_control := c\<rparr>),
      sc_mark = (\<lambda>m w. w), sc_error_sink = (\<lambda>e w. w), sc_sentinel = 0\<rparr>"

definition script_backend :: "script backend_kind" where
  "script_backend = KFifo
     \<lparr>fb_base = \<lparr>db_dac_type = (\<lambda>w. LaserCubeUsb),
        db_caps = (\<lambda>w. \<lparr>pps_min = 1, pps_max = 100000, max_points_per_chunk = 512, output_model_of = BlockingFifo\<rparr>),
        db_connect = eret (), db_disconnect = eret (), db_is_connected = (\<lambda>w. True), db_stop = eret (),
        db_set_shutter = (\<lambda>b. eret ())\<rparr>,
      fb_try_write_points = (\<lambda>pps pts. eret Written),
      fb_estimator = (\<lambda>w. \<lparr>be_needs_clock = False, be_fullness = (\<lambda>t pps. 0)\<rparr>),
      fb_target_buffer_ceiling = (\<lambda>w. None), fb_reset_device_buffer = eret ()\<rparr>"

definition script_env :: "script session_env" where
  "script_env =
     \<lparr>se_sched = script_sched, se_policy = None, se_validator = (\<lambda>i k p w. Inr ()), se_target_buffer = 0,
      se_drain_timeout = 0, se_pending_frame = None\<rparr>"

text \<open>A source that always offers the same points.\<close>

definition fixed_source :: "laser_point list \<Rightarrow> unit source_ops" where
  "fixed_source pts = SrcFifo
     \<lparr>fc_base = \<lparr>sb_cached_slice = (\<lambda>s. Some pts), sb_commit_written = (\<lambda>n a s. s), sb_discard_cached = (\<lambda>s. s),
        sb_on_reconnect = (\<lambda>i s. s), sb_submit_frame = (\<lambda>f s. s), sb_arm_startup_blank = (\<lambda>p s. s), sb_on_disarm = (\<lambda>s. s),
        sb_reset_output_filter = (\<lambda>r s. s), sb_set_color_delay = (\<lambda>d s. s)\<rparr>,
      fc_produce_chunk = (\<lambda>delay s n pps armed. Some ((), pts)), fc_reserve_buf = (\<lambda>n s. s),
      fc_is_ended = (\<lambda>s. False), fc_take_stop_error = (\<lambda>s. (None, s))\<rparr>"

definition armed_control :: session_control where
  "armed_control = (control_new 0 30000 1 100000)\<lparr>ctl_desired := 1\<rparr>"

lemma process_messages_empty:
  assumes "ctl_queue (sc_control S (sc_others S (dr_world d))) = []"
  shows "process_messages S a d = Some (Inr a, d\<lparr>dr_world := sc_set_control S (sc_control S (sc_others S (dr_world d))) (sc_others S (dr_world d))\<rparr>)"
  using assms by (subst process_messages.simps)
    (simp add: ebind_def on_world_def ezoom_def control_access_def estep_def try_recv_def Let_def eret_def)

lemmas script_defs = rec_env_def script_env_def Let_def driver_init_def observed_def marks_def on_world_def eff_defs
      rec_sched_def script_sched_def control_read_def estep_def armed_control_def control_new_def with_source_def fixed_source_def
      take_frame_def ask_backend_def bk_is_connected_def script_backend_def rec_base_def rec_log_def process_control_messages_def
      process_messages_empty handle_shutter_transition_def ebody_def falling_edge_def rising_edge_def settle_shutter_def
      command_close_def drive_shutter_def on_backend_def bk_set_shutter_def rec_call_def rec_eff_def change_state_def ds_initial_def
      ds_is_armed_def ctl_is_armed_def adapter_step_def bf_step_def mod_source_def produce_chunk_def eoption_def set_adapter_def
      cached_slice_def offer_def commit_written_def end_check_def stop_exit_def stop_and_close_shutter_def

text \<open>Nothing happens during the nine accesses of the first pass; then the stop flag is set.\<close>

definition stop_script :: "(session_control \<Rightarrow> session_control) list" where
  "stop_script = [\<lambda>c. c, \<lambda>c. c, \<lambda>c. c, \<lambda>c. c, \<lambda>c. c, \<lambda>c. c, \<lambda>c. c, \<lambda>c. c, \<lambda>c. c, \<lambda>c. c\<lparr>ctl_stop := True\<rparr>]"

definition script_driver :: "(session_control \<Rightarrow> session_control) list \<Rightarrow> session_control \<Rightarrow> (script recorded, unit) driver" where
  "script_driver fs c = driver_init (rec_kind script_backend) (fixed_source [blanked (Fin 0) (Fin 0)]) ()
     (ABlockingFifo \<lparr>bf_chunk_points = 512, bf_has_retain = False\<rparr>) (observed \<lparr>sx_control = c, sx_script = fs\<rparr>)"

lemma script_pass:
  "\<exists>d. driver_pass (rec_env script_env (\<lambda>i k p w. Inr ())) (script_driver [] armed_control) = Some (Inr (), d) \<and>
     rw_log (dr_world d) = [EvWrite [blanked (Fin 0) (Fin 0)], EvWord 1, EvWord 1, EvWord 1, EvShutter True True, EvWord 1,
       EvReset True, EvWord 1, EvWord 1, EvWord 1, EvWord 1, EvWord 1]"
  by (simp add: script_driver_def driver_pass_def script_defs)

subsection \<open>Properties\<close>

text \<open>
  C1 (shutter discipline of a session): whatever the device, the content source and the other
  threads do, as long as the desired state changes by fewer than \<open>2 ^ 63\<close> edges: a session opens
  the shutter only right after reading an armed word for which it has prepared the device in use,
  reads the word again right after opening, closes at once when it has changed and after a failed
  reset, and neither opens nor writes on a replacement device before that device has confirmed a
  closed shutter. When the session ends, the last shutter command was a close, unless the
  connection was lost or a stop request came while a replacement was looked for.
\<close>

theorem session_shutter_discipline:
  assumes "run_session (rec_env E v) (rec_kind k) ops s (observed w) = Some (result, w')"
    and "edge_run (words (rw_log w')) n" "n < 2 ^ 63"
  shows "log_ok (\<not> source_is_frame ops) (rw_log w') \<and> exit_ok result (rw_log w')"
  using run_session_safe [OF assms(1)] edge_run_non_returning [OF assms(2,3)]
  by (simp add: log_fine_def non_returning_def)

lemma script_adapter:
  "for_backend (rec_sched script_sched) (rec_kind script_backend) False (observed w) =
     Some (Inr (ABlockingFifo \<lparr>bf_chunk_points = 512, bf_has_retain = False\<rparr>), observed w)"
  by (simp add: for_backend_def elift_def validate_output_model_def bk_caps_def bf_new_def CHUNK_POINTS_def bk_is_frame_swap_def
      script_backend_def rec_base_def eff_defs observed_def)

lemma script_loop:
  "\<exists>d. run_loop (rec_env script_env (\<lambda>i k p w. Inr ())) (script_driver stop_script armed_control) =
       Some (Inl (Inr SessStopped), d) \<and> dr_backend d = rec_kind script_backend \<and>
     rw_log (dr_world d) = [EvShutter False True, EvWord 1, EvWrite [blanked (Fin 0) (Fin 0)], EvWord 1, EvWord 1, EvWord 1, EvShutter True True,
       EvWord 1, EvReset True, EvWord 1, EvWord 1, EvWord 1, EvWord 1, EvWord 1]"
  apply (subst run_loop.simps)
  apply (simp add: script_driver_def driver_pass_def stop_script_def script_defs)
  apply (subst run_loop.simps)
  apply (simp add: driver_pass_def script_defs)
  done

lemma script_run:
  "\<exists>w'. run_session (rec_env script_env (\<lambda>i k p w. Inr ())) (rec_kind script_backend) (fixed_source [blanked (Fin 0) (Fin 0)]) ()
       (observed \<lparr>sx_control = armed_control, sx_script = stop_script\<rparr>) = Some (Inr SessStopped, w') \<and>
     rw_log w' = [EvShutter False True, EvWord 1, EvWrite [blanked (Fin 0) (Fin 0)], EvWord 1, EvWord 1, EvWord 1, EvShutter True True,
       EvWord 1, EvReset True, EvWord 1, EvWord 1, EvWord 1, EvWord 1, EvWord 1]"
proof -
  have f: "source_is_frame (fixed_source pts) = False" "se_sched (rec_env script_env v) = rec_sched script_sched" for pts v
    by (simp_all add: source_is_frame_def fixed_source_def rec_env_def script_env_def)
  have e: "end_session (rec_kind script_backend) r = Some (Inr (), r)" for r :: "script recorded"
    by (simp add: end_session_def bk_is_connected_def bk_stop_def bk_disconnect_def script_backend_def rec_base_def rec_eff_def eff_defs eignore_def)
  show ?thesis using script_loop unfolding run_session_def f script_adapter script_driver_def
    by (auto simp: e ethen_def ebind_def)
qed

theorem session_shutter_discipline_witness:
  "\<exists>w'. run_session (rec_env script_env (\<lambda>i k p w. Inr ())) (rec_kind script_backend) (fixed_source [blanked (Fin 0) (Fin 0)]) ()
       (observed \<lparr>sx_control = armed_control, sx_script = stop_script\<rparr>) = Some (Inr SessStopped, w') \<and>
     EvShutter True True \<in> set (rw_log w') \<and> log_ok True (rw_log w') \<and> exit_ok (Inr SessStopped) (rw_log w')"
proof -
  obtain w' where run: "run_session (rec_env script_env (\<lambda>i k p w. Inr ())) (rec_kind script_backend) (fixed_source [blanked (Fin 0) (Fin 0)]) ()
       (observed \<lparr>sx_control = armed_control, sx_script = stop_script\<rparr>) = Some (Inr SessStopped, w')"
    and log: "rw_log w' = [EvShutter False True, EvWord 1, EvWrite [blanked (Fin 0) (Fin 0)], EvWord 1, EvWord 1, EvWord 1, EvShutter True True,
       EvWord 1, EvReset True, EvWord 1, EvWord 1, EvWord 1, EvWord 1, EvWord 1]" using script_run by blast
  have "edge_run (words (rw_log w')) 0" by (simp add: log)
  from session_shutter_discipline [OF run this] show ?thesis using run log by (auto simp: fixed_source_def source_is_frame_def)
qed

text \<open>
  C4 (shutter discipline of a running session): the same holds after any number of passes of the
  driver's loop, so that sessions that never end are covered.
\<close>

theorem running_shutter_discipline:
  assumes "bk_is_frame_swap k = source_is_frame ops"
    and "driver_passes m (rec_env E v) (driver_init (rec_kind k) ops s a (observed w)) = Some (r, d)"
    and "edge_run (words (rw_log (dr_world d))) n" "n < 2 ^ 63"
  shows "log_ok (\<not> source_is_frame ops) (rw_log (dr_world d)) \<and> (\<forall>e. r = Inl e \<longrightarrow> exit_ok e (rw_log (dr_world d)))"
  using hoareD [OF driver_passes_safe session_start [OF assms(1)] assms(2)] edge_run_non_returning [OF assms(3,4)]
  by (auto simp: pass_ok_def sinv_def log_fine_def non_returning_def split: sum.splits)

theorem running_shutter_discipline_witness:
  "\<exists>d. driver_passes 1 (rec_env script_env (\<lambda>i k p w. Inr ())) (script_driver [] armed_control) = Some (Inr (), d) \<and>
     EvShutter True True \<in> set (rw_log (dr_world d)) \<and> log_ok True (rw_log (dr_world d))"
proof -
  obtain d where pass: "driver_pass (rec_env script_env (\<lambda>i k p w. Inr ())) (script_driver [] armed_control) = Some (Inr (), d)"
    and log: "rw_log (dr_world d) = [EvWrite [blanked (Fin 0) (Fin 0)], EvWord 1, EvWord 1, EvWord 1, EvShutter True True, EvWord 1,
       EvReset True, EvWord 1, EvWord 1, EvWord 1, EvWord 1, EvWord 1]" using script_pass by blast
  have run: "driver_passes 1 (rec_env script_env (\<lambda>i k p w. Inr ())) (script_driver [] armed_control) = Some (Inr (), d)"
    using pass by (simp add: ethen_def ebind_def eret_def)
  have "edge_run (words (rw_log (dr_world d))) 0" by (simp add: log)
  from running_shutter_discipline [OF _ run [unfolded script_driver_def] this] show ?thesis
    using run log by (auto simp: fixed_source_def source_is_frame_def script_backend_def bk_is_frame_swap_def)
qed

end
