(* ===== verification/Driver_Dark.thy ===== *)
theory Driver_Dark
  imports Session_Sources Driver_Shutter
begin

text \<open>
  Darkness of a session: as long as the driver has not read an armed word of the desired state, all
  points it hands to a device are dark. The argument needs of the content source only the
  contract \<open>dark_source\<close>, which all three sources of the program keep.
\<close>

fun unlit :: "event \<Rightarrow> bool" where
  "unlit (EvWrite pts) = list_all dark pts"
| "unlit _ = True"

definition unarmed :: "event list \<Rightarrow> bool" where
  "unarmed l = list_all (\<lambda>w. \<not> ds_is_armed w) (words l)"

lemma words_append [simp]: "words (es @ l) = words es @ words l"
  by (induction es rule: words.induct) simp_all

lemma unarmed_append [simp]: "unarmed (es @ l) \<longleftrightarrow> unarmed es \<and> unarmed l"
  by (simp add: unarmed_def)

subsection \<open>Looking for a replacement\<close>

definition grew :: "event list \<Rightarrow> 'w recorded \<Rightarrow> bool" where
  "grew l r \<longleftrightarrow> (\<exists>es. rw_log r = es @ l \<and> list_all unlit es)"

lemma logs_grew: "logs unlit m \<Longrightarrow> keeps (grew l) m"
  unfolding logs_def keeps_def grew_def by (metis append.assoc list_all_append)

lemma grew_logs:
  assumes "\<And>l. keeps (grew l) m"
  shows "logs unlit m"
  unfolding logs_def
proof (intro allI impI)
  fix r x r' assume run: "m r = Some (x, r')"
  have "grew (rw_log r) r" by (auto simp: grew_def intro: exI [where x = "[]"])
  from keepsD [OF assms this run] show "\<exists>es. rw_log r' = es @ rw_log r \<and> list_all unlit es" by (simp add: grew_def)
qed

lemmas unlit_logs = logs_sched [where p = unlit] logs_words [where p = unlit, simplified]
  logs_rec_eff [where p = unlit] logs_disconnect [where p = unlit] logs_shutter [where p = unlit, simplified]

lemmas unlit_grew = unlit_logs [THEN logs_grew]

lemma grew_device:
  "keeps (grew l) (bk_connect (rec_kind k))" "keeps (grew l) (close_and_disconnect (rec_kind k))"
proof -
  have "keeps (grew l) (db_connect (bk_base (rec_kind k)))"
    by (cases k) (simp_all add: rec_base_def logs_grew [OF logs_rec_eff])
  then show "keeps (grew l) (bk_connect (rec_kind k))"
    unfolding bk_connect_def by (intro keeps_intros unlit_grew)
  show "keeps (grew l) (close_and_disconnect (rec_kind k))"
    unfolding close_and_disconnect_def by (intro keeps_intros unlit_grew)
qed

lemma grew_surroundings:
  "keeps (grew l) (progress (rec_sched S))" "keeps (grew l) (stop_requested (rec_sched S))"
  "keeps (grew l) (is_flapping (rec_sched S) t b)" "keeps (grew l) (stop_sleep_loop (rec_sched S) dl)"
  "keeps (grew l) (sleep_with_stop (rec_sched S) dur)"
proof -
  show p: "keeps (grew l) (progress (rec_sched S))" "keeps (grew l) (stop_requested (rec_sched S))"
    unfolding progress_def stop_requested_def by (rule unlit_grew)+
  show "keeps (grew l) (is_flapping (rec_sched S) t b)"
    unfolding is_flapping_def by (intro keeps_intros unlit_grew)
  show s: "keeps (grew l) (stop_sleep_loop (rec_sched S) dl)" for dl
    by (rule stop_sleep_loop.fixp_induct)
      (auto simp: curry_def keeps_admissible1 keeps_none intro!: keeps_intros unlit_grew p)
  show "keeps (grew l) (sleep_with_stop (rec_sched S) dur)"
    unfolding sleep_with_stop_def by (intro keeps_intros unlit_grew s)
qed

text \<open>A device that is opened under observation is observed.\<close>

lemma rec_open_observed: "yields (grew l) (rec_open m) (\<lambda>(info, k). \<forall>k'. k = Some k' \<longrightarrow> k' \<in> range rec_kind)"
proof -
  have "keeps (grew l) (emod (rec_log EvOpened))"
    by (rule logs_grew, rule logsI) (auto simp: emod_def rec_log_def)
  then show ?thesis unfolding rec_open_def
    by (intro yields_after logs_grew logs_rec_eff) (auto intro!: yields_rules split: option.split)
qed

definition backed :: "(dac_info \<times> 'w recorded backend_kind) option \<Rightarrow> bool" where
  "backed x \<longleftrightarrow> (\<forall>info k. x = Some (info, k) \<longrightarrow> k \<in> range rec_kind)"

lemma reconnect_attempt_dark:
  assumes v: "\<And>info k. keeps (grew l) (validate info k)"
  shows "yields (grew l) (reconnect_attempt (rec_policy P) validate) backed"
proof -
  have accept: "yields (grew l) (accept_connected validate info (rec_kind k)) backed" for info and k :: "'a backend_kind"
    unfolding accept_connected_def Let_def
    by (intro yields_rules keeps_intros grew_device unlit_grew v) (simp_all add: backed_def)
  have failed: "yields (grew l) (connect_failed (rec_kind k) err) backed" for k err
    unfolding connect_failed_def
    by (intro yields_rules keeps_intros grew_device) (simp add: backed_def)
  have policy: "rp_open_device (rec_policy P) = rec_open (rp_open_device P)" by (simp add: rec_policy_def)
  show ?thesis unfolding reconnect_attempt_def policy
    by (rule yields_ebind [OF yields_etry [OF rec_open_observed]])
      (auto intro!: yields_rules keeps_intros grew_device accept failed v simp: backed_def split: sum.split option.split)
qed

lemma reconnect_dark:
  assumes v: "\<And>info k. keeps (grew l) (validate info k)"
  shows "yields (grew l) (reconnect_backend_with_retry (rec_sched S) (rec_policy P) t validate) (\<lambda>(info, k). k \<in> range rec_kind)"
proof -
  have "\<forall>n. yields (grew l) (retry_loop (rec_sched S) (rec_policy P) validate flapping n) (\<lambda>(info, k). k \<in> range rec_kind)" for flapping
  proof (rule retry_loop.fixp_induct, goal_cases)
    case (3 f)
    have again: "yields (grew l) (ebind (reconnect_attempt (rec_policy P) validate) (\<lambda>r. case r of
        Some x \<Rightarrow> eret x | None \<Rightarrow> f (rec_sched S) (rec_policy P) validate flapping m)) (\<lambda>(info, k). k \<in> range rec_kind)" for m
      by (rule yields_ebind [OF reconnect_attempt_dark [OF v]]) (auto intro!: yields_rules simp: backed_def 3 split: option.split)
    show ?case by (intro allI yields_rules keeps_intros grew_surroundings again)
  qed (simp_all add: curry_def yields_admissible yields_none)
  moreover have "keeps (grew l) (case rp_on_disconnect (rec_policy P) of None \<Rightarrow> eret () | Some cb \<Rightarrow> emod (cb e))" for e
    by (cases "rp_on_disconnect P") (auto simp: rec_policy_def grew_def intro!: keeps_intros)
  ultimately show ?thesis unfolding reconnect_backend_with_retry_def
    by (intro yields_rules grew_surroundings) auto
qed

subsection \<open>The driver\<close>

text \<open>
  What a session keeps: the source is the same, and unless an armed word has been read it has no
  light and only darkness was written. While the backend is in use, it is an observed one, and
  the armed flag that the adapter was given was read as a word.
\<close>

definition dark_log :: "'s source_ops \<Rightarrow> ('s \<Rightarrow> bool) \<Rightarrow> ('w recorded, 's) driver \<Rightarrow> bool" where
  "dark_log ops ok d \<longleftrightarrow> dr_ops d = ops \<and> (unarmed (dlog d) \<longrightarrow> ok (dr_source d) \<and> list_all unlit (dlog d))"

definition dinv :: "'s source_ops \<Rightarrow> ('s \<Rightarrow> bool) \<Rightarrow> bool \<Rightarrow> ('w recorded, 's) driver \<Rightarrow> bool" where
  "dinv ops ok armed d \<longleftrightarrow> dark_log ops ok d \<and> dr_backend d \<in> range rec_kind \<and> (unarmed (dlog d) \<longrightarrow> \<not> armed)"

lemma dinv_weaken: "dinv ops ok armed d \<Longrightarrow> dinv ops ok False d" "dinv ops ok armed d \<Longrightarrow> dark_log ops ok d"
  by (simp_all add: dinv_def)

lemma dark_fields [simp]:
  "dark_log ops ok (d\<lparr>dr_shutter := sh\<rparr>) = dark_log ops ok d" "dark_log ops ok (d\<lparr>dr_adapter := a\<rparr>) = dark_log ops ok d"
  "dark_log ops ok (d\<lparr>dr_handled := w\<rparr>) = dark_log ops ok d" "dark_log ops ok (d\<lparr>dr_backend := k\<rparr>) = dark_log ops ok d"
  "dark_log ops ok (d\<lparr>dr_last_reconnect_at := t\<rparr>) = dark_log ops ok d"
  by (simp_all add: dark_log_def)

lemma dinv_fields [simp]:
  "dinv ops ok armed (d\<lparr>dr_shutter := sh\<rparr>) = dinv ops ok armed d" "dinv ops ok armed (d\<lparr>dr_adapter := a\<rparr>) = dinv ops ok armed d"
  "dinv ops ok armed (d\<lparr>dr_handled := w\<rparr>) = dinv ops ok armed d"
  by (simp_all add: dinv_def)

lemma logs_dark:
  assumes "logs unlit m" "on_world m d = Some (x, d')"
  shows "dark_log ops ok d \<Longrightarrow> dark_log ops ok d'" "dinv ops ok armed d \<Longrightarrow> dinv ops ok armed d'"
proof -
  obtain es where es: "dlog d' = es @ dlog d" "list_all unlit es" "dr_backend d' = dr_backend d" "dr_ops d' = dr_ops d"
      "dr_source d' = dr_source d"
    by (rule logs_run [OF assms])
  show "dark_log ops ok d \<Longrightarrow> dark_log ops ok d'" "dinv ops ok armed d \<Longrightarrow> dinv ops ok armed d'"
    unfolding dinv_def dark_log_def es(1,3-5) using es(2) by simp_all
qed

lemma world_dark:
  "logs unlit m \<Longrightarrow> keeps (dark_log ops ok) (on_world m)" "logs unlit m \<Longrightarrow> keeps (dinv ops ok armed) (on_world m)"
  by (rule keepsI, erule (2) logs_dark)+

lemma yields_world:
  assumes "\<And>l. yields (grew l) m Q"
  shows "yields (dark_log ops ok) (on_world m) Q"
proof (rule yieldsI)
  fix d x d' assume d: "dark_log ops ok d" and run: "on_world m d = Some (x, d')"
  have "m (dr_world d) = Some (x, dr_world d')" using run by (auto simp: on_world_def ezoom_def split: option.splits)
  moreover have "grew (dlog d) (dr_world d)" by (auto simp: grew_def intro: exI [where x = "[]"])
  ultimately have "\<forall>a. x = Inr a \<longrightarrow> Q a" using yieldsD [OF assms] by blast
  then show "dark_log ops ok d' \<and> (\<forall>a. x = Inr a \<longrightarrow> Q a)"
    using logs_dark(1) [OF grew_logs run d] yields_keeps [OF assms] by blast
qed

lemma device_dark:
  assumes "\<And>k. logs unlit (op (rec_kind k))"
  shows "keeps (dinv ops ok armed) (on_backend op)"
  unfolding on_backend_def by (rule keeps_eget_bind) (auto simp: dinv_def intro!: world_dark(2) assms)

lemma dinv_world:
  assumes "logs unlit m" "dinv ops ok armed d" "m (dr_world d) = Some (r, w)"
  shows "dinv ops ok armed (d\<lparr>dr_world := w\<rparr>)"
proof -
  have "on_world m d = Some (r, d\<lparr>dr_world := w\<rparr>)" using assms(3) by (simp add: on_world_def ezoom_def)
  from logs_dark(2) [OF assms(1) this assms(2)] show ?thesis .
qed

lemma dinv_step:
  "logs unlit (estep f) \<Longrightarrow> dinv ops ok armed d \<Longrightarrow> dinv ops ok armed (d\<lparr>dr_world := snd (f (dr_world d))\<rparr>)"
  "logs unlit (emod g) \<Longrightarrow> dinv ops ok armed d \<Longrightarrow> dinv ops ok armed (d\<lparr>dr_world := g (dr_world d)\<rparr>)"
  by (erule (1) dinv_world, simp add: estep_def emod_def)+

lemma dinv_source:
  assumes "dinv ops ok armed d" "ok (dr_source d) \<Longrightarrow> \<not> armed \<Longrightarrow> ok s"
  shows "dinv ops ok armed (d\<lparr>dr_source := s\<rparr>)"
  using assms by (simp add: dinv_def dark_log_def)

lemma dinv_write:
  assumes d: "dinv ops ok armed d" and sl: "ok (dr_source d) \<Longrightarrow> list_all dark sl"
    and m: "\<And>p. p (EvWrite sl) \<Longrightarrow> logs p m" and run: "m (dr_world d) = Some (r, w)"
  shows "dinv ops ok armed (d\<lparr>dr_world := w\<rparr>)"
proof (cases "ok (dr_source d)")
  case True
  show ?thesis by (rule dinv_world [OF m d run]) (simp add: sl True)
next
  case False
  then have no: "\<not> unarmed (dlog d)" using d by (auto simp: dinv_def dark_log_def)
  have "on_world m d = Some (r, d\<lparr>dr_world := w\<rparr>)" using run by (simp add: on_world_def ezoom_def)
  then obtain es where "dlog (d\<lparr>dr_world := w\<rparr>) = es @ dlog d" by (rule logs_run [OF m [of "\<lambda>_. True", OF TrueI]])
  then show ?thesis using d no by (simp add: dinv_def dark_log_def)
qed

context dark_source
begin

lemma writes_dark:
  assumes d: "dinv ops ok armed d" and sl: "sb_cached_slice (src_base ops) (dr_source d) = Some sl"
  shows "bk_try_write (dr_backend d) pps sl (dr_world d) = Some (r, w) \<Longrightarrow> dinv ops ok armed (d\<lparr>dr_world := w\<rparr>)"
    "bk_write_frame_after_ready (dr_backend d) pps sl (dr_world d) = Some (r, w) \<Longrightarrow> dinv ops ok armed (d\<lparr>dr_world := w\<rparr>)"
proof -
  obtain k where k: "dr_backend d = rec_kind k" using d by (auto simp: dinv_def)
  have dark: "ok (dr_source d) \<Longrightarrow> list_all dark sl" by (rule cached [OF _ sl])
  show "dinv ops ok armed (d\<lparr>dr_world := w\<rparr>)" if "bk_try_write (dr_backend d) pps sl (dr_world d) = Some (r, w)"
    by (rule dinv_write [where m = "bk_try_write (rec_kind k) pps sl", OF d dark logs_write(1)]) (use that k in simp_all)
  show "dinv ops ok armed (d\<lparr>dr_world := w\<rparr>)" if "bk_write_frame_after_ready (dr_backend d) pps sl (dr_world d) = Some (r, w)"
    by (rule dinv_write [where m = "bk_write_frame_after_ready (rec_kind k) pps sl", OF d dark logs_write(2)]) (use that k in simp_all)
qed

end

sublocale dark_source < session: step_invariant "rec_sched S" ops armed "dinv ops ok armed" for S :: "'w sched" and armed
proof (unfold_locales, goal_cases)
  case 1
  then show ?case by (simp add: dinv_def dark_log_def)
next
  case 17
  show ?case by (rule device_dark, rule logs_write) (simp add: list_all_iff)
next
  case 18
  then show ?case by (rule dinv_source) (use lifecycle(1) in simp)
next
  case (19 d f delay n pps s pts)
  show ?case by (rule dinv_source [OF 19(1)]) (use 19 chunk in auto)
next
  case (21 d g pps s pts)
  show ?case by (rule dinv_source [OF 21(1)]) (use 21 frame in auto)
qed (auto intro: dinv_step(1) [OF unlit_logs(1)] dinv_step(2) [OF unlit_logs(2)] dinv_step(2) [OF unlit_logs(3)]
    dinv_step(2) [OF unlit_logs(4)] dinv_step(2) [OF unlit_logs(5)] dinv_step(2) [OF unlit_logs(6)] dinv_step(2) [OF unlit_logs(7)]
    dinv_step(2) [OF unlit_logs(8)] writes_dark dinv_source room device_dark unlit_logs logs_ready)

text \<open>What the driver does beside its adapter, and the reconnect, where the backend is being replaced.\<close>

context dark_source
begin

lemma source_dark:
  assumes "\<And>s. ok s \<Longrightarrow> ok (h (src_base ops) s)"
  shows "keeps (dinv ops ok False) (with_source h)" "keeps (dark_log ops ok) (with_source h)"
  using assms by (auto simp: with_source_def keeps_def emod_def dinv_def dark_log_def)

lemma sources_dark:
  "keeps (dinv ops ok False) (with_source sb_discard_cached)" "keeps (dinv ops ok False) (with_source (\<lambda>b. sb_submit_frame b fr))"
  "keeps (dinv ops ok False) (with_source (\<lambda>b. sb_arm_startup_blank b pps))" "keeps (dinv ops ok False) (with_source sb_on_disarm)"
  "keeps (dinv ops ok False) (with_source (\<lambda>b. sb_reset_output_filter b r))"
  "keeps (dinv ops ok False) (with_source (\<lambda>b. sb_set_color_delay b delay))"
  "keeps (dark_log ops ok) (with_source (\<lambda>b. sb_on_reconnect b info))"
  by (rule source_dark, rule lifecycle, assumption)+

lemma device_ops_dark:
  "keeps (dinv ops ok False) (drive_shutter opn)" "keeps (dinv ops ok False) (command_close force)"
  "keeps (dinv ops ok False) change_state" "keeps (dinv ops ok False) (on_backend bk_reset_device_buffer)"
  "keeps (dinv ops ok False) (on_backend bk_disconnect)" "keeps (dinv ops ok False) (emod (\<lambda>d. d\<lparr>dr_handled := w\<rparr>))"
  "keeps (dinv ops ok False) (blank_and_close_shutter pps)"
proof -
  have shutter: "keeps (dinv ops ok False) (on_backend (\<lambda>k. bk_set_shutter k opn))" for opn
    by (rule device_dark, rule unlit_logs)
  show d: "keeps (dinv ops ok False) (drive_shutter opn)" for opn
    unfolding drive_shutter_def by (intro keeps_intros shutter) simp_all
  show "keeps (dinv ops ok False) (command_close force)"
    unfolding command_close_def by (intro keeps_intros d)
  show "keeps (dinv ops ok False) change_state" "keeps (dinv ops ok False) (emod (\<lambda>d. d\<lparr>dr_handled := w\<rparr>))"
    unfolding change_state_def by (auto intro!: keeps_intros)
  have "logs unlit (bk_reset_device_buffer (rec_kind k))" for k :: "'w backend_kind"
    by (cases k) (simp_all add: logs_rec_call, auto simp: eret_def intro: logsI)
  then show "keeps (dinv ops ok False) (on_backend bk_reset_device_buffer)" by (rule device_dark)
  show "keeps (dinv ops ok False) (on_backend bk_disconnect)" by (rule device_dark, rule unlit_logs)
  show "keeps (dinv ops ok False) (blank_and_close_shutter pps)"
    unfolding blank_and_close_shutter_def by (intro keeps_intros d session.blank)
qed

lemma transition_dark: "keeps (dinv ops ok False) (handle_shutter_transition (rec_sched S) pps)"
  unfolding handle_shutter_transition_def falling_edge_def rising_edge_def settle_shutter_def
  by (intro keeps_intros device_ops_dark sources_dark session.surroundings_kept)

lemma read_armed:
  "hoare (dinv ops ok False) (control_read (rec_sched S) ctl_is_armed) (\<lambda>r d. \<exists>a. r = Inr a \<and> dinv ops ok a d)"
  by (rule hoareI)
    (auto simp: control_read_def on_world_def ezoom_def estep_def rec_sched_def rec_log_def Let_def dinv_def dark_log_def unarmed_def
      ctl_is_armed_def)

lemma adopt_dark:
  assumes "se_sched E = rec_sched S"
  shows "keeps (dark_log ops ok) (adopt_backend E info k)"
proof -
  have clock: "keeps (dark_log ops ok) (clock_now (rec_sched S))" unfolding clock_now_def by (rule world_dark, rule unlit_logs)
  have mark: "keeps (dark_log ops ok) (marks (rec_sched S) (ConnectedMark b))" for b
    unfolding marks_def by (rule world_dark, rule logsI) (auto simp: emod_def rec_sched_def rec_log_def)
  have room: "keeps (dark_log ops ok) (emod (\<lambda>d. if source_is_frame (dr_ops d)
      then d\<lparr>dr_source := set_frame_capacity_if_supported (c d) (dr_ops d) (dr_source d)\<rparr> else d))" for c
    by (cases ops) (auto simp: keeps_def emod_def dark_log_def source_is_frame_def capacity)
  show ?thesis unfolding adopt_backend_def assms set_adapter_def
    by (intro keeps_intros clock mark sources_dark room) (auto intro!: keeps_intros clock split: adapter.split)
qed

lemma driver_reconnect_dark:
  fixes S :: "'w sched"
  assumes E: "se_sched E = rec_sched S" "se_policy E = map_option rec_policy P"
  shows "keeps (dark_log ops ok) (driver_reconnect E)"
proof (cases P)
  case None
  then show ?thesis by (simp add: driver_reconnect_def E keeps_pure)
next
  case (Some P)
  have validate: "keeps (grew l) (validate_replacement E expected info k)" for l expected info k
    unfolding validate_replacement_def E by (intro keeps_intros unlit_grew)
  have mark: "keeps (dark_log ops ok) (marks (rec_sched S) (ConnectedMark False))"
    unfolding marks_def by (rule world_dark, rule logsI) (auto simp: emod_def rec_sched_def rec_log_def)
  have callback: "keeps (dark_log ops ok) (case rp_on_reconnect (rec_policy P) of None \<Rightarrow> eret () | Some cb \<Rightarrow> on_world (emod (cb info)))" for info
    by (cases "rp_on_reconnect P") (auto simp: rec_policy_def emod_def intro!: keeps_intros world_dark(1) logsI)
  have close: "keeps (dark_log ops ok) (on_world (close_and_disconnect (rec_kind k)))" for k
    by (rule world_dark, rule grew_logs, rule grew_device)
  have access: "keeps (dark_log ops ok) (on_world (control_access (rec_sched S) f))" for f by (rule world_dark, rule unlit_logs)
  show ?thesis unfolding driver_reconnect_def E Some option.map option.case
  proof (rule keeps_ethen [OF mark], rule keeps_ebind, rule keeps_pure, rule keeps_case_prod,
      rule keeps_bind_yields [OF yields_world [OF reconnect_dark [OF validate]]], rule keeps_case_prod)
    fix x :: "dac_info \<times> 'w recorded backend_kind" and info k
    assume k: "case x of (info, k) \<Rightarrow> k \<in> range rec_kind" and x: "x = (info, k)"
    then obtain k' where k': "k = rec_kind k'" by auto
    show "keeps (dark_log ops ok) (ebind (eget (\<lambda>d. bk_caps k (dr_world d))) (\<lambda>caps.
      ebind (on_world (control_access (rec_sched S) (update_pps_bounds (pps_min caps) (pps_max caps)))) (\<lambda>r. case r of
        Inl _ \<Rightarrow> ethen (on_world (close_and_disconnect k)) (efail IncompatibleDevice)
      | Inr _ \<Rightarrow> ethen (adopt_backend E info k)
          (case rp_on_reconnect (rec_policy P) of None \<Rightarrow> eret () | Some cb \<Rightarrow> on_world (emod (cb info))))))"
      unfolding k' by (intro callback close access adopt_dark [OF E(1)] keeps_intros)
  qed
qed

text \<open>A pass: until the backend is replaced or the pass is over, the stronger invariant is kept.\<close>

lemma pass_dark_intros:
  "keeps (dinv ops ok False) m \<Longrightarrow> (\<And>a. hoare (dinv ops ok False) (f a) (\<lambda>_. dark_log ops ok)) \<Longrightarrow>
     hoare (dinv ops ok False) (ebind m f) (\<lambda>_. dark_log ops ok)"
  "keeps (dinv ops ok False) m' \<Longrightarrow> hoare (dinv ops ok False) k (\<lambda>_. dark_log ops ok) \<Longrightarrow>
     hoare (dinv ops ok False) (ethen m' k) (\<lambda>_. dark_log ops ok)"
  by (erule hoare_ebind [OF keeps_hoare] hoare_ethen [OF keeps_hoare], simp_all add: dinv_weaken)+

lemma kept_dark: "keeps (dinv ops ok False) m \<Longrightarrow> hoare (dinv ops ok False) m (\<lambda>_. dark_log ops ok)"
  by (erule hoare_keeps_post) (rule dinv_weaken)

lemma stop_exit_dark: "hoare (dinv ops ok False) stop_exit (\<lambda>_. dark_log ops ok)"
  unfolding stop_exit_def stop_and_close_shutter_def by (rule kept_dark) (intro keeps_intros device_ops_dark)

lemma end_check_dark:
  assumes "se_sched E = rec_sched S"
  shows "keeps (dinv ops ok False) (end_check E pps)"
proof -
  have take: "keeps (dinv ops ok False) (estep (\<lambda>d. let (e, s) = source_take_stop_error (dr_ops d) (dr_source d) in (e, d\<lparr>dr_source := s\<rparr>)))"
    by (cases ops) (auto simp: keeps_def estep_def dinv_def dark_log_def split: prod.splits, metis ending snd_conv)
  have "keeps (dinv ops ok False) (drain_and_blank (rec_sched S) pps t)" for t
    unfolding drain_and_blank_def
    by (intro keeps_intros)
      (auto intro!: keeps_intros device_ops_dark session.drain_via_estimator_kept split: adapter.split)
  then show ?thesis unfolding end_check_def assms by (intro keeps_intros take device_ops_dark)
qed

lemma driver_pass_dark:
  fixes E :: "'w session_env"
  shows "hoare (dinv ops ok False) (driver_pass (rec_env E v)) (\<lambda>_. dark_log ops ok)"
proof -
  let ?E = "rec_env E v" and ?S = "rec_sched (se_sched E)"
  have E: "se_sched ?E = ?S" "se_policy ?E = map_option rec_policy (se_policy E)"
    "se_pending_frame ?E = map_option (\<lambda>slot r. let (f, w) = slot (rw_inner r) in (f, r\<lparr>rw_inner := w\<rparr>)) (se_pending_frame E)"
    by (simp_all add: rec_env_def)
  have reconnect: "hoare (dinv ops ok False) (emap_err Inr (driver_reconnect ?E)) (\<lambda>_. dark_log ops ok)"
    by (rule hoare_pre [OF keeps_hoare [OF keeps_emap_err [OF driver_reconnect_dark [OF E(1,2)]]]]) (rule dinv_weaken)
  have slot: "logs unlit (estep (\<lambda>r. case m (rw_inner r) of (f, w) \<Rightarrow> (f, r\<lparr>rw_inner := w\<rparr>)))" for m :: "'w \<Rightarrow> frame option \<times> 'w"
    by (rule logsI) (auto simp: estep_def split: prod.splits)
  have take: "keeps (dinv ops ok False) (take_frame ?E)"
    unfolding take_frame_def E(3)
    by (cases "se_pending_frame E") (auto intro!: keeps_intros world_dark(2) [OF slot] sources_dark split: option.split)
  have step: "hoare (dinv ops ok False) (ebind (control_read ?S ctl_is_armed) (\<lambda>armed.
      ebind (adapter_step ?S (se_target_buffer ?E) pps armed) (\<lambda>outcome.
         if outcome = StepStopped then stop_exit
         else if outcome = StepDisconnected then emap_err Inr (driver_reconnect ?E)
         else end_check ?E pps))) (\<lambda>_. dark_log ops ok)" for pps
  proof (rule hoare_ebind [OF read_armed])
    fix a
    have "hoare (dinv ops ok a) (adapter_step ?S (se_target_buffer ?E) pps a) (\<lambda>_. dinv ops ok False)"
      by (rule hoare_post [OF keeps_hoare [OF session.adapter_step_kept]]) (rule dinv_weaken)
    then show "hoare (\<lambda>d. \<exists>b. Inr a = Inr b \<and> dinv ops ok b d) (ebind (adapter_step ?S (se_target_buffer ?E) pps a) (\<lambda>outcome.
         if outcome = StepStopped then stop_exit
         else if outcome = StepDisconnected then emap_err Inr (driver_reconnect ?E)
         else end_check ?E pps)) (\<lambda>_. dark_log ops ok)"
      by (rule hoare_pre [OF hoare_ebind])
        (auto intro!: hoare_if stop_exit_dark reconnect kept_dark end_check_dark [OF E(1)] dest: dinv_weaken)
  qed simp
  show ?thesis unfolding driver_pass_def E Let_def
    by (intro pass_dark_intros hoare_if session.surroundings_kept stop_exit_dark sources_dark take reconnect
        session.process_control_messages_kept session.local_kept transition_dark step)
qed

lemma driver_passes_dark:
  "hoare (\<lambda>d. sinv fifo True d \<and> dark_log ops ok d) (driver_passes n (rec_env E v)) (\<lambda>_. dark_log ops ok)"
proof (induction n)
  case 0
  show ?case by (auto intro!: hoare_eret)
next
  case (Suc n)
  have "hoare (\<lambda>d. sinv fifo True d \<and> dark_log ops ok d) (driver_pass (rec_env E v)) (\<lambda>r d. pass_ok fifo r d \<and> dark_log ops ok d)"
    by (intro hoare_conj hoare_pre [OF driver_pass_safe] hoare_pre [OF driver_pass_dark]) (auto simp: dinv_def sinv_def)
  then show ?case unfolding driver_passes.simps
    by (rule hoare_ethen [OF _ hoare_pre [OF Suc]]) (auto simp: pass_ok_def)
qed

lemma session_dark:
  assumes "bk_is_frame_swap k = source_is_frame ops" "ok s"
    and run: "driver_passes n (rec_env E v) (driver_init (rec_kind k) ops s a (observed w)) = Some (r, d)"
    and "\<forall>x\<in>set (words (dlog d)). \<not> ds_is_armed x" "EvWrite pts \<in> set (dlog d)"
  shows "\<forall>p\<in>set pts. dark p"
proof -
  have "dark_log ops ok (driver_init (rec_kind k) ops s a (observed w))"
    using assms(2) by (simp add: dark_log_def driver_init_def observed_def)
  then have "dark_log ops ok d" using hoareD [OF driver_passes_dark _ run] session_start [OF assms(1)] by blast
  then show ?thesis using assms(4,5) by (auto simp: dark_log_def unarmed_def list_all_iff)
qed

end

subsection \<open>Properties\<close>

lemma sp_dark_new: "sp_dark (sp_with_startup_blank e delay None policy cap blank)"
  by (simp add: sp_dark_def sp_with_startup_blank_def)

lemma cp_dark_new: "fill_keeps_length fill \<Longrightarrow> cp_dark (cp_new fill s policy blank cap)"
  by (simp add: cp_dark_def cp_inv_ops) (simp add: cp_new_def cp_cached_slice_def)

text \<open>
  A session of the scripted world that is never armed, over a device that takes timed chunks, here
  of two points: one pass writes a chunk.
\<close>

definition timed_adapter :: udp_timed where
  "timed_adapter = \<lparr>ut_next_send = 0, ut_chunk_points = 2, ut_chunk_pps = 30000, ut_chunk_duration = 1000, ut_has_retain = False,
     ut_max_points_per_chunk = 2\<rparr>"

definition idle_driver :: "'s source_ops \<Rightarrow> 's \<Rightarrow> (script recorded, 's) driver" where
  "idle_driver ops s = driver_init (rec_kind script_backend) ops s (AUdpTimed timed_adapter)
     (observed \<lparr>sx_control = control_new 0 30000 1 100000, sx_script = []\<rparr>)"

definition idle_pipeline :: "unit slice_pipeline" where
  "idle_pipeline = sp_with_startup_blank (engine_new default_transition) 0 None (Park (Fin 1) (Fin 0)) 2 0"

definition lit_producer :: "unit chunk_producer" where
  "lit_producer = cp_new (\<lambda>s r ps. (s, map (\<lambda>p. p\<lparr>lp_r := 65535\<rparr>) ps, Filled (length ps))) () (Park (Fin 1) (Fin 0)) 0 2"

lemma timed_chunk: "recompute_chunk 30000 (timed_adapter\<lparr>ut_next_send := t\<rparr>) = Some (timed_adapter\<lparr>ut_next_send := t\<rparr>)"
proof -
  have "min (f2nat 64 (fceil (fmul F64 (fof_int F64 (int 30000)) CHUNK_SECS))) 2 = 2"
    by (simp add: CHUNK_SECS_def fp_eval)
  then show ?thesis by (simp add: recompute_chunk_def timed_adapter_def)
qed

lemma timed_simps: "ut_next_send timed_adapter = 0" "ut_chunk_points timed_adapter = 2" "ut_has_retain timed_adapter = False"
  by (simp_all add: timed_adapter_def)

abbreviation parked :: "laser_point list" where
  "parked \<equiv> [blanked (Fin 1) (Fin 0), blanked (Fin 1) (Fin 0)]"

lemma idle_chunk: "\<exists>p. produce_fifo_chunk idle_pipeline 2 30000 False = Some (p, parked) \<and> sp_cached_slice p = Some parked"
  by (simp add: idle_pipeline_def produce_fifo_chunk_def sp_with_startup_blank_def sp_reserve_buf_def Let_def fill_chunk_def engine_new_def
      set_idle_blank_point_def refresh_drawable_def finish_slice_def apply_blanking_def park_point_def duration_to_points_def cd_resize_def cd_new_def
      cd_apply_def sp_cached_slice_def numeral_2_eq_2)

lemma lit_chunk: "\<exists>c. cp_produce_chunk 0 lit_producer 2 30000 False = Some (c, parked) \<and> cp_cached_slice c = Some parked \<and> \<not> cp_ended c"
  by (simp add: lit_producer_def cp_new_def cp_produce_chunk_def ensure_buf_def grow_to_def Let_def resolve_result_def cp_write_def
      apply_blanking_and_color_delay_def cp_apply_blanking_def park_point_def duration_to_points_def cd_resize_def cd_new_def cd_apply_def
      cp_cached_slice_def numeral_2_eq_2)

lemma idle_pass:
  fixes f :: "'s fifo_content_source"
  assumes "ops = SrcFifo f" "fc_produce_chunk f 0 s 2 30000 False = Some (s', parked)" "sb_cached_slice (fc_base f) s' = Some parked"
    and "sb_set_color_delay (fc_base f) 0 s = s" "fc_reserve_buf f 2 s = s" "\<not> fc_is_ended f (sb_commit_written (fc_base f) (length parked) False s')"
  shows "\<exists>d. driver_passes 1 (rec_env script_env (\<lambda>i k p w. Inr ())) (idle_driver ops s) = Some (Inr (), d) \<and>
     EvWrite parked \<in> set (rw_log (dr_world d)) \<and> set (words (rw_log (dr_world d))) = {0}"
  using assms
  by (simp add: idle_driver_def driver_pass_def script_defs ut_step_def clock_now_def sleep_until_precise.simps timed_simps timed_chunk)

text \<open>
  C2 (a frame session that was not armed is dark): a session over the slice pipeline, on a device of
  either kind, without an output filter: after any number of passes of the driver's loop in which
  every word of the desired state that was read was disarmed, all points handed to devices are
  dark, whatever frames were submitted, however often the connection was replaced and whatever
  the devices answered.
\<close>

theorem unarmed_frame_session_dark:
  assumes "ops = pipeline_fifo \<or> ops = pipeline_frame" "bk_is_frame_swap k = source_is_frame ops"
    and "driver_passes n (rec_env E v)
      (driver_init (rec_kind k) ops (sp_with_startup_blank e delay None policy cap blank) a (observed w)) = Some (r, d)"
    and "\<forall>x\<in>set (words (rw_log (dr_world d))). \<not> ds_is_armed x" "EvWrite pts \<in> set (rw_log (dr_world d))"
  shows "\<forall>p\<in>set pts. dark p"
  using assms fifo_pipeline.session_dark [OF _ sp_dark_new] frame_pipeline.session_dark [OF _ sp_dark_new] by metis

theorem unarmed_frame_session_dark_witness:
  "\<exists>d. driver_passes 1 (rec_env script_env (\<lambda>i k p w. Inr ())) (idle_driver pipeline_fifo idle_pipeline) = Some (Inr (), d) \<and>
     EvWrite parked \<in> set (rw_log (dr_world d)) \<and> (\<forall>p\<in>set parked. dark p)"
proof -
  obtain p where p: "produce_fifo_chunk idle_pipeline 2 30000 False = Some (p, parked)" "sp_cached_slice p = Some parked"
    using idle_chunk by blast
  obtain d where d: "driver_passes 1 (rec_env script_env (\<lambda>i k p w. Inr ())) (idle_driver pipeline_fifo idle_pipeline) = Some (Inr (), d)"
      "EvWrite parked \<in> set (rw_log (dr_world d))" "set (words (rw_log (dr_world d))) = {0}"
    using idle_pass [OF pipeline_fifo_def, of idle_pipeline p] p
    by (auto simp: pipeline_base_def idle_pipeline_def sp_with_startup_blank_def sp_set_color_delay_def sp_reserve_buf_def)
  have "\<forall>p\<in>set parked. dark p"
    by (rule unarmed_frame_session_dark [OF _ _ d(1) [unfolded idle_driver_def idle_pipeline_def] _ d(2)])
      (simp_all add: d(3) ds_is_armed_def pipeline_fifo_def source_is_frame_def script_backend_def bk_is_frame_swap_def)
  then show ?thesis using d by blast
qed

text \<open>
  C5 (a stream session that was not armed is dark): the same of a session over the chunk producer,
  for every callback that keeps to the buffer it is given.
\<close>

theorem unarmed_stream_session_dark:
  assumes "fill_keeps_length fill" "\<not> bk_is_frame_swap k"
    and "driver_passes n (rec_env E v)
      (driver_init (rec_kind k) producer_fifo (cp_new fill s policy blank cap) a (observed w)) = Some (r, d)"
    and "\<forall>x\<in>set (words (rw_log (dr_world d))). \<not> ds_is_armed x" "EvWrite pts \<in> set (rw_log (dr_world d))"
  shows "\<forall>p\<in>set pts. dark p"
  by (rule producer.session_dark [OF _ cp_dark_new [OF assms(1)] assms(3-5)])
    (simp add: assms(2) source_is_frame_def producer_fifo_def)

theorem unarmed_stream_session_dark_witness:
  "\<exists>d. driver_passes 1 (rec_env script_env (\<lambda>i k p w. Inr ())) (idle_driver producer_fifo lit_producer) = Some (Inr (), d) \<and>
     EvWrite parked \<in> set (rw_log (dr_world d)) \<and> (\<forall>p\<in>set parked. dark p)"
proof -
  obtain c where c: "cp_produce_chunk 0 lit_producer 2 30000 False = Some (c, parked)" "cp_cached_slice c = Some parked" "\<not> cp_ended c"
    using lit_chunk by blast
  have fill: "fill_keeps_length (\<lambda>s r ps. (s, map (\<lambda>p. p\<lparr>lp_r := 65535\<rparr>) ps, Filled (length ps)))" by (simp add: fill_keeps_length_def)
  obtain d where d: "driver_passes 1 (rec_env script_env (\<lambda>i k p w. Inr ())) (idle_driver producer_fifo lit_producer) = Some (Inr (), d)"
      "EvWrite parked \<in> set (rw_log (dr_world d))" "set (words (rw_log (dr_world d))) = {0}"
    using idle_pass [OF producer_fifo_def, of lit_producer c] c
    by (auto simp: lit_producer_def cp_new_def ensure_buf_def grow_to_def cp_commit_written_def cp_invalidate_def Let_def)
  have "\<forall>p\<in>set parked. dark p"
    by (rule unarmed_stream_session_dark [OF fill _ d(1) [unfolded idle_driver_def lit_producer_def] _ d(2)])
      (simp_all add: d(3) ds_is_armed_def script_backend_def bk_is_frame_swap_def)
  then show ?thesis using d by blast
qed

end
