(* ===== verification/Idn_Protocol.thy ===== *)
theory Idn_Protocol
  imports Wire Laser_Point
begin

text \<open>
  \<^verbatim>\<open>src/src/protocols/idn/protocol.rs\<close>: the headers and the sample formats of the IDN stream, with
  their big-endian writers and readers and the conversion of points. Every type satisfies the
  contract \<open>wire_codec\<close>.
\<close>

subsection \<open>Big-endian words\<close>

definition be16 :: "u16 \<Rightarrow> u8 list" where
  "be16 w = [ucast (drop_bit 8 w), ucast w]"

definition be32 :: "u32 \<Rightarrow> u8 list" where
  "be32 w = [ucast (drop_bit 24 w), ucast (drop_bit 16 w), ucast (drop_bit 8 w), ucast w]"

definition of_be16 :: "u8 \<Rightarrow> u8 \<Rightarrow> u16" where
  "of_be16 a b = of_le16 b a"

definition of_be32 :: "u8 \<Rightarrow> u8 \<Rightarrow> u8 \<Rightarrow> u8 \<Rightarrow> u32" where
  "of_be32 a b c d = of_le32 d c b a"

fun read_be16 :: "u16 reader" where
  "read_be16 (a # b # r) = Inr (of_be16 a b, r)"
| "read_be16 _ = Inl UnexpectedEof"

fun read_be32 :: "u32 reader" where
  "read_be32 (a # b # c # d # r) = Inr (of_be32 a b c d, r)"
| "read_be32 _ = Inl UnexpectedEof"

lemma length_be [simp]: "length (be16 w) = 2" "length (be32 v) = 4"
  by (simp_all add: be16_def be32_def)

lemma be_of_be [simp]:
  "be16 (of_be16 a b) = [a, b]" "be32 (of_be32 a b c d) = [a, b, c, d]"
  "of_be16 (ucast (drop_bit 8 w)) (ucast w) = w"
  "of_be32 (ucast (drop_bit 24 v)) (ucast (drop_bit 16 v)) (ucast (drop_bit 8 v)) (ucast v) = v"
  using le16_of_le16 [of b a] le32_of_le32 [of d c b a]
  by (simp_all add: be16_def be32_def of_be16_def of_be32_def le16_def le32_def of_le16_le16 of_le32_le32)

lemma read_be16_inverts [read_inverts]:
  "read_be16 bs = Inr (a, r) \<longleftrightarrow> bs = be16 a @ r"
  "read_be16 bs = Inl e \<longleftrightarrow> e = UnexpectedEof \<and> length bs < 2"
proof -
  show "read_be16 bs = Inr (a, r) \<longleftrightarrow> bs = be16 a @ r"
  proof
    show "read_be16 bs = Inr (a, r) \<Longrightarrow> bs = be16 a @ r" by (cases bs rule: read_be16.cases) auto
  qed (simp add: be16_def)
  show "read_be16 bs = Inl e \<longleftrightarrow> e = UnexpectedEof \<and> length bs < 2" by (cases bs rule: read_be16.cases) auto
qed

lemma read_be32_inverts [read_inverts]:
  "read_be32 bs = Inr (a, r) \<longleftrightarrow> bs = be32 a @ r"
  "read_be32 bs = Inl e \<longleftrightarrow> e = UnexpectedEof \<and> length bs < 4"
proof -
  show "read_be32 bs = Inr (a, r) \<longleftrightarrow> bs = be32 a @ r"
  proof
    show "read_be32 bs = Inr (a, r) \<Longrightarrow> bs = be32 a @ r" by (cases bs rule: read_be32.cases) auto
  qed (simp add: be32_def)
  show "read_be32 bs = Inl e \<longleftrightarrow> e = UnexpectedEof \<and> length bs < 4" by (cases bs rule: read_be32.cases) auto
qed

subsection \<open>Headers\<close>

definition MAX_UDP_PAYLOAD :: nat where "MAX_UDP_PAYLOAD = 1454"

definition IDNCMD_RT_CNLMSG :: u8 where "IDNCMD_RT_CNLMSG = 0x40"
definition IDNCMD_RT_CNLMSG_ACKREQ :: u8 where "IDNCMD_RT_CNLMSG_ACKREQ = 0x41"
definition IDNCMD_RT_CNLMSG_CLOSE :: u8 where "IDNCMD_RT_CNLMSG_CLOSE = 0x44"
definition IDNCMD_RT_CNLMSG_CLOSE_ACKREQ :: u8 where "IDNCMD_RT_CNLMSG_CLOSE_ACKREQ = 0x45"
definition IDNCMD_RT_ACKNOWLEDGE :: u8 where "IDNCMD_RT_ACKNOWLEDGE = 0x47"
definition IDNFLG_CONTENTID_CHANNELMSG :: u16 where "IDNFLG_CONTENTID_CHANNELMSG = 0x8000"
definition IDNFLG_CONTENTID_CONFIG_LSTFRG :: u16 where "IDNFLG_CONTENTID_CONFIG_LSTFRG = 0x4000"
definition IDNMSK_CONTENTID_CHANNELID :: u16 where "IDNMSK_CONTENTID_CHANNELID = 0x3F00"
definition IDNMSK_CONTENTID_CNKTYPE :: u16 where "IDNMSK_CONTENTID_CNKTYPE = 0x00FF"
definition IDNVAL_CNKTYPE_VOID :: u8 where "IDNVAL_CNKTYPE_VOID = 0x00"
definition IDNVAL_CNKTYPE_LPGRF_WAVE :: u8 where "IDNVAL_CNKTYPE_LPGRF_WAVE = 0x01"
definition IDNVAL_CNKTYPE_LPGRF_FRAME :: u8 where "IDNVAL_CNKTYPE_LPGRF_FRAME = 0x02"
definition IDNVAL_CNKTYPE_LPGRF_FRAME_FIRST :: u8 where "IDNVAL_CNKTYPE_LPGRF_FRAME_FIRST = 0x03"
definition IDNVAL_CNKTYPE_LPGRF_FRAME_SEQUEL :: u8 where "IDNVAL_CNKTYPE_LPGRF_FRAME_SEQUEL = 0xC0"
definition IDNFLG_CHNCFG_ROUTING :: u8 where "IDNFLG_CHNCFG_ROUTING = 0x01"
definition IDNFLG_CHNCFG_CLOSE :: u8 where "IDNFLG_CHNCFG_CLOSE = 0x02"
definition IDNVAL_SMOD_VOID :: u8 where "IDNVAL_SMOD_VOID = 0x00"
definition IDNVAL_SMOD_LPGRF_CONTINUOUS :: u8 where "IDNVAL_SMOD_LPGRF_CONTINUOUS = 0x01"
definition IDNVAL_SMOD_LPGRF_DISCRETE :: u8 where "IDNVAL_SMOD_LPGRF_DISCRETE = 0x02"

lemmas idn_consts = IDNCMD_RT_CNLMSG_def IDNCMD_RT_CNLMSG_ACKREQ_def IDNCMD_RT_CNLMSG_CLOSE_def IDNCMD_RT_CNLMSG_CLOSE_ACKREQ_def
  IDNCMD_RT_ACKNOWLEDGE_def IDNFLG_CONTENTID_CHANNELMSG_def IDNFLG_CONTENTID_CONFIG_LSTFRG_def IDNMSK_CONTENTID_CHANNELID_def
  IDNMSK_CONTENTID_CNKTYPE_def IDNVAL_CNKTYPE_VOID_def IDNVAL_CNKTYPE_LPGRF_WAVE_def IDNVAL_CNKTYPE_LPGRF_FRAME_def
  IDNVAL_CNKTYPE_LPGRF_FRAME_FIRST_def IDNVAL_CNKTYPE_LPGRF_FRAME_SEQUEL_def IDNFLG_CHNCFG_ROUTING_def IDNFLG_CHNCFG_CLOSE_def
  IDNVAL_SMOD_VOID_def IDNVAL_SMOD_LPGRF_CONTINUOUS_def IDNVAL_SMOD_LPGRF_DISCRETE_def

record packet_header =
  ph_command :: u8
  ph_flags :: u8
  ph_sequence :: u16

definition PACKET_HEADER_SIZE :: nat where "PACKET_HEADER_SIZE = 4"

definition write_packet_header :: "packet_header \<Rightarrow> u8 list" where
  "write_packet_header h = ph_command h # ph_flags h # be16 (ph_sequence h)"

definition read_packet_header :: "packet_header reader" where
  "read_packet_header = rbind read_u8 (\<lambda>c. rbind read_u8 (\<lambda>f. rbind read_be16 (\<lambda>s.
     rreturn \<lparr>ph_command = c, ph_flags = f, ph_sequence = s\<rparr>)))"

record channel_message_header =
  cm_total_size :: u16
  cm_content_id :: u16
  cm_timestamp :: u32

definition CHANNEL_MESSAGE_SIZE :: nat where "CHANNEL_MESSAGE_SIZE = 8"

definition write_channel_message :: "channel_message_header \<Rightarrow> u8 list" where
  "write_channel_message h = be16 (cm_total_size h) @ be16 (cm_content_id h) @ be32 (cm_timestamp h)"

definition read_channel_message :: "channel_message_header reader" where
  "read_channel_message = rbind read_be16 (\<lambda>s. rbind read_be16 (\<lambda>c. rbind read_be32 (\<lambda>t.
     rreturn \<lparr>cm_total_size = s, cm_content_id = c, cm_timestamp = t\<rparr>)))"

record channel_config_header =
  cc_word_count :: u8
  cc_flags :: u8
  cc_service_id :: u8
  cc_service_mode :: u8

definition CHANNEL_CONFIG_SIZE :: nat where "CHANNEL_CONFIG_SIZE = 4"

definition write_channel_config :: "channel_config_header \<Rightarrow> u8 list" where
  "write_channel_config h = [cc_word_count h, cc_flags h, cc_service_id h, cc_service_mode h]"

definition read_channel_config :: "channel_config_header reader" where
  "read_channel_config = rbind read_u8 (\<lambda>w. rbind read_u8 (\<lambda>f. rbind read_u8 (\<lambda>s. rbind read_u8 (\<lambda>m.
     rreturn \<lparr>cc_word_count = w, cc_flags = f, cc_service_id = s, cc_service_mode = m\<rparr>))))"

record sample_chunk_header =
  flags_duration :: u32

definition SAMPLE_CHUNK_SIZE :: nat where "SAMPLE_CHUNK_SIZE = 4"

definition chunk_header_new :: "u8 \<Rightarrow> u32 \<Rightarrow> sample_chunk_header" where
  "chunk_header_new flags duration_us = \<lparr>flags_duration = push_bit 24 (ucast flags) OR (duration_us AND 0x00FFFFFF)\<rparr>"

definition chunk_header_flags :: "sample_chunk_header \<Rightarrow> u8" where
  "chunk_header_flags h = ucast (drop_bit 24 (flags_duration h))"

definition chunk_header_duration :: "sample_chunk_header \<Rightarrow> u32" where
  "chunk_header_duration h = flags_duration h AND 0x00FFFFFF"

definition write_sample_chunk :: "sample_chunk_header \<Rightarrow> u8 list" where
  "write_sample_chunk h = be32 (flags_duration h)"

definition read_sample_chunk :: "sample_chunk_header reader" where
  "read_sample_chunk = rbind read_be32 (\<lambda>w. rreturn \<lparr>flags_duration = w\<rparr>)"

lemma chunk_header_fields:
  "chunk_header_flags (chunk_header_new f d) = f" "chunk_header_duration (chunk_header_new f d) = d AND 0x00FFFFFF"
proof -
  have m: "(0x00FFFFFF :: u32) = mask 24" by (simp add: mask_eq_exp_minus_1)
  show "chunk_header_flags (chunk_header_new f d) = f"
    unfolding chunk_header_flags_def chunk_header_new_def m
    by (rule bit_word_eqI) (auto simp: bit_simps dest: bit_imp_le_length)
  show "chunk_header_duration (chunk_header_new f d) = d AND 0x00FFFFFF"
    unfolding chunk_header_duration_def chunk_header_new_def m
    by (rule bit_word_eqI) (auto simp: bit_simps)
qed

record acknowledge_response =
  ak_struct_size :: u8
  ak_result_code :: u8
  ak_input_event_flags :: u16
  ak_pipeline_event_flags :: u16
  ak_status_flags :: u8
  ak_link_quality :: u8
  ak_latency_us :: u16

definition ACKNOWLEDGE_SIZE :: nat where "ACKNOWLEDGE_SIZE = 10"

definition write_acknowledge :: "acknowledge_response \<Rightarrow> u8 list" where
  "write_acknowledge a = ak_struct_size a # ak_result_code a # be16 (ak_input_event_flags a) @ be16 (ak_pipeline_event_flags a) @
     ak_status_flags a # ak_link_quality a # be16 (ak_latency_us a)"

definition read_acknowledge :: "acknowledge_response reader" where
  "read_acknowledge = rbind read_u8 (\<lambda>s. rbind read_u8 (\<lambda>c. rbind read_be16 (\<lambda>i. rbind read_be16 (\<lambda>p. rbind read_u8 (\<lambda>f.
     rbind read_u8 (\<lambda>q. rbind read_be16 (\<lambda>l. rreturn \<lparr>ak_struct_size = s, ak_result_code = c, ak_input_event_flags = i,
       ak_pipeline_event_flags = p, ak_status_flags = f, ak_link_quality = q, ak_latency_us = l\<rparr>)))))))"

subsection \<open>Points\<close>

record point_xyrgbi =
  xi_x :: i16
  xi_y :: i16
  xi_r :: u8
  xi_g :: u8
  xi_b :: u8
  xi_i :: u8

definition XYRGBI_SAMPLE_SIZE :: nat where "XYRGBI_SAMPLE_SIZE = 8"

definition write_xyrgbi :: "point_xyrgbi \<Rightarrow> u8 list" where
  "write_xyrgbi p = be16 (xi_x p) @ be16 (xi_y p) @ [xi_r p, xi_g p, xi_b p, xi_i p]"

definition read_xyrgbi :: "point_xyrgbi reader" where
  "read_xyrgbi = rbind read_be16 (\<lambda>x. rbind read_be16 (\<lambda>y. rbind read_u8 (\<lambda>r. rbind read_u8 (\<lambda>g. rbind read_u8 (\<lambda>b. rbind read_u8 (\<lambda>i.
     rreturn \<lparr>xi_x = x, xi_y = y, xi_r = r, xi_g = g, xi_b = b, xi_i = i\<rparr>))))))"

text \<open>The batch encoder of this format writes the bytes of a point by hand.\<close>

definition encode_batch :: "point_xyrgbi list \<Rightarrow> u8 list" where
  "encode_batch ps = concat (map (\<lambda>p. let xb = be16 (xi_x p); yb = be16 (xi_y p)
     in [xb ! 0, xb ! 1, yb ! 0, yb ! 1, xi_r p, xi_g p, xi_b p, xi_i p]) ps)"

definition xyrgbi_from :: "laser_point \<Rightarrow> point_xyrgbi" where
  "xyrgbi_from p = \<lparr>xi_x = coord_to_i16_inverted (lp_x p), xi_y = coord_to_i16_inverted (lp_y p), xi_r = color_to_u8 (lp_r p),
     xi_g = color_to_u8 (lp_g p), xi_b = color_to_u8 (lp_b p), xi_i = color_to_u8 (lp_intensity p)\<rparr>"

record point_highres =
  hr_x :: i16
  hr_y :: i16
  hr_r :: u16
  hr_g :: u16
  hr_b :: u16

definition XYRGB_HIGHRES_SAMPLE_SIZE :: nat where "XYRGB_HIGHRES_SAMPLE_SIZE = 10"

definition write_highres :: "point_highres \<Rightarrow> u8 list" where
  "write_highres p = be16 (hr_x p) @ be16 (hr_y p) @ be16 (hr_r p) @ be16 (hr_g p) @ be16 (hr_b p)"

definition read_highres :: "point_highres reader" where
  "read_highres = rbind read_be16 (\<lambda>x. rbind read_be16 (\<lambda>y. rbind read_be16 (\<lambda>r. rbind read_be16 (\<lambda>g. rbind read_be16 (\<lambda>b.
     rreturn \<lparr>hr_x = x, hr_y = y, hr_r = r, hr_g = g, hr_b = b\<rparr>)))))"

definition highres_from :: "laser_point \<Rightarrow> point_highres" where
  "highres_from p = (let dim = (\<lambda>c :: u16. ucast ((ucast c * ucast (lp_intensity p) :: u32) div 65535) :: u16)
     in \<lparr>hr_x = coord_to_i16_inverted (lp_x p), hr_y = coord_to_i16_inverted (lp_y p), hr_r = dim (lp_r p), hr_g = dim (lp_g p), hr_b = dim (lp_b p)\<rparr>)"

record point_extended =
  ex_x :: i16
  ex_y :: i16
  ex_r :: u16
  ex_g :: u16
  ex_b :: u16
  ex_i :: u16
  ex_u1 :: u16
  ex_u2 :: u16
  ex_u3 :: u16
  ex_u4 :: u16

definition EXTENDED_SAMPLE_SIZE :: nat where "EXTENDED_SAMPLE_SIZE = 20"

definition write_extended :: "point_extended \<Rightarrow> u8 list" where
  "write_extended p = be16 (ex_x p) @ be16 (ex_y p) @ be16 (ex_r p) @ be16 (ex_g p) @ be16 (ex_b p) @ be16 (ex_i p) @
     be16 (ex_u1 p) @ be16 (ex_u2 p) @ be16 (ex_u3 p) @ be16 (ex_u4 p)"

definition read_extended :: "point_extended reader" where
  "read_extended = rbind read_be16 (\<lambda>x. rbind read_be16 (\<lambda>y. rbind read_be16 (\<lambda>r. rbind read_be16 (\<lambda>g. rbind read_be16 (\<lambda>b.
     rbind read_be16 (\<lambda>i. rbind read_be16 (\<lambda>u1. rbind read_be16 (\<lambda>u2. rbind read_be16 (\<lambda>u3. rbind read_be16 (\<lambda>u4.
     rreturn \<lparr>ex_x = x, ex_y = y, ex_r = r, ex_g = g, ex_b = b, ex_i = i, ex_u1 = u1, ex_u2 = u2, ex_u3 = u3, ex_u4 = u4\<rparr>))))))))))"

definition extended_from :: "laser_point \<Rightarrow> point_extended" where
  "extended_from p = \<lparr>ex_x = coord_to_i16_inverted (lp_x p), ex_y = coord_to_i16_inverted (lp_y p), ex_r = lp_r p, ex_g = lp_g p, ex_b = lp_b p,
     ex_i = lp_intensity p, ex_u1 = 0, ex_u2 = 0, ex_u3 = 0, ex_u4 = 0\<rparr>"

subsection \<open>Channel descriptors\<close>

definition XYRGBI :: "u16 list" where
  "XYRGBI = [0x4200, 0x4010, 0x4210, 0x4010, 0x527E, 0x5214, 0x51CC, 0x5C10]"

definition XYRGB_HIGHRES :: "u16 list" where
  "XYRGB_HIGHRES = [0x4200, 0x4010, 0x4210, 0x4010, 0x527E, 0x4010, 0x5214, 0x4010, 0x51CC, 0x4010]"

definition EXTENDED :: "u16 list" where
  "EXTENDED = [0x4200, 0x4010, 0x4210, 0x4010, 0x527E, 0x4010, 0x5214, 0x4010, 0x51CC, 0x4010, 0x5C10, 0x4010,
     0x51BD, 0x4010, 0x5241, 0x4010, 0x51E8, 0x4010, 0x4201, 0x4010]"

subsection \<open>The types are codecs\<close>

lemmas idn_writes = write_packet_header_def write_channel_message_def write_channel_config_def write_sample_chunk_def write_acknowledge_def
  write_xyrgbi_def write_highres_def write_extended_def
lemmas idn_reads = read_packet_header_def read_channel_message_def read_channel_config_def read_sample_chunk_def read_acknowledge_def
  read_xyrgbi_def read_highres_def read_extended_def
lemmas idn_sizes = PACKET_HEADER_SIZE_def CHANNEL_MESSAGE_SIZE_def CHANNEL_CONFIG_SIZE_def SAMPLE_CHUNK_SIZE_def ACKNOWLEDGE_SIZE_def
  XYRGBI_SAMPLE_SIZE_def XYRGB_HIGHRES_SAMPLE_SIZE_def EXTENDED_SAMPLE_SIZE_def

interpretation idn_packet: wire_codec write_packet_header read_packet_header PACKET_HEADER_SIZE
proof
  show "read_packet_header bs = Inr (a, r) \<longleftrightarrow> bs = write_packet_header a @ r" for bs a r
    by (cases a) (auto simp: idn_reads idn_writes read_inverts)
qed (auto simp: idn_reads idn_writes idn_sizes read_inverts)

interpretation idn_message: wire_codec write_channel_message read_channel_message CHANNEL_MESSAGE_SIZE
proof
  show "read_channel_message bs = Inr (a, r) \<longleftrightarrow> bs = write_channel_message a @ r" for bs a r
    by (cases a) (auto simp: idn_reads idn_writes read_inverts)
qed (auto simp: idn_reads idn_writes idn_sizes read_inverts)

interpretation idn_config: wire_codec write_channel_config read_channel_config CHANNEL_CONFIG_SIZE
proof
  show "read_channel_config bs = Inr (a, r) \<longleftrightarrow> bs = write_channel_config a @ r" for bs a r
    by (cases a) (auto simp: idn_reads idn_writes read_inverts)
qed (auto simp: idn_reads idn_writes idn_sizes read_inverts)

interpretation idn_chunk: wire_codec write_sample_chunk read_sample_chunk SAMPLE_CHUNK_SIZE
proof
  show "read_sample_chunk bs = Inr (a, r) \<longleftrightarrow> bs = write_sample_chunk a @ r" for bs a r
    by (cases a) (auto simp: idn_reads idn_writes read_inverts)
qed (auto simp: idn_reads idn_writes idn_sizes read_inverts)

interpretation idn_ack: wire_codec write_acknowledge read_acknowledge ACKNOWLEDGE_SIZE
proof
  show "read_acknowledge bs = Inr (a, r) \<longleftrightarrow> bs = write_acknowledge a @ r" for bs a r
    by (cases a) (auto simp: idn_reads idn_writes read_inverts)
qed (auto simp: idn_reads idn_writes idn_sizes read_inverts)

interpretation idn_xyrgbi: wire_codec write_xyrgbi read_xyrgbi XYRGBI_SAMPLE_SIZE
proof
  show "read_xyrgbi bs = Inr (a, r) \<longleftrightarrow> bs = write_xyrgbi a @ r" for bs a r
    by (cases a) (auto simp: idn_reads idn_writes read_inverts)
qed (auto simp: idn_reads idn_writes idn_sizes read_inverts)

interpretation idn_highres: wire_codec write_highres read_highres XYRGB_HIGHRES_SAMPLE_SIZE
proof
  show "read_highres bs = Inr (a, r) \<longleftrightarrow> bs = write_highres a @ r" for bs a r
    by (cases a) (auto simp: idn_reads idn_writes read_inverts)
qed (auto simp: idn_reads idn_writes idn_sizes read_inverts)

interpretation idn_extended: wire_codec write_extended read_extended EXTENDED_SAMPLE_SIZE
proof
  show "read_extended bs = Inr (a, r) \<longleftrightarrow> bs = write_extended a @ r" for bs a r
    by (cases a) (auto simp: idn_reads idn_writes read_inverts)
qed (auto simp: idn_reads idn_writes idn_sizes read_inverts)

lemma encode_batch_writes: "encode_batch ps = concat (map write_xyrgbi ps)"
  by (induction ps) (simp_all add: encode_batch_def write_xyrgbi_def be16_def)

end
