(* ===== verification/Idn_Stream.thy ===== *)
theory Idn_Stream
  imports Idn_Protocol Effect_Loops Config
begin

text \<open>
  \<^verbatim>\<open>src/src/protocols/idn/dac/stream.rs\<close>: the sender of the IDN stream. The socket and the clock are a
  parameter; the point type is a parameter too, by its size and its encoder, as the trait \<open>Point\<close>
  has it. The packet buffer, which every function clears first, is the value that is sent.
  Microsecond counts are natural numbers: a \<open>u64\<close> of them does not overflow. Log output is left
  out.
\<close>

subsection \<open>Data\<close>

datatype frame_mode = Wave | FrameMode

datatype point_format = FmtXyrgbi | FmtXyrgbHighRes | FmtExtended

fun format_size_bytes :: "point_format \<Rightarrow> nat" where
  "format_size_bytes FmtXyrgbi = XYRGBI_SAMPLE_SIZE"
| "format_size_bytes FmtXyrgbHighRes = XYRGB_HIGHRES_SAMPLE_SIZE"
| "format_size_bytes FmtExtended = EXTENDED_SAMPLE_SIZE"

fun descriptors :: "point_format \<Rightarrow> u16 list" where
  "descriptors FmtXyrgbi = XYRGBI"
| "descriptors FmtXyrgbHighRes = XYRGB_HIGHRES"
| "descriptors FmtExtended = EXTENDED"

definition word_count :: "point_format \<Rightarrow> u8" where
  "word_count f = of_nat (length (descriptors f) div 2)"

definition KEEPALIVE_INTERVAL :: duration where "KEEPALIVE_INTERVAL = from_millis 500"
definition MIN_SAMPLES_PER_FRAME :: nat where "MIN_SAMPLES_PER_FRAME = 20"
definition CONFIG_REFRESH_INTERVAL :: duration where "CONFIG_REFRESH_INTERVAL = from_millis 200"
definition STARTUP_LEAD_US :: nat where "STARTUP_LEAD_US = 30000"
definition REANCHOR_MIN_GAP_US :: nat where "REANCHOR_MIN_GAP_US = 50000"

datatype idn_protocol_error = BufferTooSmall | InvalidScanSpeed

datatype idn_response_error = RespTimeout | NotConnected | Occupied | Excluded | InvalidPayload | GenericError | UnknownAckCode u8

datatype idn_error = IdnIo io_error | IdnProtocol idn_protocol_error | IdnResponse idn_response_error

record 'w idn_net =
  in_now :: "'w \<Rightarrow> instant \<times> 'w"
  in_send :: "u8 list \<Rightarrow> 'w \<Rightarrow> (io_error + nat) \<times> 'w"
  in_set_read_timeout :: "duration \<Rightarrow> 'w \<Rightarrow> (io_error + unit) \<times> 'w"
  in_recv :: "'w \<Rightarrow> (io_error + u8 list) \<times> 'w"

record 'w idn_stream =
  is_service_id :: u8
  is_client_group :: u8
  is_sequence :: u16
  is_timestamp_anchor_us :: nat
  is_points_since_anchor :: nat
  is_anchor_pps :: nat
  is_last_chunk_duration_us :: nat
  is_scan_speed :: nat
  is_point_format :: point_format
  is_service_data_match :: u8
  is_last_config_time :: "instant option"
  is_previous_format :: "point_format option"
  is_frame_count :: nat
  is_last_send_time :: "instant option"
  is_last_data_send_time :: "instant option"
  is_connect_time :: instant
  is_frame_mode :: frame_mode
  is_closed :: bool
  is_world :: 'w

text \<open>The trait \<open>Point\<close> as far as the stream uses it.\<close>

record 'p point_ops =
  po_size_bytes :: nat
  po_encode_batch :: "'p list \<Rightarrow> u8 list"

definition xyrgbi_ops :: "point_xyrgbi point_ops" where
  "xyrgbi_ops = \<lparr>po_size_bytes = XYRGBI_SAMPLE_SIZE, po_encode_batch = encode_batch\<rparr>"

text \<open>The default method writes the points one after the other.\<close>

definition encode_batch_into :: "('p \<Rightarrow> u8 list) \<Rightarrow> 'p list \<Rightarrow> u8 list" where
  "encode_batch_into wr ps = concat (map wr ps)"

definition highres_ops :: "point_highres point_ops" where
  "highres_ops = \<lparr>po_size_bytes = XYRGB_HIGHRES_SAMPLE_SIZE, po_encode_batch = encode_batch_into write_highres\<rparr>"

definition extended_ops :: "point_extended point_ops" where
  "extended_ops = \<lparr>po_size_bytes = EXTENDED_SAMPLE_SIZE, po_encode_batch = encode_batch_into write_extended\<rparr>"

definition idn_connect :: "u8 \<Rightarrow> u8 \<Rightarrow> instant \<Rightarrow> 'w \<Rightarrow> 'w idn_stream" where
  "idn_connect service_id client_group t w =
     \<lparr>is_service_id = service_id, is_client_group = client_group AND 0x0F, is_sequence = 0, is_timestamp_anchor_us = 0,
      is_points_since_anchor = 0, is_anchor_pps = 30000, is_last_chunk_duration_us = 0, is_scan_speed = 30000,
      is_point_format = FmtXyrgbi, is_service_data_match = 0, is_last_config_time = None, is_previous_format = None,
      is_frame_count = 0, is_last_send_time = None, is_last_data_send_time = None, is_connect_time = t, is_frame_mode = Wave,
      is_closed = False, is_world = w\<rparr>"

type_synonym ('w, 'a) idn_eff = "('w idn_stream, idn_error, 'a) eff"

definition idn_now :: "'w idn_net \<Rightarrow> ('w idn_stream, 'e, instant) eff" where
  "idn_now N = estep (\<lambda>s. let (t, w) = in_now N (is_world s) in (t, s\<lparr>is_world := w\<rparr>))"

definition idn_io :: "('w \<Rightarrow> (io_error + 'a) \<times> 'w) \<Rightarrow> ('w, 'a) idn_eff" where
  "idn_io f s = (let (r, w) = f (is_world s) in Some (map_sum IdnIo id r, s\<lparr>is_world := w\<rparr>))"

definition idn_send :: "'w idn_net \<Rightarrow> u8 list \<Rightarrow> ('w, unit) idn_eff" where
  "idn_send N bytes = ebind (idn_io (in_send N bytes)) (\<lambda>n. eret ())"

subsection \<open>Small operations\<close>

definition needs_config :: "nat \<Rightarrow> point_format option \<Rightarrow> point_format \<Rightarrow> instant option \<Rightarrow> instant \<Rightarrow> bool" where
  "needs_config frame_count previous_format point_format last_config_time t =
     (frame_count = 0 \<or> previous_format \<noteq> Some point_format \<or>
      (case last_config_time of None \<Rightarrow> True | Some t0 \<Rightarrow> CONFIG_REFRESH_INTERVAL \<le> t - t0))"

definition timestamp_after :: "'w idn_stream \<Rightarrow> nat \<Rightarrow> nat" where
  "timestamp_after s points = is_timestamp_anchor_us s + points * 1000000 div max 1 (is_anchor_pps s)"

definition current_timestamp_us :: "'w idn_stream \<Rightarrow> nat" where
  "current_timestamp_us s = timestamp_after s (is_points_since_anchor s)"

definition set_scan_speed :: "nat \<Rightarrow> 'w idn_stream \<Rightarrow> 'w idn_stream" where
  "set_scan_speed pps s = s\<lparr>is_scan_speed := pps\<rparr>"

definition set_point_format :: "point_format \<Rightarrow> 'w idn_stream \<Rightarrow> 'w idn_stream" where
  "set_point_format f s = s\<lparr>is_point_format := f\<rparr>"

definition set_frame_mode :: "frame_mode \<Rightarrow> 'w idn_stream \<Rightarrow> 'w idn_stream" where
  "set_frame_mode m s = s\<lparr>is_frame_mode := m\<rparr>"

definition channel_id :: "'w idn_stream \<Rightarrow> u16" where
  "channel_id s = push_bit 8 (ucast (if is_service_id s = 0 then 0 else is_service_id s - 1) AND 0x3F)"

definition sdm_flags :: "'w idn_stream \<Rightarrow> u8" where
  "sdm_flags s = push_bit 4 ((is_service_data_match s AND 1) OR 2)"

definition next_sequence :: "('w idn_stream, 'e, u16) eff" where
  "next_sequence = estep (\<lambda>s. (is_sequence s, s\<lparr>is_sequence := is_sequence s + 1\<rparr>))"

definition idn_chunk_type :: "'w idn_stream \<Rightarrow> bool \<Rightarrow> bool \<Rightarrow> u8" where
  "idn_chunk_type s is_first is_only = (case is_frame_mode s of Wave \<Rightarrow> IDNVAL_CNKTYPE_LPGRF_WAVE
     | FrameMode \<Rightarrow> if is_only then IDNVAL_CNKTYPE_LPGRF_FRAME
         else if is_first then IDNVAL_CNKTYPE_LPGRF_FRAME_FIRST else IDNVAL_CNKTYPE_LPGRF_FRAME_SEQUEL)"

definition pad_points :: "'p list \<Rightarrow> 'p list" where
  "pad_points ps = (if ps = [] then [] else take MIN_SAMPLES_PER_FRAME (ps @ replicate (MIN_SAMPLES_PER_FRAME - length ps) (last ps)))"

definition needs_keepalive :: "'w idn_stream \<Rightarrow> instant \<Rightarrow> bool" where
  "needs_keepalive s t = (case is_last_send_time s of Some t0 \<Rightarrow> KEEPALIVE_INTERVAL \<le> t - t0 | None \<Rightarrow> 0 < is_frame_count s)"

subsection \<open>Writing frames\<close>

text \<open>Bytes of the channel configuration with what the stream remembers of it.\<close>

definition write_config :: "u8 \<Rightarrow> instant \<Rightarrow> ('w, u8 list) idn_eff" where
  "write_config service_id t = estep (\<lambda>s.
     (write_channel_config \<lparr>cc_word_count = word_count (is_point_format s), cc_flags = IDNFLG_CHNCFG_ROUTING OR sdm_flags s,
        cc_service_id = service_id, cc_service_mode = (case is_frame_mode s of Wave \<Rightarrow> IDNVAL_SMOD_LPGRF_CONTINUOUS
          | FrameMode \<Rightarrow> IDNVAL_SMOD_LPGRF_DISCRETE)\<rparr> @
      concat (map (\<lambda>d. [ucast (drop_bit 8 d), ucast d]) (descriptors (is_point_format s))),
      s\<lparr>is_last_config_time := Some t, is_previous_format := Some (is_point_format s)\<rparr>))"

definition config_size :: "point_format \<Rightarrow> nat" where
  "config_size f = CHANNEL_CONFIG_SIZE + length (descriptors f) * 2"

definition chunk_duration_us :: "nat \<Rightarrow> nat \<Rightarrow> nat" where
  "chunk_duration_us ts_start ts_end = min (ts_end - ts_start) 0x00FFFFFF"

text \<open>The update of the accumulator after a chunk or frame of data.\<close>

definition data_sent :: "instant \<Rightarrow> nat \<Rightarrow> nat \<Rightarrow> 'w idn_stream \<Rightarrow> 'w idn_stream" where
  "data_sent t points_after duration s = s\<lparr>is_points_since_anchor := points_after, is_last_chunk_duration_us := duration,
     is_last_send_time := Some t, is_last_data_send_time := Some t\<rparr>"

definition prepare_points :: "'w idn_net \<Rightarrow> 'p list \<Rightarrow> ('w, 'p list) idn_eff" where
  "prepare_points N pts =
     (let points = (if length pts < MIN_SAMPLES_PER_FRAME then pad_points pts else pts) in
      ebind (eget is_scan_speed) (\<lambda>speed. if speed = 0 then efail (IdnProtocol InvalidScanSpeed) else
      ethen (emod (\<lambda>s. if is_previous_format s \<noteq> Some (is_point_format s)
                then s\<lparr>is_service_data_match := is_service_data_match s + 1\<rparr> else s))
      (ebind (idn_now N) (\<lambda>t.
       ebind (eget id) (\<lambda>s. let elapsed_us = (t - is_connect_time s) div 1000 in
       if is_frame_count s = 0
       then ethen (emod (\<lambda>s. s\<lparr>is_timestamp_anchor_us := elapsed_us - STARTUP_LEAD_US, is_points_since_anchor := 0,
              is_anchor_pps := max 1 (is_scan_speed s)\<rparr>)) (eret points)
       else ethen (case is_last_data_send_time s of None \<Rightarrow> eret ()
              | Some t0 \<Rightarrow> ebind (idn_now N) (\<lambda>t1.
                  if max (2 * is_last_chunk_duration_us s) REANCHOR_MIN_GAP_US < (t1 - t0) div 1000
                  then emod (\<lambda>s. s\<lparr>is_timestamp_anchor_us := elapsed_us, is_points_since_anchor := 0,
                         is_anchor_pps := max 1 (is_scan_speed s)\<rparr>)
                  else eret ()))
            (ethen (emod (\<lambda>s. if is_anchor_pps s \<noteq> max 1 (is_scan_speed s)
                     then s\<lparr>is_timestamp_anchor_us := current_timestamp_us s, is_points_since_anchor := 0,
                            is_anchor_pps := max 1 (is_scan_speed s)\<rparr> else s))
             (eret points)))))))"

definition build_and_send_first_packet :: "'w idn_net \<Rightarrow> 'p point_ops \<Rightarrow> 'p list \<Rightarrow> u8 \<Rightarrow> ('w, u16 \<times> nat) idn_eff" where
  "build_and_send_first_packet N P points command =
     ebind (idn_now N) (\<lambda>t. ebind (eget id) (\<lambda>s.
     let needs = needs_config (is_frame_count s) (is_previous_format s) (is_point_format s) (is_last_config_time s) t;
         config = (if needs then config_size (is_point_format s) else 0);
         content_id = IDNFLG_CONTENTID_CHANNELMSG OR channel_id s OR (if needs then IDNFLG_CONTENTID_CONFIG_LSTFRG else 0);
         header_size = PACKET_HEADER_SIZE + CHANNEL_MESSAGE_SIZE + config + SAMPLE_CHUNK_SIZE;
         max_points = (MAX_UDP_PAYLOAD - header_size) div po_size_bytes P;
         num_packets = div_ceil (length points) max_points
     in if max_points = 0 \<or> num_packets = 0 then epanic else
     let n = length points div num_packets;
         ts_start = current_timestamp_us s;
         points_after = is_points_since_anchor s + n;
         duration = chunk_duration_us ts_start (timestamp_after s points_after);
         cnk = idn_chunk_type s True (num_packets = 1);
         msg_size = CHANNEL_MESSAGE_SIZE + config + SAMPLE_CHUNK_SIZE + n * po_size_bytes P
     in ebind next_sequence (\<lambda>seq.
        ebind (if needs then write_config (is_service_id s) t else eret []) (\<lambda>cfg.
        ethen (idn_send N (write_packet_header \<lparr>ph_command = command, ph_flags = is_client_group s, ph_sequence = seq\<rparr> @
           write_channel_message \<lparr>cm_total_size = of_nat msg_size, cm_content_id = content_id OR ucast cnk, cm_timestamp = of_nat ts_start\<rparr> @
           cfg @ write_sample_chunk (chunk_header_new (sdm_flags s) (of_nat duration)) @
           po_encode_batch P (take n points)))
        (ethen (emod (\<lambda>s. (data_sent t points_after duration s)\<lparr>is_frame_count := is_frame_count s + 1\<rparr>))
         (eret (seq, n)))))))"

text \<open>The capacity of a packet without configuration, and how many points the next one takes.\<close>

definition max_continuation :: "'p point_ops \<Rightarrow> nat" where
  "max_continuation P = (MAX_UDP_PAYLOAD - (PACKET_HEADER_SIZE + CHANNEL_MESSAGE_SIZE + SAMPLE_CHUNK_SIZE)) div po_size_bytes P"

definition next_count :: "nat \<Rightarrow> nat \<Rightarrow> nat" where
  "next_count max_points len = len div div_ceil len max_points"

lemma next_count_pos: "0 < m \<Longrightarrow> 0 < n \<Longrightarrow> 0 < next_count m n"
  using div_ceil_le_iff [of m n 0] unfolding next_count_def by (auto simp: div_greater_zero_iff div_ceil_le_iff)

definition send_continuation :: "'w idn_net \<Rightarrow> 'p point_ops \<Rightarrow> 'p list \<Rightarrow> nat \<Rightarrow> ('w, unit) idn_eff" where
  "send_continuation N P points n =
     ebind (eget id) (\<lambda>s.
     let ts_start = current_timestamp_us s;
         points_after = is_points_since_anchor s + n;
         duration = chunk_duration_us ts_start (timestamp_after s points_after);
         msg_size = CHANNEL_MESSAGE_SIZE + SAMPLE_CHUNK_SIZE + n * po_size_bytes P
     in ebind next_sequence (\<lambda>seq. ebind (idn_now N) (\<lambda>t.
        ethen (idn_send N (write_packet_header \<lparr>ph_command = IDNCMD_RT_CNLMSG, ph_flags = is_client_group s, ph_sequence = seq\<rparr> @
           write_channel_message \<lparr>cm_total_size = of_nat msg_size,
             cm_content_id = IDNFLG_CONTENTID_CHANNELMSG OR channel_id s OR ucast (idn_chunk_type s False False), cm_timestamp = of_nat ts_start\<rparr> @
           write_sample_chunk (chunk_header_new (sdm_flags s) (of_nat duration)) @
           po_encode_batch P (take n points)))
        (emod (data_sent t points_after duration)))))"

function write_frame_continuation :: "'w idn_net \<Rightarrow> 'p point_ops \<Rightarrow> 'p list \<Rightarrow> ('w, unit) idn_eff" where
  "write_frame_continuation N P points =
     (if points = [] then eret ()
      else if max_continuation P = 0 then epanic
      else let n = next_count (max_continuation P) (length points)
        in ethen (send_continuation N P points n)
           (if n < length points then write_frame_continuation N P (drop n points) else eret ()))"
  by pat_completeness auto
termination by (relation "measure (\<lambda>(N, P, points). length points)") (auto simp: next_count_pos)

declare write_frame_continuation.simps [simp del]

text \<open>Fragment \<open>index\<close> of a frame in discrete mode.\<close>

definition send_frame_fragment ::
  "'w idn_net \<Rightarrow> 'p point_ops \<Rightarrow> 'p list \<Rightarrow> nat \<Rightarrow> nat \<Rightarrow> bool \<Rightarrow> nat \<Rightarrow> nat \<Rightarrow> instant \<Rightarrow> u8 \<Rightarrow> ('w, unit) idn_eff" where
  "send_frame_fragment N P points index num_fragments needs ts_start duration t first_command =
     ebind (eget id) (\<lambda>s.
     let is_first = (index = 0);
         is_last = (index = num_fragments - 1);
         is_single = (num_fragments = 1);
         write_cfg = (needs \<and> is_first);
         cnk = (if is_single then IDNVAL_CNKTYPE_LPGRF_FRAME
                else if is_first then IDNVAL_CNKTYPE_LPGRF_FRAME_FIRST else IDNVAL_CNKTYPE_LPGRF_FRAME_SEQUEL);
         content_id = IDNFLG_CONTENTID_CHANNELMSG OR channel_id s OR ucast cnk OR
           (if write_cfg then IDNFLG_CONTENTID_CONFIG_LSTFRG else 0) OR
           (if is_last \<and> \<not> is_single then IDNFLG_CONTENTID_CONFIG_LSTFRG else 0);
         config = (if write_cfg then config_size (is_point_format s) else 0);
         chunk_header_size = (if is_first then SAMPLE_CHUNK_SIZE else 0);
         msg_size = CHANNEL_MESSAGE_SIZE + config + chunk_header_size + length points * po_size_bytes P
     in ebind next_sequence (\<lambda>seq.
        ebind (if write_cfg then write_config (is_service_id s) t else eret []) (\<lambda>cfg.
        idn_send N (write_packet_header \<lparr>ph_command = (if is_first then first_command else IDNCMD_RT_CNLMSG),
             ph_flags = is_client_group s, ph_sequence = seq\<rparr> @
           write_channel_message \<lparr>cm_total_size = of_nat msg_size, cm_content_id = content_id, cm_timestamp = of_nat (ts_start + index)\<rparr> @
           cfg @ (if is_first then write_sample_chunk (chunk_header_new (sdm_flags s) (of_nat duration)) else []) @
           po_encode_batch P points))))"

text \<open>The loop over the fragments: \<open>k\<close> of them are left and the points before them are sent.\<close>

fun send_fragments ::
  "'w idn_net \<Rightarrow> 'p point_ops \<Rightarrow> nat \<Rightarrow> bool \<Rightarrow> nat \<Rightarrow> nat \<Rightarrow> instant \<Rightarrow> u8 \<Rightarrow> nat \<Rightarrow> nat \<Rightarrow> nat \<Rightarrow> 'p list \<Rightarrow> ('w, unit) idn_eff" where
  "send_fragments N P num needs ts_start duration t first_command base extra 0 points = eret ()"
| "send_fragments N P num needs ts_start duration t first_command base extra (Suc k) points =
     (let i = num - Suc k;
          count = base + (if i < extra then 1 else 0)
      in ethen (send_frame_fragment N P (take count points) i num needs ts_start duration t first_command)
         (send_fragments N P num needs ts_start duration t first_command base extra k (drop count points)))"

definition write_frame_fragmented :: "'w idn_net \<Rightarrow> 'p point_ops \<Rightarrow> 'p list \<Rightarrow> u8 \<Rightarrow> ('w, u16) idn_eff" where
  "write_frame_fragmented N P points first_command =
     ebind (idn_now N) (\<lambda>t. ebind (eget id) (\<lambda>s.
     let needs = needs_config (is_frame_count s) (is_previous_format s) (is_point_format s) (is_last_config_time s) t;
         config = (if needs then config_size (is_point_format s) else 0);
         ts_start = current_timestamp_us s;
         points_after = is_points_since_anchor s + length points;
         duration = chunk_duration_us ts_start (timestamp_after s points_after);
         first_header = PACKET_HEADER_SIZE + CHANNEL_MESSAGE_SIZE + config + SAMPLE_CHUNK_SIZE
     in if po_size_bytes P = 0 then epanic else
     let max_first = max 1 ((MAX_UDP_PAYLOAD - first_header) div po_size_bytes P);
         num_packets = max 1 (div_ceil (length points) max_first)
     in ethen (send_fragments N P num_packets needs ts_start duration t first_command
            (length points div num_packets) (length points mod num_packets) num_packets points)
        (ethen (emod (\<lambda>s. (data_sent t points_after duration s)\<lparr>is_frame_count := is_frame_count s + 1\<rparr>))
         (eret (is_sequence s)))))"

definition write_frame :: "'w idn_net \<Rightarrow> 'p point_ops \<Rightarrow> 'p list \<Rightarrow> ('w, unit) idn_eff" where
  "write_frame N P pts = (if pts = [] then eret () else
     ebind (prepare_points N pts) (\<lambda>points. ebind (eget is_frame_mode) (\<lambda>mode. case mode of
       Wave \<Rightarrow> ebind (build_and_send_first_packet N P points IDNCMD_RT_CNLMSG) (\<lambda>(seq, n).
         if n < length points then write_frame_continuation N P (drop n points) else eret ())
     | FrameMode \<Rightarrow> ebind (write_frame_fragmented N P points IDNCMD_RT_CNLMSG) (\<lambda>seq. eret ()))))"

subsection \<open>Keepalive and close\<close>

definition send_keepalive :: "'w idn_net \<Rightarrow> ('w, unit) idn_eff" where
  "send_keepalive N = ebind (eget id) (\<lambda>s. ebind next_sequence (\<lambda>seq.
     ethen (idn_send N (write_packet_header \<lparr>ph_command = IDNCMD_RT_CNLMSG, ph_flags = is_client_group s, ph_sequence = seq\<rparr> @
        write_channel_message \<lparr>cm_total_size = of_nat CHANNEL_MESSAGE_SIZE,
          cm_content_id = IDNFLG_CONTENTID_CHANNELMSG OR channel_id s OR ucast IDNVAL_CNKTYPE_VOID,
          cm_timestamp = of_nat (current_timestamp_us s)\<rparr>))
     (ebind (idn_now N) (\<lambda>t. emod (\<lambda>s. s\<lparr>is_last_send_time := Some t\<rparr>)))))"

definition send_channel_close :: "'w idn_net \<Rightarrow> ('w, unit) idn_eff" where
  "send_channel_close N = ebind (eget id) (\<lambda>s. ebind next_sequence (\<lambda>seq.
     idn_send N (write_packet_header \<lparr>ph_command = IDNCMD_RT_CNLMSG, ph_flags = is_client_group s, ph_sequence = seq\<rparr> @
        write_channel_message \<lparr>cm_total_size = of_nat (CHANNEL_MESSAGE_SIZE + CHANNEL_CONFIG_SIZE),
          cm_content_id = IDNFLG_CONTENTID_CHANNELMSG OR IDNFLG_CONTENTID_CONFIG_LSTFRG OR channel_id s OR ucast IDNVAL_CNKTYPE_VOID,
          cm_timestamp = of_nat (current_timestamp_us s)\<rparr> @
        write_channel_config \<lparr>cc_word_count = 0, cc_flags = IDNFLG_CHNCFG_CLOSE, cc_service_id = is_service_id s, cc_service_mode = 0\<rparr>)))"

definition idn_close :: "'w idn_net \<Rightarrow> ('w, unit) idn_eff" where
  "idn_close N = ebind (eget is_closed) (\<lambda>closed. if closed then eret () else
     ethen (emod (\<lambda>s. s\<lparr>is_closed := True\<rparr>))
     (ethen (send_channel_close N)
     (ebind (eget id) (\<lambda>s. ebind next_sequence (\<lambda>seq.
        idn_send N (write_packet_header \<lparr>ph_command = IDNCMD_RT_CNLMSG_CLOSE, ph_flags = is_client_group s, ph_sequence = seq\<rparr>))))))"

subsection \<open>Responses\<close>

text \<open>A datagram is cut to the 64 bytes of the receive buffer.\<close>

definition recv_into_buffer :: "'w idn_net \<Rightarrow> duration \<Rightarrow> ('w, u8 list) idn_eff" where
  "recv_into_buffer N timeout =
     ebind (idn_io (in_set_read_timeout N timeout)) (\<lambda>_.
     emap_err (\<lambda>e. if e = IdnIo IoWouldBlock \<or> e = IdnIo TimedOut then IdnResponse RespTimeout else e)
       (ebind (idn_io (in_recv N)) (\<lambda>data. eret (take 64 data))))"

partial_function (option) recv_loop :: "'w idn_net \<Rightarrow> instant \<Rightarrow> u8 \<Rightarrow> u16 \<Rightarrow> 'w idn_stream \<Rightarrow> ((idn_error + u8 list) \<times> 'w idn_stream) option" where
  "recv_loop N deadline expected_cmd expected_seq s =
     ebind (idn_now N) (\<lambda>t. if deadline - t = 0 then efail (IdnResponse RespTimeout) else
     ebind (recv_into_buffer N (deadline - t)) (\<lambda>data. case read_packet_header data of
       Inl _ \<Rightarrow> recv_loop N deadline expected_cmd expected_seq
     | Inr h \<Rightarrow> if ph_command (fst h) \<noteq> expected_cmd \<or> ph_sequence (fst h) \<noteq> expected_seq
         then recv_loop N deadline expected_cmd expected_seq else eret data)) s"

definition recv_matching :: "'w idn_net \<Rightarrow> duration \<Rightarrow> u8 \<Rightarrow> u16 \<Rightarrow> ('w, u8 list) idn_eff" where
  "recv_matching N timeout expected_cmd expected_seq =
     ebind (idn_now N) (\<lambda>t. recv_loop N (t + timeout) expected_cmd expected_seq)"

definition from_ack_code :: "u8 \<Rightarrow> idn_response_error option" where
  "from_ack_code c =
     (if c < 0x80 then None
      else Some (if c = 0xEB then NotConnected else if c = 0xEC then Occupied else if c = 0xED then Excluded
        else if c = 0xEE then InvalidPayload else if c = 0xEF then GenericError else UnknownAckCode c))"

definition recv_acknowledge :: "'w idn_net \<Rightarrow> duration \<Rightarrow> u16 \<Rightarrow> ('w, acknowledge_response) idn_eff" where
  "recv_acknowledge N timeout expected_seq =
     ebind (recv_matching N timeout IDNCMD_RT_ACKNOWLEDGE expected_seq) (\<lambda>data.
     if length data < PACKET_HEADER_SIZE + ACKNOWLEDGE_SIZE then efail (IdnProtocol BufferTooSmall)
     else case read_acknowledge (drop PACKET_HEADER_SIZE data) of
       Inl e \<Rightarrow> efail (IdnIo e)
     | Inr (ack, _) \<Rightarrow> (case from_ack_code (ak_result_code ack) of Some e \<Rightarrow> efail (IdnResponse e) | None \<Rightarrow> eret ack))"

definition write_frame_with_ack :: "'w idn_net \<Rightarrow> 'p point_ops \<Rightarrow> 'p list \<Rightarrow> duration \<Rightarrow> ('w, acknowledge_response) idn_eff" where
  "write_frame_with_ack N P pts timeout = (if pts = [] then efail (IdnProtocol BufferTooSmall) else
     ebind (prepare_points N pts) (\<lambda>points. ebind (eget is_frame_mode) (\<lambda>mode. case mode of
       FrameMode \<Rightarrow> ebind (write_frame_fragmented N P points IDNCMD_RT_CNLMSG_ACKREQ) (recv_acknowledge N timeout)
     | Wave \<Rightarrow> ebind (build_and_send_first_packet N P points IDNCMD_RT_CNLMSG_ACKREQ) (\<lambda>(ack_seq, n).
         ebind (recv_acknowledge N timeout ack_seq) (\<lambda>ack.
         ethen (if n < length points then write_frame_continuation N P (drop n points) else eret ()) (eret ack))))))"

definition close_with_ack :: "'w idn_net \<Rightarrow> duration \<Rightarrow> ('w, acknowledge_response) idn_eff" where
  "close_with_ack N timeout =
     ethen (emod (\<lambda>s. s\<lparr>is_closed := True\<rparr>))
     (ethen (send_channel_close N)
     (ebind (eget id) (\<lambda>s. ebind next_sequence (\<lambda>seq.
        ethen (idn_send N (write_packet_header \<lparr>ph_command = IDNCMD_RT_CNLMSG_CLOSE_ACKREQ, ph_flags = is_client_group s, ph_sequence = seq\<rparr>))
        (recv_acknowledge N timeout seq)))))"

definition idn_ping :: "'w idn_net \<Rightarrow> duration \<Rightarrow> ('w, duration) idn_eff" where
  "idn_ping N timeout = ebind (idn_now N) (\<lambda>start. ebind (eget id) (\<lambda>s. ebind next_sequence (\<lambda>seq.
     ethen (idn_send N (write_packet_header \<lparr>ph_command = 0x08, ph_flags = is_client_group s, ph_sequence = seq\<rparr>))
     (ebind (idn_now N) (\<lambda>t. ethen (emod (\<lambda>s. s\<lparr>is_last_send_time := Some t\<rparr>))
     (ebind (recv_matching N timeout 0x09 seq) (\<lambda>data. ebind (idn_now N) (\<lambda>t. eret (t - start)))))))))"

end
