(* ===== verification/Idn_Receiver.thy ===== *)
theory Idn_Receiver
  imports Idn_Protocol
begin

text \<open>
  \<^verbatim>\<open>src/src/receiver/parser.rs\<close>: the parser of the frame receiver, which caches the configuration of
  every channel of every source. The socket address of a source is any type. A cursor is the rest
  of the bytes; \<open>.ok()?\<close> of a failed read is \<^const>\<open>None\<close>. Log output is left out.
\<close>

subsection \<open>Data\<close>

record received_point =
  rp_x :: fp
  rp_y :: fp
  rp_r :: fp
  rp_g :: fp
  rp_b :: fp

datatype sample_format = SfXy | SfXyrgb | SfXyrgbi | SfXyrgbHighRes | SfExtended

datatype chunk_type = CtVoid | CtWave | CtFrame | CtFrameFirst | CtFrameSequel | CtOther u8

definition chunk_type_from_byte :: "u8 \<Rightarrow> chunk_type" where
  "chunk_type_from_byte v =
     (if v = IDNVAL_CNKTYPE_VOID then CtVoid
      else if v = IDNVAL_CNKTYPE_LPGRF_WAVE then CtWave
      else if v = IDNVAL_CNKTYPE_LPGRF_FRAME then CtFrame
      else if v = IDNVAL_CNKTYPE_LPGRF_FRAME_FIRST then CtFrameFirst
      else if v = IDNVAL_CNKTYPE_LPGRF_FRAME_SEQUEL then CtFrameSequel
      else CtOther v)"

fun sample_size :: "sample_format \<Rightarrow> nat" where
  "sample_size SfXy = 4"
| "sample_size SfXyrgb = 7"
| "sample_size SfXyrgbi = 8"
| "sample_size SfXyrgbHighRes = 10"
| "sample_size SfExtended = 20"

record channel_state =
  cs_format :: sample_format
  cs_service_data_match :: u8
  cs_service_mode :: u8

datatype state_update = SuNone | SuStore channel_state | SuRemove

record chunk_metadata =
  md_sequence :: u16
  md_content_id :: u16
  md_channel_id :: u8
  md_chunk_type :: chunk_type
  md_config_or_last_fragment :: bool
  md_has_config :: bool
  md_is_last_fragment :: bool
  md_timestamp :: u32
  md_total_size :: nat

record channel_config =
  cf_flags :: u8
  cf_service_mode :: u8
  cf_format :: "sample_format option"

definition has_routing :: "channel_config \<Rightarrow> bool" where
  "has_routing c = (cf_flags c AND IDNFLG_CHNCFG_ROUTING \<noteq> 0)"

definition closes_channel :: "channel_config \<Rightarrow> bool" where
  "closes_channel c = (cf_flags c AND IDNFLG_CHNCFG_CLOSE \<noteq> 0)"

definition config_data_match :: "channel_config \<Rightarrow> u8" where
  "config_data_match c = cf_flags c AND 0x30"

record parsed_chunk =
  pc_sequence :: u16
  pc_content_id :: u16
  pc_channel_id :: u8
  pc_chunk_type :: chunk_type
  pc_config_or_last_fragment :: bool
  pc_has_config :: bool
  pc_is_last_fragment :: bool
  pc_timestamp :: u32
  pc_duration_us :: u32
  pc_format :: sample_format
  pc_points :: "received_point list"

record parsed_packet =
  pp_chunk :: "parsed_chunk option"
  pp_state_update :: state_update

subsection \<open>Formats\<close>

text \<open>The channels of the descriptor array with their widths; \<^const>\<open>None\<close> for a stray precision modifier.\<close>

function classify_channels :: "u16 list \<Rightarrow> (u16 \<times> nat) list option" where
  "classify_channels [] = Some []"
| "classify_channels (d # ds) =
     (if d AND 0xF000 = 0 then classify_channels (drop (unat (d AND 0x000F)) ds)
      else if d AND 0xFF00 = 0x1000 then Some []
      else if d AND 0xF000 = 0x1000 then classify_channels ds
      else if d = 0x4010 then None
      else if ds \<noteq> [] \<and> hd ds = 0x4010 then map_option (Cons (d, 2)) (classify_channels (tl ds))
      else map_option (Cons (d, 1)) (classify_channels ds))"
  by pat_completeness auto
termination by (relation "measure length") auto

definition classify_format :: "u16 list \<Rightarrow> sample_format option" where
  "classify_format ds = (case classify_channels ds of None \<Rightarrow> None
     | Some chans \<Rightarrow>
       (let ids = map fst chans; bytes = sum_list (map snd chans)
        in if ids = [0x4200, 0x4210] \<and> bytes = 4 then Some SfXy
           else if ids = [0x4200, 0x4210, 0x527E, 0x5214, 0x51CC] \<and> bytes = 7 then Some SfXyrgb
           else if ids = [0x4200, 0x4210, 0x527E, 0x5214, 0x51CC] \<and> bytes = 10 then Some SfXyrgbHighRes
           else if ids = [0x4200, 0x4210, 0x527E, 0x5214, 0x51CC, 0x5C10] \<and> bytes = 8 then Some SfXyrgbi
           else if ids = [0x4200, 0x4210, 0x527E, 0x5214, 0x51CC, 0x5C10, 0x51BD, 0x5241, 0x51E8, 0x4201] \<and> bytes = 20
           then Some SfExtended
           else None))"

definition parse_channel_config :: "channel_config reader" where
  "parse_channel_config =
     rbind read_u8 (\<lambda>word_count. rbind read_u8 (\<lambda>flags. rbind read_u8 (\<lambda>service_id. rbind read_u8 (\<lambda>service_mode.
     rbind (read_n read_be16 (unat word_count * 2)) (\<lambda>descriptors.
     rreturn \<lparr>cf_flags = flags, cf_service_mode = service_mode,
       cf_format = (if flags AND IDNFLG_CHNCFG_ROUTING \<noteq> 0 \<and> service_mode \<noteq> IDNVAL_SMOD_VOID
                    then classify_format descriptors else None)\<rparr>)))))"

definition state_update_for_config :: "channel_config option \<Rightarrow> channel_state option \<Rightarrow> bool \<Rightarrow> state_update" where
  "state_update_for_config config state close_after_message =
     (if close_after_message then SuRemove
      else if (case config of Some c \<Rightarrow> has_routing c | None \<Rightarrow> False)
      then (case state of None \<Rightarrow> SuRemove | Some s \<Rightarrow> SuStore s)
      else SuNone)"

definition service_mode_accepts_chunk :: "u8 \<Rightarrow> chunk_type \<Rightarrow> bool" where
  "service_mode_accepts_chunk mode ct =
     (mode = IDNVAL_SMOD_LPGRF_CONTINUOUS \<and> ct = CtWave \<or>
      mode = IDNVAL_SMOD_LPGRF_DISCRETE \<and> (ct = CtFrame \<or> ct = CtFrameFirst \<or> ct = CtFrameSequel))"

subsection \<open>Samples\<close>

definition normalize_i16_coordinate :: "i16 \<Rightarrow> fp" where
  "normalize_i16_coordinate v = (if v = 0x8000 then Fin (- 1) else fdiv F32 (fof_int F32 (sint v)) (Fin 32767))"

abbreviation unorm8 :: "u8 \<Rightarrow> fp" where
  "unorm8 v \<equiv> fdiv F32 (fof_int F32 (uint v)) (Fin 255)"

abbreviation unorm16 :: "u16 \<Rightarrow> fp" where
  "unorm16 v \<equiv> fdiv F32 (fof_int F32 (uint v)) (Fin 65535)"

fun read_color :: "sample_format \<Rightarrow> (fp \<times> fp \<times> fp) reader" where
  "read_color SfXy = rreturn (Fin 0, Fin 0, Fin 0)"
| "read_color SfXyrgb = rbind read_u8 (\<lambda>r. rbind read_u8 (\<lambda>g. rbind read_u8 (\<lambda>b. rreturn (unorm8 r, unorm8 g, unorm8 b))))"
| "read_color SfXyrgbi = rbind read_u8 (\<lambda>r. rbind read_u8 (\<lambda>g. rbind read_u8 (\<lambda>b. rbind read_u8 (\<lambda>i.
     rreturn (fmul F32 (unorm8 r) (unorm8 i), fmul F32 (unorm8 g) (unorm8 i), fmul F32 (unorm8 b) (unorm8 i))))))"
| "read_color SfXyrgbHighRes = rbind read_be16 (\<lambda>r. rbind read_be16 (\<lambda>g. rbind read_be16 (\<lambda>b.
     rreturn (unorm16 r, unorm16 g, unorm16 b))))"
| "read_color SfExtended = rbind read_be16 (\<lambda>r. rbind read_be16 (\<lambda>g. rbind read_be16 (\<lambda>b. rbind read_be16 (\<lambda>i.
     rbind (read_n read_be16 4) (\<lambda>user.
     rreturn (fmul F32 (unorm16 r) (unorm16 i), fmul F32 (unorm16 g) (unorm16 i), fmul F32 (unorm16 b) (unorm16 i)))))))"

definition read_sample :: "sample_format \<Rightarrow> received_point reader" where
  "read_sample fmt = rbind read_be16 (\<lambda>x. rbind read_be16 (\<lambda>y. rbind (read_color fmt) (\<lambda>(r, g, b).
     rreturn \<lparr>rp_x = normalize_i16_coordinate x, rp_y = normalize_i16_coordinate y, rp_r = r, rp_g = g, rp_b = b\<rparr>)))"

subsection \<open>Packets\<close>

definition parse_metadata :: "u8 list \<Rightarrow> chunk_metadata option" where
  "parse_metadata data =
     (if length data < 12 then None
      else let total_size = unat (of_be16 (data ! 4) (data ! 5))
        in if total_size < 8 \<or> 0xFF00 < total_size then None
        else if length data < 4 + total_size then None
        else let content_id = of_be16 (data ! 6) (data ! 7)
          in if content_id AND IDNFLG_CONTENTID_CHANNELMSG = 0 then None
          else let lstfrg = (content_id AND IDNFLG_CONTENTID_CONFIG_LSTFRG \<noteq> 0);
                   cnk = ucast (content_id AND IDNMSK_CONTENTID_CNKTYPE) :: u8;
                   ct = chunk_type_from_byte cnk
            in Some \<lparr>md_sequence = of_be16 (data ! 2) (data ! 3), md_content_id = content_id,
                 md_channel_id = ucast (drop_bit 8 (content_id AND IDNMSK_CONTENTID_CHANNELID)), md_chunk_type = ct,
                 md_config_or_last_fragment = lstfrg, md_has_config = (lstfrg \<and> cnk < 0xC0),
                 md_is_last_fragment = (case ct of CtFrame \<Rightarrow> True | CtFrameSequel \<Rightarrow> lstfrg | _ \<Rightarrow> False),
                 md_timestamp = of_be32 (data ! 8) (data ! 9) (data ! 10) (data ! 11), md_total_size = total_size\<rparr>)"

text \<open>The points of a chunk: the rest of the message must be a whole number of samples.\<close>

definition parse_samples :: "sample_format \<Rightarrow> u8 list \<Rightarrow> received_point list option" where
  "parse_samples fmt rest =
     (if length rest mod sample_size fmt \<noteq> 0 then None
      else case read_n (read_sample fmt) (length rest div sample_size fmt) rest of Inl _ \<Rightarrow> None | Inr (ps, _) \<Rightarrow> Some ps)"

definition parse_chunk :: "chunk_metadata \<Rightarrow> channel_config option \<Rightarrow> channel_state \<Rightarrow> u8 list \<Rightarrow> parsed_packet option" where
  "parse_chunk md config state rest =
     (let close = (case config of Some c \<Rightarrow> closes_channel c | None \<Rightarrow> False);
          result = (\<lambda>duration rest. map_option (\<lambda>points.
            \<lparr>pp_chunk = Some \<lparr>pc_sequence = md_sequence md, pc_content_id = md_content_id md, pc_channel_id = md_channel_id md,
               pc_chunk_type = md_chunk_type md, pc_config_or_last_fragment = md_config_or_last_fragment md,
               pc_has_config = md_has_config md, pc_is_last_fragment = md_is_last_fragment md, pc_timestamp = md_timestamp md,
               pc_duration_us = duration, pc_format = cs_format state, pc_points = points\<rparr>,
             pp_state_update = state_update_for_config config (Some state) close\<rparr>) (parse_samples (cs_format state) rest))
      in if md_chunk_type md = CtFrameSequel then result 0 rest
         else (case read_be32 rest of Inl _ \<Rightarrow> None
           | Inr (fd, rest) \<Rightarrow>
             if ucast (drop_bit 24 fd) AND 0x30 \<noteq> cs_service_data_match state
             then Some \<lparr>pp_chunk = None, pp_state_update = SuRemove\<rparr>
             else result (fd AND 0x00FFFFFF) rest))"

definition parse_message :: "chunk_metadata \<Rightarrow> channel_config option \<Rightarrow> channel_state option \<Rightarrow> u8 list \<Rightarrow> parsed_packet option" where
  "parse_message md config cached rest =
     (let close = (case config of Some c \<Rightarrow> closes_channel c | None \<Rightarrow> False);
          routed = (case config of Some c \<Rightarrow> has_routing c | None \<Rightarrow> False);
          fresh = (case config of None \<Rightarrow> None | Some c \<Rightarrow>
            (if cf_service_mode c = IDNVAL_SMOD_VOID then None
             else map_option (\<lambda>fmt. \<lparr>cs_format = fmt, cs_service_data_match = config_data_match c,
                    cs_service_mode = cf_service_mode c\<rparr>) (cf_format c)));
          state = (if routed then fresh else cached)
      in if routed \<and> fresh = None then Some \<lparr>pp_chunk = None, pp_state_update = SuRemove\<rparr>
         else if md_chunk_type md = CtVoid
         then Some \<lparr>pp_chunk = None, pp_state_update = state_update_for_config config state close\<rparr>
         else case state of None \<Rightarrow> None
         | Some st \<Rightarrow>
           if \<not> service_mode_accepts_chunk (cs_service_mode st) (md_chunk_type md)
           then Some \<lparr>pp_chunk = None, pp_state_update = state_update_for_config config (Some st) close\<rparr>
           else parse_chunk md config st rest)"

definition parse_frame_data_with_metadata :: "u8 list \<Rightarrow> chunk_metadata \<Rightarrow> channel_state option \<Rightarrow> parsed_packet option" where
  "parse_frame_data_with_metadata data md cached =
     (let rest = drop 12 (take (4 + md_total_size md) data)
      in if md_has_config md
         then (case parse_channel_config rest of Inl _ \<Rightarrow> None | Inr (c, rest) \<Rightarrow> parse_message md (Some c) cached rest)
         else parse_message md None cached rest)"

subsection \<open>The parser\<close>

type_synonym 'a frame_parser = "'a \<times> u8 \<rightharpoonup> channel_state"

definition parser_new :: "'a frame_parser" where
  "parser_new = Map.empty"

definition parser_reset :: "'a frame_parser \<Rightarrow> 'a frame_parser" where
  "parser_reset P = Map.empty"

definition parse_frame_data :: "'a frame_parser \<Rightarrow> 'a \<Rightarrow> u8 list \<Rightarrow> parsed_chunk option \<times> 'a frame_parser" where
  "parse_frame_data P source data = (case parse_metadata data of None \<Rightarrow> (None, P)
     | Some md \<Rightarrow>
       (let key = (source, md_channel_id md)
        in case parse_frame_data_with_metadata data md (P key) of None \<Rightarrow> (None, P)
           | Some parsed \<Rightarrow> (pp_chunk parsed,
               (case pp_state_update parsed of SuNone \<Rightarrow> P | SuStore st \<Rightarrow> P(key \<mapsto> st) | SuRemove \<Rightarrow> P(key := None)))))"

definition parse_frame_data_stateless :: "u8 list \<Rightarrow> parsed_chunk option" where
  "parse_frame_data_stateless data = (case parse_metadata data of None \<Rightarrow> None
     | Some md \<Rightarrow> (case parse_frame_data_with_metadata data md None of None \<Rightarrow> None | Some parsed \<Rightarrow> pp_chunk parsed))"

end
