(* ===== verification/Idn_Loopback.thy ===== *)
theory Idn_Loopback
  imports Idn_Stream Idn_Receiver
begin

text \<open>
  The sender of the IDN stream against the parser of the receiver: what the one sends, the other
  decodes. The two are separate programs that share only the wire format.
\<close>

subsection \<open>Content identifiers\<close>

definition content :: "u8 \<Rightarrow> bool \<Rightarrow> u8 \<Rightarrow> u16" where
  "content c f k = IDNFLG_CONTENTID_CHANNELMSG OR push_bit 8 (ucast c AND 0x3F) OR (if f then IDNFLG_CONTENTID_CONFIG_LSTFRG else 0) OR ucast k"

text \<open>The simplifier reads the bits of a numeral of a word type off the integer.\<close>

lemma bit_consts:
  "bit (0x8000 :: int) n \<longleftrightarrow> n = 15" "bit (0x4000 :: int) n \<longleftrightarrow> n = 14" "bit (0x3F00 :: int) n \<longleftrightarrow> 8 \<le> n \<and> n < 14"
  "bit (0x00FF :: int) n \<longleftrightarrow> n < 8" "bit (0x3F :: int) n \<longleftrightarrow> n < 6" "bit (0x80 :: int) n \<longleftrightarrow> n = 7"
proof -
  have c: "(0x8000 :: int) = push_bit 15 1" "(0x4000 :: int) = push_bit 14 1" "(0x3F00 :: int) = push_bit 8 (mask 6)"
    "(0x00FF :: int) = mask 8" "(0x3F :: int) = mask 6" "(0x80 :: int) = push_bit 7 1"
    by (simp_all add: mask_eq_exp_minus_1 push_bit_eq_mult)
  show "bit (0x8000 :: int) n \<longleftrightarrow> n = 15" "bit (0x4000 :: int) n \<longleftrightarrow> n = 14" "bit (0x3F00 :: int) n \<longleftrightarrow> 8 \<le> n \<and> n < 14"
    "bit (0x00FF :: int) n \<longleftrightarrow> n < 8" "bit (0x3F :: int) n \<longleftrightarrow> n < 6" "bit (0x80 :: int) n \<longleftrightarrow> n = 7"
    unfolding c by (simp_all only: bit_push_bit_iff bit_1_iff bit_mask_iff possible_bit_int) auto
qed

lemma content_fields:
  "content c f k AND IDNFLG_CONTENTID_CHANNELMSG \<noteq> 0"
  "content c f k AND IDNFLG_CONTENTID_CONFIG_LSTFRG \<noteq> 0 \<longleftrightarrow> f"
  "ucast (drop_bit 8 (content c f k AND IDNMSK_CONTENTID_CHANNELID)) = c AND 0x3F"
  "ucast (content c f k AND IDNMSK_CONTENTID_CNKTYPE) = k"
proof -
  have "bit (content c f k AND IDNFLG_CONTENTID_CHANNELMSG) 15"
    by (simp add: content_def idn_consts bit_and_iff bit_or_iff bit_consts)
  then show "content c f k AND IDNFLG_CONTENTID_CHANNELMSG \<noteq> 0" by auto
  have "content c f k AND IDNFLG_CONTENTID_CONFIG_LSTFRG = (if f then IDNFLG_CONTENTID_CONFIG_LSTFRG else 0)"
    by (rule bit_word_eqI) (auto simp: content_def idn_consts bit_simps bit_consts dest: bit_imp_le_length)
  then show "content c f k AND IDNFLG_CONTENTID_CONFIG_LSTFRG \<noteq> 0 \<longleftrightarrow> f" by (simp add: idn_consts)
  show "ucast (drop_bit 8 (content c f k AND IDNMSK_CONTENTID_CHANNELID)) = c AND 0x3F"
    by (rule bit_word_eqI) (auto simp: content_def idn_consts bit_simps bit_consts dest: bit_imp_le_length)
  show "ucast (content c f k AND IDNMSK_CONTENTID_CNKTYPE) = k"
    by (rule bit_word_eqI) (auto simp: content_def idn_consts bit_simps bit_consts dest: bit_imp_le_length)
qed

text \<open>The three ways the sender assembles a content identifier.\<close>

definition stream_channel :: "'w idn_stream \<Rightarrow> u8" where
  "stream_channel s = (if is_service_id s = 0 then 0 else is_service_id s - 1)"

lemma content_assembled:
  "(IDNFLG_CONTENTID_CHANNELMSG OR channel_id s OR (if f then IDNFLG_CONTENTID_CONFIG_LSTFRG else 0)) OR ucast k = content (stream_channel s) f k"
  "IDNFLG_CONTENTID_CHANNELMSG OR channel_id s OR ucast k = content (stream_channel s) False k"
  "IDNFLG_CONTENTID_CHANNELMSG OR channel_id s OR ucast k OR (if f then IDNFLG_CONTENTID_CONFIG_LSTFRG else 0) OR
     (if g then IDNFLG_CONTENTID_CONFIG_LSTFRG else 0) = content (stream_channel s) (f \<or> g) k"
  by (simp_all add: content_def channel_id_def stream_channel_def or.assoc or.left_commute or.commute)

subsection \<open>Configurations\<close>

fun receiver_format :: "point_format \<Rightarrow> sample_format" where
  "receiver_format FmtXyrgbi = SfXyrgbi"
| "receiver_format FmtXyrgbHighRes = SfXyrgbHighRes"
| "receiver_format FmtExtended = SfExtended"

fun service_mode :: "frame_mode \<Rightarrow> u8" where
  "service_mode Wave = IDNVAL_SMOD_LPGRF_CONTINUOUS"
| "service_mode FrameMode = IDNVAL_SMOD_LPGRF_DISCRETE"

interpretation idn_be16: wire_codec be16 read_be16 2
  by unfold_locales (simp_all add: read_inverts)

lemma descriptors_classified: "classify_format (descriptors f) = Some (receiver_format f)"
  by (cases f) (simp_all add: classify_format_def XYRGBI_def XYRGB_HIGHRES_def EXTENDED_def)

lemma descriptors_counted: "unat (word_count f) * 2 = length (descriptors f)"
  by (cases f) (simp_all add: word_count_def XYRGBI_def XYRGB_HIGHRES_def EXTENDED_def)

lemma sdm_cases: "sdm_flags s = 0x20 \<or> sdm_flags s = 0x30"
  by (cases "even (is_service_data_match s)") (simp_all add: sdm_flags_def and_one_eq odd_iff_mod_2_eq_one even_iff_mod_2_eq_zero)

definition config_bytes :: "u8 \<Rightarrow> u8 \<Rightarrow> frame_mode \<Rightarrow> point_format \<Rightarrow> u8 list" where
  "config_bytes service sdm mode f =
     write_channel_config \<lparr>cc_word_count = word_count f, cc_flags = IDNFLG_CHNCFG_ROUTING OR sdm, cc_service_id = service,
       cc_service_mode = service_mode mode\<rparr> @ concat (map be16 (descriptors f))"

lemma config_bytes_length: "length (config_bytes service sdm mode f) = config_size f"
  by (simp add: config_bytes_def config_size_def idn_writes idn_sizes idn_be16.run_size)

lemma config_parsed:
  assumes "sdm = 0x20 \<or> sdm = 0x30"
  shows "parse_channel_config (config_bytes service sdm mode f @ r) =
     Inr (\<lparr>cf_flags = IDNFLG_CHNCFG_ROUTING OR sdm, cf_service_mode = service_mode mode, cf_format = Some (receiver_format f)\<rparr>, r)"
proof -
  have "read_n read_be16 (unat (word_count f) * 2) (concat (map be16 (descriptors f)) @ r) = Inr (descriptors f, r)"
    by (simp add: idn_be16.read_n_iff descriptors_counted)
  moreover have "(IDNFLG_CHNCFG_ROUTING OR sdm) AND IDNFLG_CHNCFG_ROUTING \<noteq> 0" using assms by (auto simp: idn_consts)
  moreover have "service_mode mode \<noteq> IDNVAL_SMOD_VOID" by (cases mode) (simp_all add: idn_consts)
  ultimately show ?thesis
    by (simp add: parse_channel_config_def config_bytes_def idn_writes rbind_def rreturn_def descriptors_classified)
qed

subsection \<open>Samples\<close>

definition received_xyrgbi :: "point_xyrgbi \<Rightarrow> received_point" where
  "received_xyrgbi p = \<lparr>rp_x = normalize_i16_coordinate (xi_x p), rp_y = normalize_i16_coordinate (xi_y p),
     rp_r = fmul F32 (unorm8 (xi_r p)) (unorm8 (xi_i p)), rp_g = fmul F32 (unorm8 (xi_g p)) (unorm8 (xi_i p)),
     rp_b = fmul F32 (unorm8 (xi_b p)) (unorm8 (xi_i p))\<rparr>"

definition received_highres :: "point_highres \<Rightarrow> received_point" where
  "received_highres p = \<lparr>rp_x = normalize_i16_coordinate (hr_x p), rp_y = normalize_i16_coordinate (hr_y p),
     rp_r = unorm16 (hr_r p), rp_g = unorm16 (hr_g p), rp_b = unorm16 (hr_b p)\<rparr>"

definition received_extended :: "point_extended \<Rightarrow> received_point" where
  "received_extended p = \<lparr>rp_x = normalize_i16_coordinate (ex_x p), rp_y = normalize_i16_coordinate (ex_y p),
     rp_r = fmul F32 (unorm16 (ex_r p)) (unorm16 (ex_i p)), rp_g = fmul F32 (unorm16 (ex_g p)) (unorm16 (ex_i p)),
     rp_b = fmul F32 (unorm16 (ex_b p)) (unorm16 (ex_i p))\<rparr>"

text \<open>The metadata of a packet and the chunk the parser makes of it.\<close>

definition packet_metadata :: "packet_header \<Rightarrow> channel_message_header \<Rightarrow> u8 \<Rightarrow> bool \<Rightarrow> u8 \<Rightarrow> chunk_metadata" where
  "packet_metadata h m c f k =
     \<lparr>md_sequence = ph_sequence h, md_content_id = content c f k, md_channel_id = c AND 0x3F, md_chunk_type = chunk_type_from_byte k,
      md_config_or_last_fragment = f, md_has_config = (f \<and> k < 0xC0),
      md_is_last_fragment = (case chunk_type_from_byte k of CtFrame \<Rightarrow> True | CtFrameSequel \<Rightarrow> f | _ \<Rightarrow> False),
      md_timestamp = cm_timestamp m, md_total_size = unat (cm_total_size m)\<rparr>"

definition chunk_of :: "chunk_metadata \<Rightarrow> u32 \<Rightarrow> sample_format \<Rightarrow> received_point list \<Rightarrow> parsed_chunk" where
  "chunk_of md d fmt ps =
     \<lparr>pc_sequence = md_sequence md, pc_content_id = md_content_id md, pc_channel_id = md_channel_id md, pc_chunk_type = md_chunk_type md,
      pc_config_or_last_fragment = md_config_or_last_fragment md, pc_has_config = md_has_config md,
      pc_is_last_fragment = md_is_last_fragment md, pc_timestamp = md_timestamp md, pc_duration_us = d, pc_format = fmt, pc_points = ps\<rparr>"

lemma metadata_parsed:
  assumes "cm_content_id m = content c f k" "unat (cm_total_size m) = 8 + length body" "length body \<le> 0xFEF8"
  shows "parse_metadata (write_packet_header h @ write_channel_message m @ body) = Some (packet_metadata h m c f k)"
  using assms content_fields [of c f k]
  by (simp add: parse_metadata_def packet_metadata_def idn_writes be16_def be32_def Let_def)

lemma chunk_header_read: "read_be32 (write_sample_chunk (chunk_header_new sdm d) @ r) = Inr (flags_duration (chunk_header_new sdm d), r)"
  by (simp add: idn_writes read_inverts)

locale idn_point =
  fixes P :: "'p point_ops" and fmt :: point_format and wr :: "'p \<Rightarrow> u8 list" and recv :: "'p \<Rightarrow> received_point"
  assumes size: "po_size_bytes P = sample_size (receiver_format fmt)"
    and encode: "po_encode_batch P ps = concat (map wr ps)"
    and sample: "read_sample (receiver_format fmt) (wr p @ r) = Inr (recv p, r)"
    and width: "length (wr p) = sample_size (receiver_format fmt)"
begin

lemma size_pos: "0 < po_size_bytes P" "po_size_bytes P \<le> 20"
  unfolding size by (cases fmt; simp)+

lemma encoded_length: "length (po_encode_batch P ps) = length ps * po_size_bytes P"
  by (induction ps) (simp_all add: encode size width)

lemma read_samples: "read_n (read_sample (receiver_format fmt)) (length ps) (concat (map wr ps) @ r) = Inr (map recv ps, r)"
  by (induction ps) (simp_all add: rbind_def rreturn_def sample)

lemma samples_parsed: "parse_samples (receiver_format fmt) (po_encode_batch P ps) = Some (map recv ps)"
  using read_samples [of ps "[]"] size_pos encoded_length [of ps]
  by (simp add: parse_samples_def size encode)

lemma chunk_parsed:
  assumes st: "cs_format st = receiver_format fmt" "cs_service_data_match st = sdm" "sdm = 0x20 \<or> sdm = 0x30"
    and hdr: "hdr = (if md_chunk_type md = CtFrameSequel then [] else write_sample_chunk (chunk_header_new sdm d))"
  shows "parse_chunk md config st (hdr @ po_encode_batch P ps) =
     Some \<lparr>pp_chunk = Some (chunk_of md (if md_chunk_type md = CtFrameSequel then 0 else d AND 0x00FFFFFF) (receiver_format fmt) (map recv ps)),
       pp_state_update = state_update_for_config config (Some st) (case config of Some c \<Rightarrow> closes_channel c | None \<Rightarrow> False)\<rparr>"
proof (cases "md_chunk_type md = CtFrameSequel")
  case True
  then show ?thesis using st hdr by (auto simp: parse_chunk_def samples_parsed chunk_of_def)
next
  case False
  have "ucast (drop_bit 24 (flags_duration (chunk_header_new sdm d))) AND 0x30 = sdm"
    using chunk_header_fields(1) [of sdm d] st(3) by (auto simp: chunk_header_flags_def)
  moreover have "flags_duration (chunk_header_new sdm d) AND 0x00FFFFFF = d AND 0x00FFFFFF"
    using chunk_header_fields(2) [of sdm d] by (simp add: chunk_header_duration_def)
  ultimately show ?thesis using False st hdr by (auto simp: parse_chunk_def samples_parsed chunk_of_def chunk_header_read)
qed

lemma packet_received:
  assumes m: "cm_content_id m = content c f k" "unat (cm_total_size m) = 8 + length body" "length body \<le> 0xFEF8"
    and body: "body = cfg @ hdr @ po_encode_batch P ps"
    and st: "st = \<lparr>cs_format = receiver_format fmt, cs_service_data_match = sdm, cs_service_mode = service_mode mode\<rparr>"
      "sdm = 0x20 \<or> sdm = 0x30"
    and cfg: "if f \<and> k < 0xC0 then cfg = config_bytes service sdm mode fmt else cfg = [] \<and> R (src, c AND 0x3F) = Some st"
    and accepts: "service_mode_accepts_chunk (service_mode mode) (chunk_type_from_byte k)"
    and hdr: "hdr = (if chunk_type_from_byte k = CtFrameSequel then [] else write_sample_chunk (chunk_header_new sdm d))"
  shows "parse_frame_data R src (write_packet_header h @ write_channel_message m @ body) =
     (Some (chunk_of (packet_metadata h m c f k) (if chunk_type_from_byte k = CtFrameSequel then 0 else d AND 0x00FFFFFF)
        (receiver_format fmt) (map recv ps)), R((src, c AND 0x3F) \<mapsto> st))"
proof -
  define data where "data = write_packet_header h @ write_channel_message m @ body"
  define md where "md = packet_metadata h m c f k"
  let ?d = "if chunk_type_from_byte k = CtFrameSequel then 0 else d AND 0x00FFFFFF"
  have meta: "parse_metadata data = Some md" using metadata_parsed [OF m] by (simp add: data_def md_def)
  have fields: "md_channel_id md = c AND 0x3F" "md_chunk_type md = chunk_type_from_byte k" "md_has_config md = (f \<and> k < 0xC0)"
    by (simp_all add: md_def packet_metadata_def)
  have rest: "drop 12 (take (4 + md_total_size md) data) = cfg @ hdr @ po_encode_batch P ps"
    using m(2) by (simp add: data_def body md_def packet_metadata_def idn_writes be16_def be32_def)
  have void: "chunk_type_from_byte k \<noteq> CtVoid" using accepts by (auto simp: service_mode_accepts_chunk_def)
  have mode: "service_mode mode \<noteq> IDNVAL_SMOD_VOID" by (cases mode) (simp_all add: idn_consts)
  have chunk: "parse_chunk md config st (hdr @ po_encode_batch P ps) =
     Some \<lparr>pp_chunk = Some (chunk_of md ?d (receiver_format fmt) (map recv ps)),
       pp_state_update = state_update_for_config config (Some st) (case config of Some c \<Rightarrow> closes_channel c | None \<Rightarrow> False)\<rparr>" for config
    using chunk_parsed [of st sdm hdr md d config ps] st hdr by (simp add: fields)
  have "parse_frame_data R src data = (Some (chunk_of md ?d (receiver_format fmt) (map recv ps)), R((src, c AND 0x3F) \<mapsto> st))"
  proof (cases "f \<and> k < 0xC0")
    case True
    let ?cf = "\<lparr>cf_flags = IDNFLG_CHNCFG_ROUTING OR sdm, cf_service_mode = service_mode mode, cf_format = Some (receiver_format fmt)\<rparr>"
    have flags: "has_routing ?cf" "\<not> closes_channel ?cf" "config_data_match ?cf = sdm"
      using st(2) by (auto simp: has_routing_def closes_channel_def config_data_match_def idn_consts)
    have "cfg = config_bytes service sdm mode fmt" using cfg True by simp
    then have "parse_channel_config (cfg @ hdr @ po_encode_batch P ps) = Inr (?cf, hdr @ po_encode_batch P ps)"
      using config_parsed [OF st(2)] by simp
    then show ?thesis using True flags void accepts mode chunk [of "Some ?cf"]
      by (simp add: parse_frame_data_def meta parse_frame_data_with_metadata_def rest fields parse_message_def st(1) state_update_for_config_def)
  next
    case False
    then have "cfg = []" "R (src, c AND 0x3F) = Some st" using cfg by simp_all
    moreover have "\<not> md_has_config md" using False fields(3) by simp
    ultimately show ?thesis using void accepts chunk [of None]
      by (simp add: parse_frame_data_def meta parse_frame_data_with_metadata_def rest fields(1,2) parse_message_def st(1) state_update_for_config_def
          fun_upd_idem)
  qed
  then show ?thesis by (simp add: data_def md_def)
qed

end

lemma read_n_numeral: "read_n rd (numeral k) = rbind rd (\<lambda>a. rbind (read_n rd (pred_numeral k)) (\<lambda>as. rreturn (a # as)))"
  by (simp add: numeral_eq_Suc)

interpretation xyrgbi_point: idn_point xyrgbi_ops FmtXyrgbi write_xyrgbi received_xyrgbi
  by unfold_locales
    (simp_all add: xyrgbi_ops_def idn_sizes encode_batch_writes read_sample_def rbind_def rreturn_def idn_writes be16_def received_xyrgbi_def)

interpretation highres_point: idn_point highres_ops FmtXyrgbHighRes write_highres received_highres
  by unfold_locales
    (simp_all add: highres_ops_def idn_sizes encode_batch_into_def read_sample_def rbind_def rreturn_def idn_writes be16_def received_highres_def)

interpretation extended_point: idn_point extended_ops FmtExtended write_extended received_extended
  by unfold_locales
    (simp_all add: extended_ops_def idn_sizes encode_batch_into_def read_sample_def rbind_def rreturn_def idn_writes be16_def
      received_extended_def read_n_numeral)

end
