(* ===== verification/Idn_Delivery.thy ===== *)
theory Idn_Delivery
  imports Idn_Loopback "HOL-Library.Sublist"
begin

text \<open>
  The IDN sender connected to the parser of the receiver by a network that loses nothing and keeps
  the order: every frame written arrives with all its points, whatever the clock, the mode and
  the history of the two are, as long as the receiver knows the configuration the sender
  remembers to have announced.
\<close>

subsection \<open>The loopback network\<close>

text \<open>
  The world of the sender is that of its own network with the receiver beside it: the channels the
  parser knows and the packets it was given, each with the chunk it made of it.
\<close>

definition loopback :: "'a \<Rightarrow> 'w idn_net \<Rightarrow> ('w \<times> 'a frame_parser \<times> (u8 list \<times> parsed_chunk option) list) idn_net" where
  "loopback src N =
     \<lparr>in_now = (\<lambda>(w, x). let (t, w') = in_now N w in (t, (w', x))),
      in_send = (\<lambda>b (w, R, got). case in_send N b w of (Inl e, w') \<Rightarrow> (Inl e, (w', R, got))
        | (Inr n, w') \<Rightarrow> (let (c, R') = parse_frame_data R src b in (Inr n, (w', R', got @ [(b, c)])))),
      in_set_read_timeout = (\<lambda>d (w, x). let (r, w') = in_set_read_timeout N d w in (r, (w', x))),
      in_recv = (\<lambda>(w, x). let (r, w') = in_recv N w in (r, (w', x)))\<rparr>"

type_synonym ('w, 'a) linked = "('w \<times> 'a frame_parser \<times> (u8 list \<times> parsed_chunk option) list) idn_stream"

definition rx :: "('w, 'a) linked \<Rightarrow> 'a frame_parser" where
  "rx s = fst (snd (is_world s))"

definition delivered :: "('w, 'a) linked \<Rightarrow> (u8 list \<times> parsed_chunk option) list" where
  "delivered s = snd (snd (is_world s))"

text \<open>The receiver's entry for the channel of the stream is the one the stream would announce now.\<close>

definition stream_state :: "'w idn_stream \<Rightarrow> channel_state" where
  "stream_state s = \<lparr>cs_format = receiver_format (is_point_format s), cs_service_data_match = sdm_flags s,
     cs_service_mode = service_mode (is_frame_mode s)\<rparr>"

definition configured :: "'a \<Rightarrow> ('w, 'a) linked \<Rightarrow> bool" where
  "configured src s \<longleftrightarrow> rx s (src, stream_channel s AND 0x3F) = Some (stream_state s)"

definition live :: "'a \<Rightarrow> ('w, 'a) linked \<Rightarrow> bool" where
  "live src s \<longleftrightarrow> configured src s \<and> is_previous_format s = Some (is_point_format s)"

text \<open>What the sender believes to have announced, the receiver knows.\<close>

definition synced :: "'a \<Rightarrow> ('w, 'a) linked \<Rightarrow> bool" where
  "synced src s \<longleftrightarrow> (case is_previous_format s of None \<Rightarrow> True | Some f \<Rightarrow> configured src (s\<lparr>is_point_format := f\<rparr>))"

definition same_stream :: "'w idn_stream \<Rightarrow> 'w idn_stream \<Rightarrow> bool" where
  "same_stream s s' \<longleftrightarrow> is_service_id s' = is_service_id s \<and> is_point_format s' = is_point_format s \<and> is_frame_mode s' = is_frame_mode s"

definition refused :: "'w idn_net \<Rightarrow> idn_error \<Rightarrow> bool" where
  "refused N e \<longleftrightarrow> (\<exists>x b w. fst (in_send N b w) = Inl x \<and> e = IdnIo x)"

definition chunk_points :: "(u8 list \<times> parsed_chunk) list \<Rightarrow> received_point list" where
  "chunk_points cs = concat (map (\<lambda>(b, c). pc_points c) cs)"

text \<open>
  A call returns and the receiver gets chunks whose points, in order, are the points wanted; when
  the network refuses a packet the call fails and the receiver has the points up to there.
\<close>

definition delivers :: "'w idn_net \<Rightarrow> (('w, 'a) linked, idn_error, 'r) eff \<Rightarrow> ('w, 'a) linked \<Rightarrow> received_point list \<Rightarrow>
    ('r \<Rightarrow> ('w, 'a) linked \<Rightarrow> (u8 list \<times> parsed_chunk) list \<Rightarrow> bool) \<Rightarrow> bool" where
  "delivers N m s want Q \<longleftrightarrow> (\<exists>r s' cs. m s = Some (r, s') \<and> same_stream s s' \<and> delivered s' = delivered s @ map (map_prod id Some) cs \<and>
     list_all (\<lambda>(b, c). length b \<le> MAX_UDP_PAYLOAD) cs \<and>
     (case r of Inl e \<Rightarrow> refused N e \<and> prefix (chunk_points cs) want | Inr a \<Rightarrow> chunk_points cs = want \<and> Q a s' cs))"

lemma chunk_points_simps [simp]: "chunk_points [] = []" "chunk_points ((b, c) # cs) = pc_points c @ chunk_points cs"
  "chunk_points (cs @ ds) = chunk_points cs @ chunk_points ds"
  by (simp_all add: chunk_points_def)

lemma same_stream_refl [simp]: "same_stream s s"
  by (simp add: same_stream_def)

lemma same_stream_trans: "same_stream s s' \<Longrightarrow> same_stream s' s'' \<Longrightarrow> same_stream s s''"
  by (simp add: same_stream_def)

lemma delivers_ebind:
  assumes m: "delivers N m s v Q1"
    and f: "\<And>a s' cs. Q1 a s' cs \<Longrightarrow> same_stream s s' \<Longrightarrow> delivers N (f a) s' w (\<lambda>b s'' ds. Q b s'' (cs @ ds))"
  shows "delivers N (ebind m f) s (v @ w) Q"
proof -
  obtain r s' cs where r: "m s = Some (r, s')" "same_stream s s'" "delivered s' = delivered s @ map (map_prod id Some) cs"
    "list_all (\<lambda>(b, c). length b \<le> MAX_UDP_PAYLOAD) cs"
    "case r of Inl e \<Rightarrow> refused N e \<and> prefix (chunk_points cs) v | Inr a \<Rightarrow> chunk_points cs = v \<and> Q1 a s' cs"
    using m unfolding delivers_def by blast
  show ?thesis
  proof (cases r)
    case (Inl e)
    then show ?thesis using r unfolding delivers_def
      by (intro exI [of _ "Inl e"] exI [of _ s'] exI [of _ cs]) (simp add: ebind_def)
  next
    case (Inr a)
    then have "delivers N (f a) s' w (\<lambda>b s'' ds. Q b s'' (cs @ ds))" using f r(2,5) by simp
    then obtain q s'' ds where q: "f a s' = Some (q, s'')" "same_stream s' s''" "delivered s'' = delivered s' @ map (map_prod id Some) ds"
      "list_all (\<lambda>(b, c). length b \<le> MAX_UDP_PAYLOAD) ds"
      "case q of Inl e \<Rightarrow> refused N e \<and> prefix (chunk_points ds) w | Inr b \<Rightarrow> chunk_points ds = w \<and> Q b s'' (cs @ ds)"
      unfolding delivers_def by blast
    moreover have "same_stream s s''" using same_stream_trans [OF r(2) q(2)] .
    ultimately show ?thesis using r Inr unfolding delivers_def
      by (intro exI [of _ q] exI [of _ s''] exI [of _ "cs @ ds"]) (cases q; simp add: ebind_def)
  qed
qed

lemma delivers_split:
  assumes "want = v @ w" "delivers N m s v Q1"
    "\<And>a s' cs. Q1 a s' cs \<Longrightarrow> same_stream s s' \<Longrightarrow> delivers N (f a) s' w (\<lambda>b s'' ds. Q b s'' (cs @ ds))"
  shows "delivers N (ebind m f) s want Q"
  unfolding assms(1) using assms(2,3) by (rule delivers_ebind)

lemma delivers_ethen:
  assumes "delivers N m s v Q1" "\<And>s' cs. Q1 () s' cs \<Longrightarrow> same_stream s s' \<Longrightarrow> delivers N k s' w (\<lambda>b s'' ds. Q b s'' (cs @ ds))"
  shows "delivers N (ethen m k) s (v @ w) Q"
  unfolding ethen_def by (rule delivers_ebind [OF assms(1)]) (use assms(2) in auto)

lemma delivers_silent:
  assumes "m s = k s'" "same_stream s s'" "delivered s' = delivered s" "delivers N k s' w Q"
  shows "delivers N m s w Q"
proof -
  obtain r s2 cs where "k s' = Some (r, s2)" "same_stream s' s2" "delivered s2 = delivered s' @ map (map_prod id Some) cs"
    "list_all (\<lambda>(b, c). length b \<le> MAX_UDP_PAYLOAD) cs"
    "case r of Inl e \<Rightarrow> refused N e \<and> prefix (chunk_points cs) w | Inr a \<Rightarrow> chunk_points cs = w \<and> Q a s2 cs"
    using assms(4) unfolding delivers_def by blast
  then show ?thesis using assms(1,3) same_stream_trans [OF assms(2)] unfolding delivers_def
    by (intro exI [of _ r] exI [of _ s2] exI [of _ cs]) simp
qed

lemma delivers_eret: "Q a s [] \<Longrightarrow> delivers N (eret a) s [] Q"
  unfolding delivers_def by (intro exI [of _ "Inr a"] exI [of _ s] exI [of _ "[]"]) (simp add: eret_def)

lemma delivers_emod:
  "same_stream s (h s) \<Longrightarrow> delivered (h s) = delivered s \<Longrightarrow> Q () (h s) [] \<Longrightarrow> delivers N (emod h) s [] Q"
  unfolding delivers_def by (intro exI [of _ "Inr ()"] exI [of _ "h s"] exI [of _ "[]"]) (simp add: emod_def)

lemma delivers_post:
  assumes m: "delivers N m s w Q" and Q: "\<And>a s' cs. Q a s' cs \<Longrightarrow> Q' a s' cs"
  shows "delivers N m s w Q'"
proof -
  have "(case r of Inl e \<Rightarrow> refused N e \<and> prefix (chunk_points cs) w | Inr a \<Rightarrow> chunk_points cs = w \<and> Q a s' cs) \<Longrightarrow>
    (case r of Inl e \<Rightarrow> refused N e \<and> prefix (chunk_points cs) w | Inr a \<Rightarrow> chunk_points cs = w \<and> Q' a s' cs)" for r s' cs
    using Q by (cases r) simp_all
  then show ?thesis using m unfolding delivers_def by blast
qed

lemma delivers_then_emod:
  assumes m: "delivers N m s w (\<lambda>_ s' cs. Q x (g s') cs)" and g: "\<And>s'. same_stream s' (g s')" "\<And>s'. delivered (g s') = delivered s'"
  shows "delivers N (ethen m (ethen (emod g) (eret x))) s w Q"
proof -
  have "delivers N (ethen m (ethen (emod g) (eret x))) s (w @ []) Q"
  proof (rule delivers_ethen [OF m])
    fix s' cs assume "Q x (g s') cs"
    then show "delivers N (ethen (emod g) (eret x)) s' [] (\<lambda>b s'' ds. Q b s'' (cs @ ds))"
      using g by (intro delivers_silent [of _ s' "eret x" "g s'"] delivers_eret) (simp_all add: ethen_def ebind_def emod_def)
  qed
  then show ?thesis by simp
qed

lemma ethen_unit: "ethen (emod g) (eret ()) = emod g"
  by (rule ext) (simp add: ethen_def ebind_def emod_def eret_def)

lemmas delivers_emod_after = delivers_then_emod [where x = "()", unfolded ethen_unit]

subsection \<open>Sending a packet\<close>

lemma delivers_now:
  assumes "\<And>t w. delivers N (f t) (s\<lparr>is_world := (w, snd (is_world s))\<rparr>) want Q"
  shows "delivers N (ebind (idn_now (loopback src N)) f) s want Q"
proof (cases "in_now N (fst (is_world s))")
  case (Pair t w)
  have "ebind (idn_now (loopback src N)) f s = f t (s\<lparr>is_world := (w, snd (is_world s))\<rparr>)"
    using Pair by (simp add: ebind_def idn_now_def estep_def loopback_def case_prod_beta Let_def)
  then show ?thesis by (rule delivers_silent) (simp_all add: same_stream_def delivered_def assms)
qed

lemma delivers_eget: "delivers N (f (g s)) s want Q \<Longrightarrow> delivers N (ebind (eget g) f) s want Q"
  by (rule delivers_silent [of _ s "f (g s)" s]) (simp_all add: ebind_def eget_def)

lemma delivers_estep:
  assumes "h s = (a, s')" "same_stream s s'" "delivered s' = delivered s" "delivers N (f a) s' want Q"
  shows "delivers N (ebind (estep h) f) s want Q"
  using assms by (intro delivers_silent [of _ s "f a" s']) (simp_all add: ebind_def estep_def)

text \<open>A packet the receiver turns into a chunk.\<close>

lemma delivers_send:
  assumes got: "parse_frame_data (rx s) src pkt = (Some c, R)" and len: "length pkt \<le> MAX_UDP_PAYLOAD"
    and Q: "\<And>w. Q () (s\<lparr>is_world := (w, R, delivered s @ [(pkt, Some c)])\<rparr>) [(pkt, c)]"
  shows "delivers N (idn_send (loopback src N) pkt) s (pc_points c) Q"
proof -
  obtain x w' where send: "in_send N pkt (fst (is_world s)) = (x, w')" by fastforce
  obtain w r g where w: "is_world s = (w, r, g)" by (cases "is_world s")
  let ?s = "s\<lparr>is_world := (w', R, delivered s @ [(pkt, Some c)])\<rparr>"
  show ?thesis
  proof (cases x)
    case (Inl e)
    have "refused N (IdnIo e)" using send Inl unfolding refused_def by (intro exI [of _ e] exI [of _ pkt] exI [of _ "fst (is_world s)"]) simp
    moreover have "idn_send (loopback src N) pkt s = Some (Inl (IdnIo e), s\<lparr>is_world := (w', r, g)\<rparr>)"
      using send Inl w by (simp add: idn_send_def ebind_def idn_io_def loopback_def)
    ultimately show ?thesis unfolding delivers_def using w
      by (intro exI [of _ "Inl (IdnIo e)"] exI [of _ "s\<lparr>is_world := (w', r, g)\<rparr>"] exI [of _ "[]"]) (simp add: same_stream_def delivered_def)
  next
    case (Inr n)
    have "idn_send (loopback src N) pkt s = Some (Inr (), ?s)"
      using send Inr w got by (simp add: idn_send_def ebind_def idn_io_def loopback_def eret_def rx_def delivered_def)
    then show ?thesis unfolding delivers_def using Q [of w'] len
      by (intro exI [of _ "Inr ()"] exI [of _ ?s] exI [of _ "[(pkt, c)]"]) (simp add: same_stream_def delivered_def)
  qed
qed

subsection \<open>Waves\<close>

text \<open>The chunks cover the time from \<open>a\<close> to \<open>b\<close> in microseconds without a gap, a duration saturating at its 24 bits.\<close>

fun gapless :: "nat \<Rightarrow> (u8 list \<times> parsed_chunk) list \<Rightarrow> nat \<Rightarrow> bool" where
  "gapless a [] b = (a = b)"
| "gapless a ((_, c) # cs) b = (pc_timestamp c = of_nat a \<and>
     (\<exists>e. a \<le> e \<and> pc_duration_us c = of_nat (min (e - a) 0x00FFFFFF) \<and> gapless e cs b))"

lemma gapless_append: "gapless a cs b \<Longrightarrow> gapless b ds c \<Longrightarrow> gapless a (cs @ ds) c"
  by (induction a cs b rule: gapless.induct) auto

lemma duration_fits: "d \<le> 0x00FFFFFF \<Longrightarrow> (of_nat d :: u32) AND 0x00FFFFFF = of_nat d"
proof -
  assume "d \<le> 0x00FFFFFF"
  then have "unat (take_bit 24 (of_nat d :: u32)) = unat (of_nat d :: u32)"
    by (simp add: unsigned_take_bit_eq unsigned_of_nat take_bit_nat_eq_self)
  then have "take_bit 24 (of_nat d :: u32) = of_nat d" by (rule unsigned_word_eqI)
  moreover have "(0x00FFFFFF :: u32) = mask 24" by (simp add: mask_eq_exp_minus_1)
  ultimately show ?thesis by (simp only: take_bit_eq_mask)
qed

lemma timestamp_mono: "m \<le> n \<Longrightarrow> timestamp_after s m \<le> timestamp_after s n"
  by (simp add: timestamp_after_def div_le_mono)

lemma next_count_le:
  assumes "0 < m" "0 < n"
  shows "next_count m n \<le> m" "next_count m n \<le> n"
proof -
  have pos: "0 < div_ceil n m" using div_ceil_le_iff [of m n 0] assms by (cases "div_ceil n m") auto
  have "n \<le> m * div_ceil n m" using le_div_ceil_mult [OF assms(1), of n] by (simp add: mult.commute)
  then have "n div div_ceil n m \<le> (m * div_ceil n m) div div_ceil n m" by (rule div_le_mono)
  then show "next_count m n \<le> m" "next_count m n \<le> n" using pos by (simp_all add: next_count_def)
qed

text \<open>What the fields a packet changes leave as it was.\<close>

lemma stream_upd [simp]:
  "stream_channel (s\<lparr>is_world := w\<rparr>) = stream_channel s" "stream_channel (s\<lparr>is_sequence := q\<rparr>) = stream_channel s"
  "stream_channel (data_sent t n d s) = stream_channel s" "stream_channel (s\<lparr>is_frame_count := c\<rparr>) = stream_channel s"
  "stream_state (s\<lparr>is_world := w\<rparr>) = stream_state s" "stream_state (s\<lparr>is_sequence := q\<rparr>) = stream_state s"
  "stream_state (data_sent t n d s) = stream_state s" "stream_state (s\<lparr>is_frame_count := c\<rparr>) = stream_state s"
  "sdm_flags (s\<lparr>is_world := w\<rparr>) = sdm_flags s" "sdm_flags (s\<lparr>is_sequence := q\<rparr>) = sdm_flags s"
  by (simp_all add: stream_channel_def stream_state_def sdm_flags_def data_sent_def)

lemma world_upd [simp]:
  "rx (s\<lparr>is_sequence := q\<rparr>) = rx s" "rx (s\<lparr>is_world := (w, snd (is_world s))\<rparr>) = rx s"
  "rx (s\<lparr>is_sequence := q, is_world := (w, snd (is_world s))\<rparr>) = rx s"
  "rx (data_sent t n d s) = rx s" "rx (s\<lparr>is_frame_count := c\<rparr>) = rx s"
  "delivered (s\<lparr>is_sequence := q\<rparr>) = delivered s" "delivered (s\<lparr>is_world := (w, snd (is_world s))\<rparr>) = delivered s"
  "delivered (data_sent t n d s) = delivered s" "delivered (s\<lparr>is_frame_count := c\<rparr>) = delivered s"
  by (simp_all add: rx_def delivered_def data_sent_def)

lemma settings_upd [simp]:
  "is_frame_mode (data_sent t n d s) = is_frame_mode s" "is_point_format (data_sent t n d s) = is_point_format s"
  "is_previous_format (data_sent t n d s) = is_previous_format s" "is_service_id (data_sent t n d s) = is_service_id s"
  by (simp_all add: data_sent_def)

lemma announce_upd [simp]:
  "stream_channel (s\<lparr>is_last_config_time := x, is_previous_format := y\<rparr>) = stream_channel s"
  "stream_state (s\<lparr>is_last_config_time := x, is_previous_format := y\<rparr>) = stream_state s"
  "sdm_flags (s\<lparr>is_last_config_time := x, is_previous_format := y\<rparr>) = sdm_flags s"
  "rx (s\<lparr>is_last_config_time := x, is_previous_format := y\<rparr>) = rx s"
  "delivered (s\<lparr>is_last_config_time := x, is_previous_format := y\<rparr>) = delivered s"
  "current_timestamp_us (s\<lparr>is_last_config_time := x, is_previous_format := y\<rparr>) = current_timestamp_us s"
  "timestamp_after (s\<lparr>is_last_config_time := x, is_previous_format := y\<rparr>) n = timestamp_after s n"
  by (simp_all add: stream_channel_def stream_state_def sdm_flags_def rx_def delivered_def current_timestamp_us_def timestamp_after_def)

lemma ebind_assoc: "ebind (ebind m f) g = ebind m (\<lambda>a. ebind (f a) g)"
proof (rule ext)
  fix s show "ebind (ebind m f) g s = ebind m (\<lambda>a. ebind (f a) g) s"
  proof (cases "m s")
    case (Some p)
    then show ?thesis by (cases p; cases "fst p"; simp add: ebind_def)
  qed (simp add: ebind_def)
qed

text \<open>The optional configuration of a packet.\<close>

lemma delivers_config:
  assumes "needs \<Longrightarrow> delivers N (f (config_bytes service (sdm_flags s) (is_frame_mode s) (is_point_format s)))
      (s\<lparr>is_last_config_time := Some t, is_previous_format := Some (is_point_format s)\<rparr>) want Q"
    and "\<not> needs \<Longrightarrow> delivers N (f []) s want Q"
  shows "delivers N (ebind (if needs then write_config service t else eret []) f) s want Q"
proof (cases needs)
  case True
  have mode: "(case m of Wave \<Rightarrow> IDNVAL_SMOD_LPGRF_CONTINUOUS | FrameMode \<Rightarrow> IDNVAL_SMOD_LPGRF_DISCRETE) = service_mode m" for m by (cases m) simp_all
  have be: "be16 = (\<lambda>d. [ucast (drop_bit 8 d), ucast d])" by (rule ext) (simp add: be16_def)
  have wc: "write_config service t = estep (\<lambda>s. (config_bytes service (sdm_flags s) (is_frame_mode s) (is_point_format s),
      s\<lparr>is_last_config_time := Some t, is_previous_format := Some (is_point_format s)\<rparr>))"
    unfolding write_config_def config_bytes_def mode be append.assoc ..
  have "delivers N (ebind (write_config service t) f) s want Q" unfolding wc
  proof (rule delivers_estep [OF refl])
    show "delivers N (f (config_bytes service (sdm_flags s) (is_frame_mode s) (is_point_format s)))
      (s\<lparr>is_last_config_time := Some t, is_previous_format := Some (is_point_format s)\<rparr>) want Q" using assms(1) True .
  qed (simp_all add: same_stream_def)
  then show ?thesis using True by simp
next
  case False
  then show ?thesis using assms(2) by - (rule delivers_silent [of _ s "f []" s], simp_all add: ebind_def eret_def)
qed

lemma config_size_le: "config_size f \<le> 44"
  by (cases f) (simp_all add: config_size_def idn_sizes XYRGBI_def XYRGB_HIGHRES_def EXTENDED_def)

definition ready :: "'a \<Rightarrow> ('w, 'a) linked \<Rightarrow> bool" where
  "ready src s \<longleftrightarrow> (is_previous_format s = Some (is_point_format s) \<longrightarrow> configured src s)"

lemmas stream_view = live_def configured_def same_stream_def

lemma current_timestamp_upd [simp]:
  "current_timestamp_us (s\<lparr>is_world := w\<rparr>) = current_timestamp_us s"
  "current_timestamp_us (data_sent t n d s) = timestamp_after s n"
  "current_timestamp_us (s\<lparr>is_frame_count := c\<rparr>) = current_timestamp_us s"
  "timestamp_after (s\<lparr>is_world := w\<rparr>) n = timestamp_after s n"
  "timestamp_after (s\<lparr>is_sequence := q\<rparr>) n = timestamp_after s n"
  by (simp_all add: current_timestamp_us_def timestamp_after_def data_sent_def)

text \<open>The receiver is configured and got wave chunks that start at \<open>a\<close> and end at the sender's present time.\<close>

definition waves :: "'a \<Rightarrow> nat \<Rightarrow> ('w, 'a) linked \<Rightarrow> (u8 list \<times> parsed_chunk) list \<Rightarrow> bool" where
  "waves src a s cs \<longleftrightarrow> live src s \<and> gapless a cs (current_timestamp_us s) \<and> list_all (\<lambda>(b, c). pc_chunk_type c = CtWave) cs"

lemma waves_append: "waves src a s cs \<Longrightarrow> waves src (current_timestamp_us s) s' ds \<Longrightarrow> waves src a s' (cs @ ds)"
  by (auto simp: waves_def intro: gapless_append)

context idn_point
begin

lemma packet_delivers:
  assumes fmt: "is_point_format s = fmt" "is_previous_format s = Some fmt"
    and m: "cm_content_id m = content (stream_channel s) f k" "cm_total_size m = of_nat (8 + length body)" "12 + length body \<le> MAX_UDP_PAYLOAD"
    and body: "body = cfg @ hdr @ po_encode_batch P ps"
    and cfg: "if f \<and> k < 0xC0 then cfg = config_bytes service (sdm_flags s) (is_frame_mode s) fmt else cfg = [] \<and> configured src s"
    and accepts: "service_mode_accepts_chunk (service_mode (is_frame_mode s)) (chunk_type_from_byte k)"
    and hdr: "hdr = (if chunk_type_from_byte k = CtFrameSequel then [] else write_sample_chunk (chunk_header_new (sdm_flags s) d))"
    and Q: "\<And>w b. live src (s\<lparr>is_world := w\<rparr>) \<Longrightarrow> Q () (s\<lparr>is_world := w\<rparr>)
      [(b, chunk_of (packet_metadata h m (stream_channel s) f k) (if chunk_type_from_byte k = CtFrameSequel then 0 else d AND 0x00FFFFFF)
        (receiver_format fmt) (map recv ps))]"
  shows "delivers N (idn_send (loopback src N) (write_packet_header h @ write_channel_message m @ body)) s (map recv ps) Q"
proof -
  let ?c = "chunk_of (packet_metadata h m (stream_channel s) f k) (if chunk_type_from_byte k = CtFrameSequel then 0 else d AND 0x00FFFFFF)
    (receiver_format fmt) (map recv ps)"
  have size: "unat (cm_total_size m) = 8 + length body" "length body \<le> 0xFEF8"
    unfolding m(2) unat_of_nat using m(3) by (simp_all add: MAX_UDP_PAYLOAD_def)
  have cfg': "if f \<and> k < 0xC0 then cfg = config_bytes service (sdm_flags s) (is_frame_mode s) fmt
     else cfg = [] \<and> rx s (src, stream_channel s AND 0x3F) = Some (stream_state s)"
    using cfg unfolding configured_def .
  have st: "stream_state s = \<lparr>cs_format = receiver_format fmt, cs_service_data_match = sdm_flags s, cs_service_mode = service_mode (is_frame_mode s)\<rparr>"
    using fmt by (simp add: stream_state_def)
  have got: "parse_frame_data (rx s) src (write_packet_header h @ write_channel_message m @ body) =
     (Some ?c, (rx s)((src, stream_channel s AND 0x3F) \<mapsto> stream_state s))"
    by (rule packet_received [where R = "rx s" and src = src, OF m(1) size body st sdm_cases cfg' accepts hdr])
  have "delivers N (idn_send (loopback src N) (write_packet_header h @ write_channel_message m @ body)) s (pc_points ?c) Q"
  proof (rule delivers_send [OF got])
    show "length (write_packet_header h @ write_channel_message m @ body) \<le> MAX_UDP_PAYLOAD" using m(3) by (simp add: idn_writes)
    show "Q () (s\<lparr>is_world := (w, (rx s)((src, stream_channel s AND 0x3F) \<mapsto> stream_state s),
        delivered s @ [(write_packet_header h @ write_channel_message m @ body, Some ?c)])\<rparr>)
      [(write_packet_header h @ write_channel_message m @ body, ?c)]" for w
      by (rule Q) (use fmt in \<open>simp add: live_def configured_def rx_def stream_channel_def stream_state_def sdm_flags_def\<close>)
  qed
  then show ?thesis by (simp add: chunk_of_def)
qed

lemma continuation_delivers:
  assumes live: "live src s" and fmt: "is_point_format s = fmt" and mode: "is_frame_mode s = Wave"
    and n: "n \<le> length points" "n \<le> max_continuation P"
  shows "delivers N (send_continuation (loopback src N) P points n) s (map recv (take n points))
    (\<lambda>_ s' cs. waves src (current_timestamp_us s) s' cs)"
proof -
  let ?after = "is_points_since_anchor s + n"
  let ?d = "chunk_duration_us (current_timestamp_us s) (timestamp_after s ?after)"
  have size: "12 + (4 + n * po_size_bytes P) \<le> MAX_UDP_PAYLOAD"
    using n(2) size_pos(1) by (simp add: max_continuation_def idn_sizes MAX_UDP_PAYLOAD_def less_eq_div_iff_mult_less_eq)
  have mono: "current_timestamp_us s \<le> timestamp_after s ?after" by (simp add: current_timestamp_us_def timestamp_mono)
  have wave: "chunk_type_from_byte IDNVAL_CNKTYPE_LPGRF_WAVE = CtWave" by (simp add: chunk_type_from_byte_def idn_consts)
  show ?thesis
    unfolding send_continuation_def
    apply (rule delivers_eget)
    apply (simp only: id_apply Let_def content_assembled(2) next_sequence_def)
    apply (rule delivers_estep [OF refl])
      apply (simp add: same_stream_def)
     apply (simp add: delivered_def)
    apply (rule delivers_now)
    apply (rule delivers_emod_after)
      apply (rule packet_delivers [where cfg = "[]" and f = False and k = IDNVAL_CNKTYPE_LPGRF_WAVE and d = "of_nat ?d" and service = 0 and ps = "take n points"])
    using fmt live size n mono
    by (simp_all add: stream_view waves_def mode idn_chunk_type_def wave duration_fits idn_sizes idn_writes encoded_length service_mode_accepts_chunk_def
        chunk_of_def packet_metadata_def chunk_duration_us_def)
qed

lemma capacity_pos: "0 < max_continuation P"
  using size_pos by (simp add: max_continuation_def idn_sizes MAX_UDP_PAYLOAD_def div_greater_zero_iff)

lemma continuations_deliver:
  assumes "live src s" "is_point_format s = fmt" "is_frame_mode s = Wave"
  shows "delivers N (write_frame_continuation (loopback src N) P points) s (map recv points)
    (\<lambda>_ s' cs. waves src (current_timestamp_us s) s' cs)"
  using assms
proof (induction "length points" arbitrary: points s rule: less_induct)
  case less
  show ?case
  proof (cases "points = []")
    case True
    then show ?thesis using less.prems
      by (subst write_frame_continuation.simps) (simp, rule delivers_eret, simp add: waves_def)
  next
    case False
    let ?n = "next_count (max_continuation P) (length points)"
    have n: "0 < ?n" "?n \<le> length points" "?n \<le> max_continuation P"
      using next_count_pos next_count_le capacity_pos False by simp_all
    have "delivers N (ethen (send_continuation (loopback src N) P points ?n)
        (if ?n < length points then write_frame_continuation (loopback src N) P (drop ?n points) else eret ())) s
        (map recv (take ?n points) @ map recv (drop ?n points))
      (\<lambda>_ s' cs. waves src (current_timestamp_us s) s' cs)"
    proof (rule delivers_ethen [OF continuation_delivers [OF less.prems n(2,3)]])
      fix s' cs assume a: "waves src (current_timestamp_us s) s' cs"
        and same: "same_stream s s'"
      show "delivers N (if ?n < length points then write_frame_continuation (loopback src N) P (drop ?n points) else eret ()) s'
        (map recv (drop ?n points)) (\<lambda>_ s'' ds. waves src (current_timestamp_us s) s'' (cs @ ds))"
      proof (cases "?n < length points")
        case True
        have "delivers N (write_frame_continuation (loopback src N) P (drop ?n points)) s' (map recv (drop ?n points))
          (\<lambda>_ s'' ds. waves src (current_timestamp_us s') s'' ds)"
          by (rule less.hyps) (use True n(1) a same less.prems in \<open>simp_all add: same_stream_def waves_def\<close>)
        then show ?thesis using True a by simp (erule delivers_post, rule waves_append)
      next
        case False
        then show ?thesis using a by simp (rule delivers_eret, simp)
      qed
    qed
    then show ?thesis using False capacity_pos
      by (subst write_frame_continuation.simps) (simp add: Let_def flip: map_append)
  qed
qed

lemma first_packet_at:
  fixes s :: "('w, 'a) linked"
  defines "needs t \<equiv> needs_config (is_frame_count s) (is_previous_format s) (is_point_format s) (is_last_config_time s) t"
  defines "config t \<equiv> (if needs t then config_size (is_point_format s) else 0)"
  defines "dur n \<equiv> chunk_duration_us (current_timestamp_us s) (timestamp_after s (is_points_since_anchor s + n))"
  defines "pa n \<equiv> is_points_since_anchor s + n"
  assumes ready: "ready src s" and fmt: "is_point_format s = fmt" and mode: "is_frame_mode s = Wave"
    and n: "n \<le> length points" "16 + config t + n * po_size_bytes P \<le> MAX_UDP_PAYLOAD"
  shows "delivers N (ebind next_sequence (\<lambda>seq. ebind (if needs t then write_config (is_service_id s) t else eret []) (\<lambda>cfg.
      ethen (idn_send (loopback src N) (write_packet_header \<lparr>ph_command = command, ph_flags = is_client_group s, ph_sequence = seq\<rparr> @
         write_channel_message \<lparr>cm_total_size = of_nat (CHANNEL_MESSAGE_SIZE + config t + SAMPLE_CHUNK_SIZE + n * po_size_bytes P),
           cm_content_id = (IDNFLG_CONTENTID_CHANNELMSG OR channel_id s OR (if needs t then IDNFLG_CONTENTID_CONFIG_LSTFRG else 0)) OR
             ucast (idn_chunk_type s True only), cm_timestamp = of_nat (current_timestamp_us s)\<rparr> @
         cfg @ write_sample_chunk (chunk_header_new (sdm_flags s) (of_nat (dur n))) @ po_encode_batch P (take n points)))
      (ethen (emod (\<lambda>s. (data_sent t (pa n) (dur n) s)\<lparr>is_frame_count := is_frame_count s + 1\<rparr>)) (eret (seq, n))))))
    s (map recv (take n points)) (\<lambda>(seq, k) s' cs. k = n \<and> waves src (current_timestamp_us s) s' cs)"
proof -
  have wave: "chunk_type_from_byte IDNVAL_CNKTYPE_LPGRF_WAVE = CtWave" "IDNVAL_CNKTYPE_LPGRF_WAVE < 0xC0" "idn_chunk_type s True only = IDNVAL_CNKTYPE_LPGRF_WAVE"
    by (simp_all add: chunk_type_from_byte_def idn_consts idn_chunk_type_def mode)
  have live: "configured src s" "is_previous_format s = Some fmt" if "\<not> needs t"
    using that ready fmt by (simp_all add: needs_def needs_config_def ready_def)
  have mono: "current_timestamp_us s \<le> timestamp_after s (is_points_since_anchor s + n)" by (simp add: current_timestamp_us_def timestamp_mono)
  show ?thesis
    unfolding content_assembled(1) next_sequence_def wave(3)
    apply (rule delivers_estep [OF refl])
      apply (simp add: same_stream_def)
     apply simp
    apply (rule delivers_config; rule delivers_then_emod; (rule packet_delivers [where f = "needs t" and k = IDNVAL_CNKTYPE_LPGRF_WAVE and
        d = "of_nat (dur n)" and service = "is_service_id s" and ps = "take n points"])?)
    using fmt live n mono
    by (simp_all add: stream_view waves_def mode wave duration_fits idn_sizes idn_writes encoded_length service_mode_accepts_chunk_def
        config_def config_bytes_length chunk_of_def packet_metadata_def chunk_duration_us_def dur_def pa_def)
qed

lemma first_packet_delivers:
  assumes ready: "ready src s" and fmt: "is_point_format s = fmt" and mode: "is_frame_mode s = Wave" and points: "points \<noteq> []"
    and f: "\<And>seq n s' cs. waves src (current_timestamp_us s) s' cs \<Longrightarrow> same_stream s s' \<Longrightarrow> n \<le> length points \<Longrightarrow>
      delivers N (f (seq, n)) s' (map recv (drop n points)) (\<lambda>b s'' ds. Q b s'' (cs @ ds))"
  shows "delivers N (ebind (build_and_send_first_packet (loopback src N) P points command) f) s (map recv points) Q"
  unfolding build_and_send_first_packet_def ebind_assoc
  apply (rule delivers_now)
  apply (rule delivers_eget)
  subgoal for t w
proof -
  define s1 where "s1 = s\<lparr>is_world := (w, snd (is_world s))\<rparr>"
  define config where "config = (if needs_config (is_frame_count s1) (is_previous_format s1) (is_point_format s1) (is_last_config_time s1) t
    then config_size (is_point_format s1) else 0)"
  let ?max = "(MAX_UDP_PAYLOAD - (PACKET_HEADER_SIZE + CHANNEL_MESSAGE_SIZE + config + SAMPLE_CHUNK_SIZE)) div po_size_bytes P"
  let ?n = "next_count ?max (length points)"
  have s1: "ready src s1" "is_point_format s1 = fmt" "is_frame_mode s1 = Wave" "current_timestamp_us s1 = current_timestamp_us s" "same_stream s s1"
    using ready fmt mode by (simp_all add: s1_def ready_def configured_def same_stream_def)
  have "config \<le> 44" by (simp add: config_def config_size_le)
  then have max: "0 < ?max" using size_pos by (simp add: idn_sizes MAX_UDP_PAYLOAD_def div_greater_zero_iff)
  have num: "0 < div_ceil (length points) ?max"
    using div_ceil_le_iff [OF max, of "length points" 0] points by (cases "div_ceil (length points) ?max") auto
  have n: "?n \<le> ?max" "?n \<le> length points" using next_count_le [OF max] points by simp_all
  have "?n * po_size_bytes P \<le> MAX_UDP_PAYLOAD - (PACKET_HEADER_SIZE + CHANNEL_MESSAGE_SIZE + config + SAMPLE_CHUNK_SIZE)"
    using n(1) size_pos(1) by (simp add: less_eq_div_iff_mult_less_eq)
  then have size: "16 + config + ?n * po_size_bytes P \<le> MAX_UDP_PAYLOAD"
    using \<open>config \<le> 44\<close> by (simp add: idn_sizes MAX_UDP_PAYLOAD_def)
  note at = first_packet_at [OF s1(1,2,3) n(2), of t, folded config_def, OF size]
  show ?thesis
    apply (fold s1_def)
    apply (simp only: Let_def id_apply)
    apply (fold config_def next_count_def)
    apply (subst if_not_P)
     apply (use max num in simp)
    apply (rule delivers_split [where w = "map recv (drop ?n points)", OF _ at])
     apply (simp flip: map_append)
    apply (use f same_stream_trans [OF s1(5)] n(2) in \<open>clarsimp simp: s1(4)\<close>)
    done
qed
  done

lemma wave_delivers:
  assumes "ready src s" "is_point_format s = fmt" "is_frame_mode s = Wave" "points \<noteq> []"
  shows "delivers N (ebind (build_and_send_first_packet (loopback src N) P points command) (\<lambda>(seq, n).
      if n < length points then write_frame_continuation (loopback src N) P (drop n points) else eret ())) s (map recv points)
    (\<lambda>_ s' cs. waves src (current_timestamp_us s) s' cs)"
proof (rule first_packet_delivers [OF assms])
  fix seq :: u16 and n s' cs
  assume a: "waves src (current_timestamp_us s) s' cs" and same: "same_stream s s'" and n: "n \<le> length points"
  have s': "live src s'" "is_point_format s' = fmt" "is_frame_mode s' = Wave" using a same assms by (simp_all add: waves_def same_stream_def)
  show "delivers N (case (seq, n) of (seq, n) \<Rightarrow> if n < length points then write_frame_continuation (loopback src N) P (drop n points) else eret ())
     s' (map recv (drop n points)) (\<lambda>_ s'' ds. waves src (current_timestamp_us s) s'' (cs @ ds))"
  proof (cases "n < length points")
    case True
    then show ?thesis by simp (rule delivers_post [OF continuations_deliver [OF s'] waves_append [OF a]])
  next
    case False
    then show ?thesis using a n by simp (rule delivers_eret, simp)
  qed
qed

end

end
