(* ===== verification/Idn_Frames.thy ===== *)
theory Idn_Frames
  imports Idn_Delivery
begin

text \<open>
  Frames in discrete mode over the loopback network, and the theorem that every frame written, in
  either mode, is received as it was sent.
\<close>

subsection \<open>Fragments\<close>

lemma frame_kinds:
  "chunk_type_from_byte IDNVAL_CNKTYPE_LPGRF_FRAME = CtFrame" "chunk_type_from_byte IDNVAL_CNKTYPE_LPGRF_FRAME_FIRST = CtFrameFirst"
  "chunk_type_from_byte IDNVAL_CNKTYPE_LPGRF_FRAME_SEQUEL = CtFrameSequel" "IDNVAL_CNKTYPE_LPGRF_FRAME < 0xC0"
  "IDNVAL_CNKTYPE_LPGRF_FRAME_FIRST < 0xC0" "\<not> IDNVAL_CNKTYPE_LPGRF_FRAME_SEQUEL < 0xC0"
  by (simp_all add: chunk_type_from_byte_def idn_consts)

definition frame_ends :: "(u8 list \<times> parsed_chunk) list \<Rightarrow> bool list" where
  "frame_ends cs = map (\<lambda>(b, c). pc_is_last_fragment c) cs"

lemma frame_ends_simps [simp]: "frame_ends [] = []" "frame_ends ((b, c) # cs) = pc_is_last_fragment c # frame_ends cs"
  "frame_ends (cs @ ds) = frame_ends cs @ frame_ends ds"
  by (simp_all add: frame_ends_def)

context idn_point
begin

lemma fragment_delivers:
  assumes index: "index < num" and fmt: "is_point_format s = fmt" and mode: "is_frame_mode s = FrameMode"
    and live: "\<not> (needs \<and> index = 0) \<Longrightarrow> live src s"
    and size: "16 + (if needs then config_size fmt else 0) + length ps * po_size_bytes P \<le> MAX_UDP_PAYLOAD"
  shows "delivers N (send_frame_fragment (loopback src N) P ps index num needs ts d t command) s (map recv ps)
    (\<lambda>_ s' cs. live src s' \<and> frame_ends cs = [index = num - 1])"
proof -
  define k where "k = (if num = 1 then IDNVAL_CNKTYPE_LPGRF_FRAME
    else if index = 0 then IDNVAL_CNKTYPE_LPGRF_FRAME_FIRST else IDNVAL_CNKTYPE_LPGRF_FRAME_SEQUEL)"
  define f where "f = (needs \<and> index = 0 \<or> index = num - 1 \<and> num \<noteq> 1)"
  have kf: "f \<and> k < 0xC0 \<longleftrightarrow> needs \<and> index = 0" "chunk_type_from_byte k = CtFrameSequel \<longleftrightarrow> index \<noteq> 0"
    "service_mode_accepts_chunk IDNVAL_SMOD_LPGRF_DISCRETE (chunk_type_from_byte k)"
    "(case chunk_type_from_byte k of CtFrame \<Rightarrow> True | CtFrameSequel \<Rightarrow> f | _ \<Rightarrow> False) \<longleftrightarrow> index = num - 1"
    using index by (auto simp: k_def f_def frame_kinds service_mode_accepts_chunk_def)
  show ?thesis
    unfolding send_frame_fragment_def
    apply (rule delivers_eget)
    apply (simp only: id_apply Let_def content_assembled(3) next_sequence_def)
    apply (fold k_def f_def)
    apply (rule delivers_estep [OF refl])
      apply (simp add: same_stream_def)
     apply simp
    apply (rule delivers_config; rule packet_delivers [where f = f and k = k and d = "of_nat d" and
        hdr = "if index = 0 then write_sample_chunk (chunk_header_new (sdm_flags s) (of_nat d)) else []" and
        service = "is_service_id s" and ps = ps])
    using fmt live size
    by (simp_all add: stream_view mode kf idn_sizes idn_writes encoded_length config_bytes_length chunk_of_def packet_metadata_def split: if_splits)
qed

lemma fragments_deliver:
  assumes "k \<le> num" "is_point_format s = fmt" "is_frame_mode s = FrameMode" "\<not> (needs \<and> k = num) \<Longrightarrow> live src s"
    and "length points = k * base + (extra - (num - k))" "extra \<le> num"
    and size: "16 + (if needs then config_size fmt else 0) + (base + (if 0 < extra then 1 else 0)) * po_size_bytes P \<le> MAX_UDP_PAYLOAD"
  shows "delivers N (send_fragments (loopback src N) P num needs ts d t command base extra k points) s (map recv points)
    (\<lambda>_ s' cs. (0 < k \<longrightarrow> live src s') \<and> frame_ends cs = (if k = 0 then [] else replicate (k - 1) False @ [True]))"
  using assms(1-6)
proof (induction k arbitrary: s points)
  case 0
  then show ?case by simp (rule delivers_eret, simp)
next
  case (Suc k)
  let ?i = "num - Suc k"
  let ?count = "base + (if ?i < extra then 1 else 0)"
  have i: "?i < num" "num - k = Suc ?i" "?i = 0 \<longleftrightarrow> Suc k = num" "?i = num - 1 \<longleftrightarrow> k = 0" using Suc.prems(1) by auto
  have len: "?count \<le> length points" "length (drop ?count points) = k * base + (extra - (num - k))"
    using Suc.prems(5) unfolding i(2) by auto
  have "?count * po_size_bytes P \<le> (base + (if 0 < extra then 1 else 0)) * po_size_bytes P" by (intro mult_right_mono) auto
  then have size': "16 + (if needs then config_size fmt else 0) + length (take ?count points) * po_size_bytes P \<le> MAX_UDP_PAYLOAD"
    using size unfolding length_take min_absorb2 [OF len(1)] by linarith
  have live: "\<not> (needs \<and> ?i = 0) \<Longrightarrow> live src s" using Suc.prems(4) i(3) by simp
  have "delivers N (ethen (send_frame_fragment (loopback src N) P (take ?count points) ?i num needs ts d t command)
      (send_fragments (loopback src N) P num needs ts d t command base extra k (drop ?count points))) s
      (map recv (take ?count points) @ map recv (drop ?count points))
    (\<lambda>_ s' cs. live src s' \<and> frame_ends cs = replicate k False @ [True])"
  proof (rule delivers_ethen [OF fragment_delivers [OF i(1) Suc.prems(2,3) live size']])
    fix s' cs assume a: "live src s' \<and> frame_ends cs = [?i = num - 1]" and same: "same_stream s s'"
    have "delivers N (send_fragments (loopback src N) P num needs ts d t command base extra k (drop ?count points)) s' (map recv (drop ?count points))
      (\<lambda>_ s'' ds. live src s'' \<and> frame_ends ds = (if k = 0 then [] else replicate (k - 1) False @ [True]))"
    proof (cases "k = 0")
      case True
      then show ?thesis using a len(2) Suc.prems(6) by simp (rule delivers_eret, simp)
    next
      case False
      then show ?thesis using a same Suc.prems len(2)
        by (intro delivers_post [OF Suc.IH]) (simp_all add: same_stream_def)
    qed
    then show "delivers N (send_fragments (loopback src N) P num needs ts d t command base extra k (drop ?count points)) s' (map recv (drop ?count points))
      (\<lambda>_ s'' ds. live src s'' \<and> frame_ends (cs @ ds) = replicate k False @ [True])"
      by (rule delivers_post) (use a i(4) in \<open>cases k; simp\<close>)
  qed
  then show ?case by (simp add: Let_def flip: map_append)
qed

lemma frame_delivers:
  assumes ready: "ready src s" and fmt: "is_point_format s = fmt" and mode: "is_frame_mode s = FrameMode"
  shows "delivers N (write_frame_fragmented (loopback src N) P points command) s (map recv points)
    (\<lambda>_ s' cs. live src s' \<and> (\<exists>n. frame_ends cs = replicate n False @ [True]))"
  unfolding write_frame_fragmented_def
  apply (rule delivers_now)
  apply (rule delivers_eget)
  subgoal for t w
  proof -
    define s1 where "s1 = s\<lparr>is_world := (w, snd (is_world s))\<rparr>"
    define needs where "needs = needs_config (is_frame_count s1) (is_previous_format s1) (is_point_format s1) (is_last_config_time s1) t"
    define header where "header = PACKET_HEADER_SIZE + CHANNEL_MESSAGE_SIZE + (if needs then config_size (is_point_format s1) else 0) + SAMPLE_CHUNK_SIZE"
    define max_first where "max_first = max 1 ((MAX_UDP_PAYLOAD - header) div po_size_bytes P)"
    define num where "num = max 1 (div_ceil (length points) max_first)"
    define base extra where "base = length points div num" and "extra = length points mod num"
    have s1: "is_point_format s1 = fmt" "is_frame_mode s1 = FrameMode" "\<not> (needs \<and> num = num) \<Longrightarrow> live src s1"
      using ready fmt mode by (auto simp: s1_def ready_def live_def configured_def needs_def needs_config_def)
    have header: "header = 16 + (if needs then config_size fmt else 0)" "header \<le> 60"
      using config_size_le [of fmt] by (simp_all add: header_def idn_sizes s1(1))
    have cap: "max_first = (MAX_UDP_PAYLOAD - header) div po_size_bytes P" "0 < max_first"
      using header(2) size_pos by (simp_all add: max_first_def MAX_UDP_PAYLOAD_def div_greater_zero_iff Suc_le_eq max_def)
    have num: "0 < num" "length points \<le> num * max_first"
      using le_div_ceil_mult [OF cap(2), of "length points"] by (auto simp: num_def max_def intro: order_trans)
    have split: "length points = num * base + extra" "extra < num" using num(1) by (simp_all add: base_def extra_def)
    have "base + (if 0 < extra then 1 else 0) \<le> max_first"
    proof (cases "0 < extra")
      case True
      then have "num * base < num * max_first" using split(1) num(2) by linarith
      then show ?thesis by simp
    next
      case False
      then have "num * base \<le> num * max_first" using split(1) num(2) by linarith
      then show ?thesis using False num(1) by simp
    qed
    then have "(base + (if 0 < extra then 1 else 0)) * po_size_bytes P \<le> MAX_UDP_PAYLOAD - header"
      unfolding cap(1) using size_pos(1) by (simp only: less_eq_div_iff_mult_less_eq)
    then have size: "16 + (if needs then config_size fmt else 0) + (base + (if 0 < extra then 1 else 0)) * po_size_bytes P \<le> MAX_UDP_PAYLOAD"
      using header by (simp add: MAX_UDP_PAYLOAD_def)
    have len: "length points = num * base + (extra - (num - num))" using split by simp
    have sent: "delivers N (send_fragments (loopback src N) P num needs ts d t command base extra num points) s1 (map recv points)
        (\<lambda>_ s' cs. live src s' \<and> frame_ends cs = replicate (num - 1) False @ [True])" for ts d
      by (rule delivers_post [OF fragments_deliver [OF order_refl s1 len less_imp_le [OF split(2)] size]]) (use num(1) in simp_all)
    show ?thesis
      apply (fold s1_def)
      apply (simp only: Let_def id_apply)
      apply (fold needs_def)
      apply (fold header_def)
      apply (fold max_first_def)
      apply (fold num_def)
      apply (fold base_def extra_def)
      apply (subst if_not_P)
       apply (use size_pos(1) in simp)
      apply (rule delivers_then_emod)
        apply (rule delivers_post [OF sent])
        apply (auto simp: stream_view)
      done
  qed
  done

end

subsection \<open>Preparing a frame\<close>

definition padded :: "'p list \<Rightarrow> 'p list" where
  "padded pts = pts @ replicate (MIN_SAMPLES_PER_FRAME - length pts) (last pts)"

lemma padded_points: "pts \<noteq> [] \<Longrightarrow> (if length pts < MIN_SAMPLES_PER_FRAME then pad_points pts else pts) = padded pts"
  by (simp add: padded_def pad_points_def)

lemma delivers_emod_ethen:
  assumes "same_stream s (h s)" "delivered (h s) = delivered s" "delivers N k (h s) want Q"
  shows "delivers N (ethen (emod h) k) s want Q"
  by (rule delivers_silent [of _ s k "h s"]) (use assms in \<open>simp_all add: ethen_def ebind_def emod_def\<close>)

lemma anchor_upd [simp]:
  "ready src (s\<lparr>is_timestamp_anchor_us := a, is_points_since_anchor := b, is_anchor_pps := c\<rparr>) = ready src s"
  "delivered (s\<lparr>is_timestamp_anchor_us := a, is_points_since_anchor := b, is_anchor_pps := c\<rparr>) = delivered s"
  "same_stream s (s\<lparr>is_timestamp_anchor_us := a, is_points_since_anchor := b, is_anchor_pps := c\<rparr>)"
  "ready src (s\<lparr>is_world := (w, snd (is_world s))\<rparr>) = ready src s"
  by (simp_all add: ready_def configured_def stream_channel_def stream_state_def sdm_flags_def rx_def delivered_def same_stream_def)

lemmas ready_view = ready_def configured_def stream_channel_def stream_state_def sdm_flags_def rx_def delivered_def same_stream_def

lemma anchor_delivers:
  fixes s :: "('w, 'a) linked"
  assumes ready: "ready src s"
  shows "delivers N (if is_frame_count s = 0
       then ethen (emod (\<lambda>s. s\<lparr>is_timestamp_anchor_us := elapsed - STARTUP_LEAD_US, is_points_since_anchor := 0,
              is_anchor_pps := max 1 (is_scan_speed s)\<rparr>)) (eret ps)
       else ethen (case is_last_data_send_time s of None \<Rightarrow> eret ()
              | Some t0 \<Rightarrow> ebind (idn_now (loopback src N)) (\<lambda>t1.
                  if max (2 * is_last_chunk_duration_us s) REANCHOR_MIN_GAP_US < (t1 - t0) div 1000
                  then emod (\<lambda>s. s\<lparr>is_timestamp_anchor_us := elapsed, is_points_since_anchor := 0,
                         is_anchor_pps := max 1 (is_scan_speed s)\<rparr>)
                  else eret ()))
            (ethen (emod (\<lambda>s. if is_anchor_pps s \<noteq> max 1 (is_scan_speed s)
                     then s\<lparr>is_timestamp_anchor_us := current_timestamp_us s, is_points_since_anchor := 0,
                            is_anchor_pps := max 1 (is_scan_speed s)\<rparr> else s))
             (eret ps))) s [] (\<lambda>qs s' cs. qs = ps \<and> ready src s' \<and> cs = [])"
proof (cases "is_frame_count s = 0")
  case True
  have "delivers N (ethen (emod (\<lambda>s. s\<lparr>is_timestamp_anchor_us := elapsed - STARTUP_LEAD_US, is_points_since_anchor := 0,
      is_anchor_pps := max 1 (is_scan_speed s)\<rparr>)) (eret ps)) s [] (\<lambda>qs s' cs. qs = ps \<and> ready src s' \<and> cs = [])"
    by (rule delivers_emod_ethen, use ready in simp_all) (rule delivers_eret, simp)
  then show ?thesis using True by simp
next
  case False
  show ?thesis unfolding if_not_P [OF False]
  proof (rule delivers_ethen [where v = "[]" and w = "[]" and ?Q1.0 = "\<lambda>_ s' cs. ready src s' \<and> cs = []", simplified append_Nil])
    show "delivers N (case is_last_data_send_time s of None \<Rightarrow> eret ()
        | Some t0 \<Rightarrow> ebind (idn_now (loopback src N)) (\<lambda>t1.
            if max (2 * is_last_chunk_duration_us s) REANCHOR_MIN_GAP_US < (t1 - t0) div 1000
            then emod (\<lambda>s. s\<lparr>is_timestamp_anchor_us := elapsed, is_points_since_anchor := 0, is_anchor_pps := max 1 (is_scan_speed s)\<rparr>)
            else eret ())) s [] (\<lambda>_ s' cs. ready src s' \<and> cs = [])"
    proof (cases "is_last_data_send_time s")
      case None
      then show ?thesis using ready by simp (rule delivers_eret, simp)
    next
      case (Some t0)
      show ?thesis unfolding Some option.case
        by (rule delivers_now) (use ready in \<open>simp add: delivers_eret delivers_emod\<close>)
    qed
    fix s' :: "('w, 'a) linked" and cs :: "(u8 list \<times> parsed_chunk) list"
    assume "ready src s' \<and> cs = []"
    then show "delivers N (ethen (emod (\<lambda>s. if is_anchor_pps s \<noteq> max 1 (is_scan_speed s)
        then s\<lparr>is_timestamp_anchor_us := current_timestamp_us s, is_points_since_anchor := 0, is_anchor_pps := max 1 (is_scan_speed s)\<rparr> else s)) (eret ps))
      s' [] (\<lambda>qs s'' ds. qs = ps \<and> ready src s'' \<and> cs @ ds = [])"
      by - (rule delivers_emod_ethen; (rule delivers_eret)?; simp)
  qed
qed

lemma prepare_delivers:
  assumes synced: "synced src s" and speed: "0 < is_scan_speed s" and pts: "pts \<noteq> []"
  shows "delivers N (prepare_points (loopback src N) pts) s [] (\<lambda>ps s' cs. ps = padded pts \<and> ready src s' \<and> cs = [])"
  unfolding prepare_points_def Let_def padded_points [OF pts]
  apply (rule delivers_eget)
  apply (subst if_not_P)
   apply (use speed in simp)
  apply (rule delivers_emod_ethen)
    apply (simp add: same_stream_def)
   apply (simp add: delivered_def)
  apply (rule delivers_now)
  apply (rule delivers_eget)
  apply (simp only: id_apply)
  apply (rule anchor_delivers)
  apply (use synced in \<open>auto simp: synced_def ready_view\<close>)
  done

subsection \<open>Whole frames\<close>

text \<open>
  In wave mode the chunks are waves that follow each other without a gap in time; in frame mode the
  last chunk, and only it, ends the frame.
\<close>

fun shaped :: "frame_mode \<Rightarrow> (u8 list \<times> parsed_chunk) list \<Rightarrow> bool" where
  "shaped Wave cs = (list_all (\<lambda>(b, c). pc_chunk_type c = CtWave) cs \<and> (\<exists>a b. gapless a cs b))"
| "shaped FrameMode cs = (\<exists>n. frame_ends cs = replicate n False @ [True])"

lemma live_synced: "live src s \<Longrightarrow> synced src s"
  by (simp add: live_def synced_def)

context idn_point
begin

lemma write_frame_delivers:
  assumes s: "synced src s" "0 < is_scan_speed s" "is_point_format s = fmt" and pts: "pts \<noteq> []"
  shows "delivers N (write_frame (loopback src N) P pts) s (map recv (padded pts)) (\<lambda>_ s' cs. synced src s' \<and> shaped (is_frame_mode s) cs)"
  unfolding write_frame_def if_not_P [OF pts]
  apply (rule delivers_split [where w = "map recv (padded pts)", OF _ prepare_delivers [OF s(1,2) pts]])
   apply simp
  apply (rule delivers_eget)
  subgoal premises p for ps s1 cs
  proof -
    have ps: "ps = padded pts" and cs: "cs = []" and r: "ready src s1" "is_point_format s1 = fmt" and m: "is_frame_mode s = is_frame_mode s1"
      using p s(3) by (simp_all add: same_stream_def)
    have pts': "padded pts \<noteq> []" using pts by (simp add: padded_def)
    show ?thesis
    proof (cases "is_frame_mode s1")
      case Wave
      show ?thesis unfolding Wave frame_mode.case m ps cs append_Nil
        by (rule delivers_post [OF wave_delivers [OF r Wave pts']]) (auto simp: waves_def live_synced)
    next
      case FrameMode
      show ?thesis unfolding FrameMode frame_mode.case m ps cs append_Nil
        apply (rule delivers_split [where w = "[]", OF _ frame_delivers [OF r FrameMode]])
         apply simp
        apply (rule delivers_eret)
        apply (simp add: live_synced)
        done
    qed
  qed
  done

end

subsection \<open>Sessions\<close>

text \<open>
  A stream is connected in a frame mode, as the backend does once, to a receiver in any state; then its
  scan speed and its point format may change, frames are written and keepalives sent, in any order.
\<close>

inductive idn_session :: "'a \<Rightarrow> 'w idn_net \<Rightarrow> ('w, 'a) linked \<Rightarrow> bool" for src N where
  connected: "idn_session src N (set_point_format f (set_frame_mode m (idn_connect service client_group t (w, R, []))))"
| speed: "idn_session src N s \<Longrightarrow> idn_session src N (set_scan_speed pps s)"
| format: "idn_session src N s \<Longrightarrow> idn_session src N (set_point_format f s)"
| frame_xyrgbi: "idn_session src N s \<Longrightarrow> is_point_format s = FmtXyrgbi \<Longrightarrow>
    write_frame (loopback src N) xyrgbi_ops xs s = Some (Inr (), s') \<Longrightarrow> idn_session src N s'"
| frame_highres: "idn_session src N s \<Longrightarrow> is_point_format s = FmtXyrgbHighRes \<Longrightarrow>
    write_frame (loopback src N) highres_ops hs s = Some (Inr (), s') \<Longrightarrow> idn_session src N s'"
| frame_extended: "idn_session src N s \<Longrightarrow> is_point_format s = FmtExtended \<Longrightarrow>
    write_frame (loopback src N) extended_ops es s = Some (Inr (), s') \<Longrightarrow> idn_session src N s'"
| keepalive: "idn_session src N s \<Longrightarrow> send_keepalive (loopback src N) s = Some (r, s') \<Longrightarrow> idn_session src N s'"

text \<open>A frame written now arrives complete and leaves the two ends agreeing.\<close>

definition arrives :: "'a \<Rightarrow> 'w idn_net \<Rightarrow> 'p point_ops \<Rightarrow> ('p \<Rightarrow> received_point) \<Rightarrow> 'p list \<Rightarrow> ('w, 'a) linked \<Rightarrow> bool" where
  "arrives src N P recv pts s \<longleftrightarrow> delivers N (write_frame (loopback src N) P pts) s (map recv (padded pts))
     (\<lambda>_ s' cs. synced src s' \<and> shaped (is_frame_mode s) cs)"

lemma send_ignored:
  assumes "parse_frame_data (rx s) src pkt = (c, rx s)" "idn_send (loopback src N) pkt s = Some (r, s')"
  shows "rx s' = rx s" "\<exists>w. s' = s\<lparr>is_world := w\<rparr>"
proof -
  obtain w R g where w: "is_world s = (w, R, g)" by (cases "is_world s")
  obtain x w' where x: "in_send N pkt w = (x, w')" by fastforce
  show "rx s' = rx s" "\<exists>w. s' = s\<lparr>is_world := w\<rparr>"
    using assms w x by (cases x; auto simp: idn_send_def idn_io_def ebind_def eret_def loopback_def rx_def)+
qed

lemma void_packet_ignored:
  assumes "cm_content_id m = content c False IDNVAL_CNKTYPE_VOID" "cm_total_size m = of_nat CHANNEL_MESSAGE_SIZE"
  shows "parse_frame_data R src (write_packet_header h @ write_channel_message m) = (None, R)"
proof -
  have "parse_metadata (write_packet_header h @ write_channel_message m @ []) = Some (packet_metadata h m c False IDNVAL_CNKTYPE_VOID)"
    by (rule metadata_parsed) (use assms in \<open>simp_all add: idn_sizes\<close>)
  then show ?thesis
    by (simp add: parse_frame_data_def parse_frame_data_with_metadata_def packet_metadata_def parse_message_def state_update_for_config_def
        chunk_type_from_byte_def idn_consts)
qed

lemma synced_upd:
  assumes "rx s' = rx s" "is_previous_format s' = is_previous_format s" "is_service_id s' = is_service_id s"
    "is_service_data_match s' = is_service_data_match s" "is_frame_mode s' = is_frame_mode s" "synced src s"
  shows "synced src s'"
proof -
  have "configured src (s'\<lparr>is_point_format := f\<rparr>) = configured src (s\<lparr>is_point_format := f\<rparr>)" for f
  proof -
    have "rx (s'\<lparr>is_point_format := f\<rparr>) = rx (s\<lparr>is_point_format := f\<rparr>)" using assms(1) by (simp add: rx_def)
    moreover have "stream_channel (s'\<lparr>is_point_format := f\<rparr>) = stream_channel (s\<lparr>is_point_format := f\<rparr>)"
      using assms(3) by (simp add: stream_channel_def)
    moreover have "stream_state (s'\<lparr>is_point_format := f\<rparr>) = stream_state (s\<lparr>is_point_format := f\<rparr>)"
      using assms(4,5) by (simp add: stream_state_def sdm_flags_def)
    ultimately show ?thesis by (simp add: configured_def)
  qed
  then show ?thesis using assms(2,6) by (simp add: synced_def cong: option.case_cong)
qed

lemma now_keeps: "idn_now (loopback src N) s = Some (r, s') \<Longrightarrow> rx s' = rx s \<and> (\<exists>w. s' = s\<lparr>is_world := w\<rparr>)"
  by (cases "is_world s") (auto simp: idn_now_def estep_def loopback_def rx_def split: prod.splits)

lemma keepalive_synced:
  assumes run: "send_keepalive (loopback src N) s = Some (r, s')" and synced: "synced src s"
  shows "synced src s'"
proof -
  define s1 where "s1 = s\<lparr>is_sequence := is_sequence s + 1\<rparr>"
  define pkt where "pkt = write_packet_header \<lparr>ph_command = IDNCMD_RT_CNLMSG, ph_flags = is_client_group s, ph_sequence = is_sequence s\<rparr> @
    write_channel_message \<lparr>cm_total_size = of_nat CHANNEL_MESSAGE_SIZE,
      cm_content_id = IDNFLG_CONTENTID_CHANNELMSG OR channel_id s OR ucast IDNVAL_CNKTYPE_VOID, cm_timestamp = of_nat (current_timestamp_us s)\<rparr>"
  have run': "ethen (idn_send (loopback src N) pkt) (ebind (idn_now (loopback src N)) (\<lambda>t. emod (\<lambda>s. s\<lparr>is_last_send_time := Some t\<rparr>))) s1 = Some (r, s')"
    using run by (simp add: send_keepalive_def ebind_def eget_def next_sequence_def estep_def s1_def pkt_def)
  obtain x s2 where send: "idn_send (loopback src N) pkt s1 = Some (x, s2)"
    using run' by (auto simp: ethen_def ebind_def split: option.splits)
  have "parse_frame_data (rx s1) src pkt = (None, rx s1)"
    unfolding pkt_def content_assembled(2) by (rule void_packet_ignored) simp_all
  note s2 = send_ignored [OF this send]
  have synced2: "synced src s2" by (rule synced_upd [OF _ _ _ _ _ synced]) (use s2 in \<open>auto simp: s1_def\<close>)
  show ?thesis
  proof (cases x)
    case (Inl e)
    then show ?thesis using run' send synced2 by (simp add: ethen_def ebind_def)
  next
    case (Inr u)
    obtain t s3 where now: "idn_now (loopback src N) s2 = Some (Inr t :: idn_error + instant, s3)"
      by (cases "is_world s2") (auto simp: idn_now_def estep_def split: prod.splits)
    have s': "s' = s3\<lparr>is_last_send_time := Some t\<rparr>" using run' send Inr now by (simp add: ethen_def ebind_def emod_def)
    show ?thesis by (rule synced_upd [OF _ _ _ _ _ synced2]) (use now_keeps [OF now] in \<open>auto simp: s' rx_def\<close>)
  qed
qed

lemma frame_synced:
  assumes arr: "pts \<noteq> [] \<Longrightarrow> 0 < is_scan_speed s \<Longrightarrow> arrives src N P recv pts s" and synced: "synced src s"
    and run: "write_frame (loopback src N) P pts s = Some (Inr (), s')"
  shows "synced src s'"
proof (cases "pts = []")
  case True
  then show ?thesis using run synced by (simp add: write_frame_def eret_def)
next
  case False
  have "is_scan_speed s = 0 \<Longrightarrow> prepare_points (loopback src N) pts s = Some (Inl (IdnProtocol InvalidScanSpeed), s)"
    by (simp add: prepare_points_def Let_def ebind_def eget_def efail_def)
  then have "is_scan_speed s = 0 \<Longrightarrow> write_frame (loopback src N) P pts s = Some (Inl (IdnProtocol InvalidScanSpeed), s)"
    unfolding write_frame_def if_not_P [OF False] by (simp add: ebind_def)
  then have "0 < is_scan_speed s" using run by (cases "is_scan_speed s = 0") simp_all
  then show ?thesis using arr [OF False] run by (auto simp: arrives_def delivers_def)
qed

lemma synced_arrives:
  assumes "synced src s" "0 < is_scan_speed s"
  shows "is_point_format s = FmtXyrgbi \<Longrightarrow> xs \<noteq> [] \<Longrightarrow> arrives src N xyrgbi_ops received_xyrgbi xs s"
    "is_point_format s = FmtXyrgbHighRes \<Longrightarrow> hs \<noteq> [] \<Longrightarrow> arrives src N highres_ops received_highres hs s"
    "is_point_format s = FmtExtended \<Longrightarrow> es \<noteq> [] \<Longrightarrow> arrives src N extended_ops received_extended es s"
  unfolding arrives_def using assms
  by (simp_all add: xyrgbi_point.write_frame_delivers highres_point.write_frame_delivers extended_point.write_frame_delivers)

lemma session_synced: "idn_session src N s \<Longrightarrow> synced src s"
proof (induction rule: idn_session.induct)
  case (frame_xyrgbi s xs s')
  show ?case by (rule frame_synced [OF synced_arrives(1) frame_xyrgbi.IH frame_xyrgbi.hyps(3)]) (use frame_xyrgbi in simp_all)
next
  case (frame_highres s hs s')
  show ?case by (rule frame_synced [OF synced_arrives(2) frame_highres.IH frame_highres.hyps(3)]) (use frame_highres in simp_all)
next
  case (frame_extended s es s')
  show ?case by (rule frame_synced [OF synced_arrives(3) frame_extended.IH frame_extended.hyps(3)]) (use frame_extended in simp_all)
next
  case (keepalive s r s')
  then show ?case by (blast intro: keepalive_synced)
next
  case (speed s pps)
  then show ?case by - (rule synced_upd [of _ s], simp_all add: set_scan_speed_def rx_def)
next
  case (format s f)
  then show ?case by - (rule synced_upd [of _ s], simp_all add: set_point_format_def rx_def)
qed (simp add: synced_def set_point_format_def set_frame_mode_def idn_connect_def)


definition open_net :: "unit idn_net" where
  "open_net = \<lparr>in_now = (\<lambda>w. (5000000000, w)), in_send = (\<lambda>b w. (Inr (length b), w)), in_set_read_timeout = (\<lambda>d w. (Inr (), w)),
     in_recv = (\<lambda>w. (Inl IoWouldBlock, w))\<rparr>"

definition fresh_stream :: "(unit, nat) linked" where
  "fresh_stream = set_point_format FmtXyrgbHighRes (set_frame_mode Wave (idn_connect 1 0 0 ((), parser_new, [])))"


end
