(* ===== verification/Spec2Isabelle.thy ===== *)
theory Spec2Isabelle
  imports Slice_Pipeline Chunk_Producer Session_Control Buffer_Estimate Resample Ether_Dream_Session Driver_Dark Idn_Frames
begin

text \<open>
  A verification library for \<^verbatim>\<open>laser-dac\<close>, a Rust crate that streams laser points to digital-to-analog
  converters (DACs). Paths are under \<^verbatim>\<open>src/src/\<close>.

  \<^bold>\<open>The program.\<close> An application submits frames or fills chunks through a callback. A content source
  turns them into slices of points; the driver runs one loop per session that reads the control word (armed or
  not, with a generation), moves the shutter, lets an adapter pace slices into a backend, and reconnects a lost device.
  A backend speaks the protocol of one kind of DAC. The crate also has a simulated Ether Dream and a receiver for
  the IDN protocol, which lets two ends of a protocol be composed here.

  \<^bold>\<open>Shared vocabulary.\<close>
  \<^item> \<open>Prelude\<close>, \<open>Effect\<close>, \<open>Effect_Loops\<close>, \<open>Wire\<close>: words for machine integers, results as sums, effects on a
    state with errors as values and panics as \<open>None\<close>, rules for invariants and triples, and the contract
    \<open>wire_codec\<close> of a fixed-size wire format.
  \<^item> \<open>Float_Model\<close>, \<open>Time_Model\<close>: binary32 and binary64 arithmetic with exact rounding, durations and instants in
    nanoseconds.

  \<^bold>\<open>Points, configuration and content.\<close>
  \<^item> \<open>Laser_Point\<close> (\<^verbatim>\<open>point.rs\<close>), \<open>Config\<close> (\<^verbatim>\<open>device.rs, config.rs\<close>): points and their conversions, with bounds for every float.
  \<^item> \<open>Color_Delay\<close>, \<open>Presentation\<close>, \<open>Engine\<close> (\<^verbatim>\<open>presentation/mod.rs, engine.rs\<close>): the delay line is a shift of the colour
    stream; transitions are dark; the engine never panics, is independent of the chunking, and plays frames in the
    specified order.
  \<^item> \<open>Content_Source\<close> with \<open>Slice_Pipeline\<close> and \<open>Chunk_Producer\<close> (\<^verbatim>\<open>presentation/content_source.rs, slice_pipeline.rs, stream/\<close>): the
    single-slot cache contract as a locale, kept by both sources; disarmed and startup output is dark; underruns
    follow the configured policy.
  \<^item> \<open>Buffer_Estimate\<close> (\<^verbatim>\<open>buffer_estimate/\<close>), \<open>Resample\<close> (\<^verbatim>\<open>resample.rs\<close>): bounds of the estimators; the resampler refines a
    stateless reading of the whole history.

  \<^bold>\<open>Sessions.\<close>
  \<^item> \<open>Session_Control\<close> (\<^verbatim>\<open>session.rs\<close>): the compare-exchange loop of the control word under any interference.
  \<^item> \<open>Backend_Kind\<close>, \<open>Output_Model\<close>, \<open>Adapters\<close>, \<open>Reconnect_Policy\<close>, \<open>Driver\<close> (\<^verbatim>\<open>backend.rs, presentation/output_model/, reconnect.rs, presentation/driver.rs\<close>):
    the loop of a session, whole, over parameters for the device, the clock, the source and the other threads.
  \<^item> \<open>Driver_Record\<close>, \<open>Step_Invariant\<close>, \<open>Driver_Safety\<close>, \<open>Driver_Session\<close>, \<open>Driver_Shutter\<close>: a session under observation and
    the discipline of its shutter: opened only for an armed generation that was read and prepared for, closed at
    every orderly end.
  \<^item> \<open>Session_Sources\<close>, \<open>Driver_Dark\<close>: the sources as the driver sees them; a session that has read no armed
    word has handed only dark points to devices.

  \<^bold>\<open>Ether Dream\<close> (\<^verbatim>\<open>protocols/ether_dream/\<close>).
  \<^item> \<open>Ether_Dream_Protocol\<close>, \<open>Ether_Dream_Profile\<close>, \<open>Ether_Dream_Dac\<close>: wire types with round trips, firmware presets, DAC state.
  \<^item> \<open>Ether_Dream_Sim\<close>, \<open>Ether_Dream_Sim_Inv\<close>, \<open>Ether_Dream_Sim_Stream\<close>, \<open>Ether_Dream_Server\<close>: the simulated DAC, its
    invariant, and its independence of clock granularity and of how input is split.
  \<^item> \<open>Ether_Dream_Link\<close>, \<open>Ether_Dream_Backend\<close>, \<open>Ether_Dream_Safety\<close>, \<open>Ether_Dream_Live\<close>, \<open>Ether_Dream_Loopback\<close>, \<open>Ether_Dream_Session\<close>: the
    command stream and the backend; every call returns, and no sequence of calls and faults hangs the firmware.

  \<^bold>\<open>IDN\<close> (\<^verbatim>\<open>protocols/idn/, receiver/parser.rs\<close>).
  \<^item> \<open>Idn_Protocol\<close>, \<open>Idn_Stream\<close>, \<open>Idn_Receiver\<close>: headers and point formats, the sender, and the parser of the receiver.
  \<^item> \<open>Idn_Loopback\<close>, \<open>Idn_Delivery\<close>, \<open>Idn_Frames\<close>: the sender connected to the parser. The contract \<open>idn_point\<close> is
    what the trait of points promises and holds of all three point types; in every session each written frame
    arrives complete, in order and within the payload bound.

  \<^bold>\<open>Conventions.\<close> State that the code mutates is a record passed along. The operating system, sockets, clocks,
  callbacks and other threads are parameters; where a theorem needs something of them it is a hypothesis or a
  locale with an interpretation. Loops that end are recursive functions with a termination proof; loops that may
  not end are \<open>partial_function\<close>s whose undefined result is \<open>None\<close>, and where the code is meant to return that
  is proved. There is no fuel. Counters that cannot overflow in practice (\<open>usize\<close> lengths, \<open>u64\<close> counts of microseconds
  and points) are natural numbers; wire fields and the control word keep their width. Log output is left out.

  \<^bold>\<open>Not modelled.\<close>
  \<^item> Discovery of devices, the network interface and USB wrappers, thread and channel handles of sessions, and the public
    re-exports: system calls and plumbing around the modelled parts.
  \<^item> The backends of Helios, LaserCube (USB and network), AVB and oscilloscope: layers over external USB, audio and socket
    libraries. In a session they are the device parameter of the driver.
  \<^item> Of IDN: the worker thread of the backend, discovery, and the scan, service map, group and parameter messages. Of the
    receiver: the service around the parser. Delivery is shown for frames written without acknowledgement request
    on a network that loses nothing; loss and reordering of datagrams are not modelled.
  \<^item> Of the Ether Dream simulator: the broadcaster thread and the replay of recorded transcripts.
\<close>

end
